theory Spec2Isabelle
  imports Main
begin

section \<open>The metadata resolver of the Angular compiler (metadata_resolver.ts)\<close>

text \<open>
  A shallow embedding of \<^verbatim>\<open>CompileMetadataResolver\<close>. JavaScript values are a datatype,
  the six caches of the resolver are maps in a record that every operation takes and
  returns, an exception is a value that carries the resolver state at the moment of the
  throw, and the recursion of module resolution through imports and exports counts fuel,
  because the source has no guard against a cyclic module graph.
\<close>

subsection \<open>JavaScript values\<close>

text \<open>
  The values the resolver inspects. \<open>VType\<close> is a value for which \<^verbatim>\<open>isValidType\<close> holds
  (a function or a static symbol), identified by a number; \<open>VMap\<close> is an object literal
  with its own identity (two literals with equal contents are different keys of a
  \<^verbatim>\<open>Set\<close>) and its properties in insertion order; \<open>VHost\<close> to \<open>VInject\<close> are instances of
  the parameter decorators; \<open>VOther\<close> is any other object. Forward references are taken
  as resolved: \<^verbatim>\<open>resolveForwardRef\<close> is the identity on these values.
\<close>

datatype rawval =
    VNull
  | VBool bool
  | VNum int
  | VStr string
  | VType nat
  | VArr "rawval list"
  | VMap nat "(string \<times> rawval) list"
  | VHost
  | VSelf
  | VSkipSelf
  | VOptional
  | VAttribute string
  | VInject rawval
  | VOther nat

definition isBlank :: "rawval \<Rightarrow> bool" where
  "isBlank v = (v = VNull)"

definition isPresent :: "rawval \<Rightarrow> bool" where
  "isPresent v = (v \<noteq> VNull)"

fun truthy :: "rawval \<Rightarrow> bool" where
  "truthy VNull = False"
| "truthy (VBool b) = b"
| "truthy (VNum n) = (n \<noteq> 0)"
| "truthy (VStr s) = (s \<noteq> [])"
| "truthy _ = True"

fun isValidType :: "rawval \<Rightarrow> bool" where
  "isValidType (VType n) = True"
| "isValidType _ = False"

text \<open>Reading a property: \<^verbatim>\<open>undefined\<close> on anything but an object literal that has it.\<close>

fun getProp :: "rawval \<Rightarrow> string \<Rightarrow> rawval" where
  "getProp (VMap i kvs) k = (case map_of kvs k of Some v \<Rightarrow> v | None \<Rightarrow> VNull)"
| "getProp _ k = VNull"

fun hasOwnProperty :: "rawval \<Rightarrow> string \<Rightarrow> bool" where
  "hasOwnProperty (VMap i kvs) k = (k \<in> set (map fst kvs))"
| "hasOwnProperty _ k = False"

text \<open>\<^verbatim>\<open>Array.prototype.join\<close> on strings.\<close>

fun join :: "string \<Rightarrow> string list \<Rightarrow> string" where
  "join sep [] = []"
| "join sep [x] = x"
| "join sep (x # y # ys) = x @ sep @ join sep (y # ys)"

subsection \<open>Errors\<close>

datatype descriptor = DDirective | DPipe | DModule | DProvider | DValue

datatype error =
    MissingSelector rawval
  | UnresolvedDependency string
  | InvalidProvider string
  | InvalidImport descriptor rawval rawval
  | InvalidExport rawval rawval
  | UndeclaredExport descriptor rawval rawval
  | InvalidDeclaration descriptor rawval rawval
  | InvalidBootstrap rawval rawval
  | DirectiveInTwoModules rawval rawval rawval
  | OnlySupportsUseValue
  | OnlySupportsMulti
  | ComponentStillLoading rawval
  | IllegalState string rawval
  | QuerySelectorUndefined string rawval
  | ModuleIdNotString rawval
  | AnnotationNotFound rawval
  | JsTypeError

subsection \<open>Tokens and dependencies\<close>

datatype token = TokValue string | TokIdentifier rawval

record di_dep =
  dep_isAttribute :: bool
  dep_isHost :: bool
  dep_isSelf :: bool
  dep_isSkipSelf :: bool
  dep_isOptional :: bool
  dep_token :: token

text \<open>\<^verbatim>\<open>_getTokenMetadata\<close>: a string becomes a value token, anything else an identifier.\<close>

fun getTokenMetadata :: "rawval \<Rightarrow> token" where
  "getTokenMetadata (VStr s) = TokValue s"
| "getTokenMetadata v = TokIdentifier v"

text \<open>The six locals of the closure in \<^verbatim>\<open>_getDependenciesMetadata\<close>.\<close>

record scan =
  sc_isAttribute :: bool
  sc_isHost :: bool
  sc_isSelf :: bool
  sc_isSkipSelf :: bool
  sc_isOptional :: bool
  sc_token :: rawval

definition scan0 :: scan where
  "scan0 = \<lparr>sc_isAttribute = False, sc_isHost = False, sc_isSelf = False,
            sc_isSkipSelf = False, sc_isOptional = False, sc_token = VNull\<rparr>"

text \<open>The body of \<^verbatim>\<open>param.forEach\<close>: one entry of a composite parameter.\<close>

fun scanEntry :: "scan \<Rightarrow> rawval \<Rightarrow> scan" where
  "scanEntry sc VHost = sc\<lparr>sc_isHost := True\<rparr>"
| "scanEntry sc VSelf = sc\<lparr>sc_isSelf := True\<rparr>"
| "scanEntry sc VSkipSelf = sc\<lparr>sc_isSkipSelf := True\<rparr>"
| "scanEntry sc VOptional = sc\<lparr>sc_isOptional := True\<rparr>"
| "scanEntry sc (VAttribute n) = sc\<lparr>sc_isAttribute := True, sc_token := VStr n\<rparr>"
| "scanEntry sc (VInject t) = sc\<lparr>sc_token := t\<rparr>"
| "scanEntry sc e = (if isValidType e \<and> isBlank (sc_token sc) then sc\<lparr>sc_token := e\<rparr> else sc)"

definition scanParam :: "rawval \<Rightarrow> scan" where
  "scanParam param =
     (case param of
        VArr entries \<Rightarrow> foldl scanEntry scan0 entries
      | _ \<Rightarrow> scan0\<lparr>sc_token := param\<rparr>)"

text \<open>The body of \<^verbatim>\<open>params.map\<close>: \<open>None\<close> is the \<^verbatim>\<open>null\<close> it returns for an unknown token.\<close>

definition paramDependency :: "rawval \<Rightarrow> di_dep option" where
  "paramDependency param =
     (let sc = scanParam param in
      if isBlank (sc_token sc) then None
      else Some \<lparr>dep_isAttribute = sc_isAttribute sc, dep_isHost = sc_isHost sc,
                 dep_isSelf = sc_isSelf sc, dep_isSkipSelf = sc_isSkipSelf sc,
                 dep_isOptional = sc_isOptional sc,
                 dep_token = getTokenMetadata (sc_token sc)\<rparr>)"

text \<open>
  What \<^verbatim>\<open>_getDependenciesMetadata\<close> takes from outside this file: the reflector's
  parameter metadata and \<^verbatim>\<open>stringify\<close>, once on a raw value and once on a token record.
\<close>

record reflection =
  reflector_parameters :: "rawval \<Rightarrow> rawval list option"
  stringify :: "rawval \<Rightarrow> string"
  stringifyToken :: "token \<Rightarrow> string"

text \<open>
  \<^verbatim>\<open>dependencies || this._reflector.parameters(typeOrFunc) || []\<close>; a truthy value that
  is no array has no \<^verbatim>\<open>map\<close>.
\<close>

definition dependencyParams :: "'a reflection_scheme \<Rightarrow> rawval \<Rightarrow> rawval \<Rightarrow> error + rawval list" where
  "dependencyParams r typeOrFunc dependencies =
     (if truthy dependencies then
        (case dependencies of VArr ps \<Rightarrow> Inr ps | _ \<Rightarrow> Inl JsTypeError)
      else (case reflector_parameters r typeOrFunc of Some ps \<Rightarrow> Inr ps | None \<Rightarrow> Inr []))"

definition depsTokens :: "'a reflection_scheme \<Rightarrow> di_dep option list \<Rightarrow> string" where
  "depsTokens r dependenciesMetadata =
     join '', '' (map (\<lambda>dep. case dep of Some d \<Rightarrow> stringifyToken r (dep_token d) | None \<Rightarrow> ''?'')
                      dependenciesMetadata)"

definition unresolvedMessage :: "'a reflection_scheme \<Rightarrow> rawval \<Rightarrow> di_dep option list \<Rightarrow> string" where
  "unresolvedMessage r typeOrFunc dependenciesMetadata =
     ''Can'' @ [CHR 0x27] @ ''t resolve all parameters for '' @ stringify r typeOrFunc @ '': ('' @
     depsTokens r dependenciesMetadata @ '').''"

definition getDependenciesMetadata :: "'a reflection_scheme \<Rightarrow> rawval \<Rightarrow> rawval \<Rightarrow> error + di_dep list" where
  "getDependenciesMetadata r typeOrFunc dependencies =
     (case dependencyParams r typeOrFunc dependencies of
        Inl e \<Rightarrow> Inl e
      | Inr params \<Rightarrow>
          (let dependenciesMetadata = map paramDependency params;
               hasUnknownDeps = (None \<in> set dependenciesMetadata)
           in if hasUnknownDeps
              then Inl (UnresolvedDependency (unresolvedMessage r typeOrFunc dependenciesMetadata))
              else Inr (map the dependenciesMetadata)))"

subsection \<open>Compile metadata\<close>

record type_meta =
  tm_reference :: rawval
  tm_diDeps :: "di_dep list"
  tm_lifecycleHooks :: "nat list"

record factory_meta =
  fm_reference :: rawval
  fm_diDeps :: "di_dep list"

text \<open>
  A \<^verbatim>\<open>CompileIdentifierMetadata\<close>, or the \<^verbatim>\<open>CompileTypeMetadata\<close> that extends it: both
  stand in the entry component lists.
\<close>

datatype identifier_meta = CompileIdentifier rawval | CompileType type_meta

fun reference :: "identifier_meta \<Rightarrow> rawval" where
  "reference (CompileIdentifier v) = v"
| "reference (CompileType t) = tm_reference t"

text \<open>
  Modelled from the spec: \<^verbatim>\<open>visitValue\<close> and \<^verbatim>\<open>ValueTransformer\<close> of util.ts, which is not
  part of the sources at hand. The spec has arrays and maps traversed, leaf types
  converted to identifiers and everything else passed through opaque;
  \<^verbatim>\<open>_CompileValueConverter.visitOther\<close> (in this file) wraps the leaf and pushes it on the
  target list.
\<close>

datatype cvalue =
    COpaque rawval
  | CArray "cvalue list"
  | CStringMap "(string \<times> cvalue) list"
  | CIdentifier identifier_meta

fun visitValue :: "rawval \<Rightarrow> cvalue" where
  "visitValue (VArr xs) = CArray (map visitValue xs)"
| "visitValue (VMap i kvs) = CStringMap (map (\<lambda>kv. (fst kv, visitValue (snd kv))) kvs)"
| "visitValue (VType n) = CIdentifier (CompileIdentifier (VType n))"
| "visitValue v = COpaque v"

fun visitedIdentifiers :: "rawval \<Rightarrow> identifier_meta list" where
  "visitedIdentifiers (VArr xs) = concat (map visitedIdentifiers xs)"
| "visitedIdentifiers (VMap i kvs) = concat (map (\<lambda>kv. visitedIdentifiers (snd kv)) kvs)"
| "visitedIdentifiers (VType n) = [CompileIdentifier (VType n)]"
| "visitedIdentifiers v = []"

definition convertToCompileValue :: "rawval \<Rightarrow> identifier_meta list \<Rightarrow> cvalue \<times> identifier_meta list" where
  "convertToCompileValue v targetIdentifiers = (visitValue v, targetIdentifiers @ visitedIdentifiers v)"

text \<open>
  Modelled from the spec: the constructor of \<^verbatim>\<open>ProviderMeta\<close> (compile_metadata.ts, not
  part of the sources at hand), which lifts the literal \<^verbatim>\<open>{provide, ...}\<close> into the
  provider record shape; \<open>multi\<close> is the truth value of the literal's property.
\<close>

record provider_meta =
  pm_token :: rawval
  pm_useClass :: rawval
  pm_useValue :: rawval
  pm_useExisting :: rawval
  pm_useFactory :: rawval
  pm_dependencies :: rawval
  pm_multi :: bool

definition ProviderMeta :: "rawval \<Rightarrow> rawval \<Rightarrow> provider_meta" where
  "ProviderMeta tok literal =
     \<lparr>pm_token = tok, pm_useClass = getProp literal ''useClass'',
      pm_useValue = getProp literal ''useValue'', pm_useExisting = getProp literal ''useExisting'',
      pm_useFactory = getProp literal ''useFactory'', pm_dependencies = getProp literal ''deps'',
      pm_multi = truthy (getProp literal ''multi'')\<rparr>"

record compile_provider_meta =
  cp_token :: token
  cp_useClass :: "type_meta option"
  cp_useValue :: cvalue
  cp_useFactory :: "factory_meta option"
  cp_useExisting :: "token option"
  cp_deps :: "di_dep list option"
  cp_multi :: bool

text \<open>An entry of the list \<^verbatim>\<open>_getProvidersMetadata\<close> returns; a nested array stays nested.\<close>

datatype compile_provider =
    CPProvider compile_provider_meta
  | CPType type_meta
  | CPArray "compile_provider list"

text \<open>Modelled from the spec: \<^verbatim>\<open>tokenReference\<close> of compile_metadata.ts.\<close>

fun tokenReference :: "token \<Rightarrow> rawval" where
  "tokenReference (TokValue s) = VStr s"
| "tokenReference (TokIdentifier v) = v"

subsection \<open>Annotations and collaborators\<close>

record template_meta =
  tpl_template :: "string option"
  tpl_templateUrl :: "string option"
  tpl_styles :: "string list"
  tpl_styleUrls :: "string list"
  tpl_encapsulation :: "nat option"
  tpl_animations :: "nat list"
  tpl_interpolation :: "(string \<times> string) option"

record query_ann =
  q_selector :: rawval
  q_first :: bool
  q_descendants :: bool
  q_read :: rawval
  q_isViewQuery :: bool

record compile_query =
  cq_selectors :: "token list"
  cq_first :: bool
  cq_descendants :: bool
  cq_propertyName :: string
  cq_read :: "token option"

text \<open>
  The properties of a directive that the resolver hands on untouched
  (\<^verbatim>\<open>CompileDirectiveMetadata.create\<close> sorts the host map into listeners, properties and
  attributes outside this file).
\<close>

record bindings =
  b_exportAs :: "string option"
  b_inputs :: "string list"
  b_outputs :: "string list"
  b_host :: "(string \<times> string) list"

text \<open>
  A \<^verbatim>\<open>Directive\<close> annotation; \<open>da_isComponent\<close> is \<^verbatim>\<open>dirMeta instanceof Component\<close>,
  and the fields from \<open>da_changeDetection\<close> on are read for a component only.
\<close>

record directive_ann =
  da_isComponent :: bool
  da_selector :: "string option"
  da_bindings :: bindings
  da_providers :: rawval
  da_queries :: "(string \<times> query_ann) list option"
  da_changeDetection :: "nat option"
  da_viewProviders :: rawval
  da_entryComponents :: rawval
  da_moduleId :: rawval
  da_template :: template_meta

record pipe_ann =
  pa_name :: string
  pa_pure :: bool

record ng_module =
  ng_providers :: rawval
  ng_declarations :: rawval
  ng_imports :: rawval
  ng_exports :: rawval
  ng_entryComponents :: rawval
  ng_bootstrap :: rawval
  ng_schemas :: rawval
  ng_id :: "string option"

text \<open>What \<^verbatim>\<open>normalizeTemplate\<close> is given, and its \<^verbatim>\<open>SyncAsyncResult\<close>.\<close>

record prenormalized =
  pn_componentType :: rawval
  pn_moduleUrl :: string
  pn_template :: template_meta

datatype template_result = SyncResult template_meta | AsyncResult nat

text \<open>
  The collaborators of the resolver, as functions: the three annotation resolvers
  (\<open>None\<close> where the annotation is missing), the schema registry, the template
  normalizer and the reflector. \<open>staticSymbol_filePath\<close> is \<open>Some\<close> on a static symbol.
\<close>

record env = reflection +
  hasLifecycleHook :: "nat \<Rightarrow> rawval \<Rightarrow> bool"
  LIFECYCLE_HOOKS_VALUES :: "nat list"
  directiveResolver_resolve :: "rawval \<Rightarrow> directive_ann option"
  directiveResolver_isDirective :: "rawval \<Rightarrow> bool"
  pipeResolver_resolve :: "rawval \<Rightarrow> pipe_ann option"
  pipeResolver_isPipe :: "rawval \<Rightarrow> bool"
  ngModuleResolver_resolve :: "rawval \<Rightarrow> ng_module option"
  ngModuleResolver_isNgModule :: "rawval \<Rightarrow> bool"
  schemaRegistry_getDefaultComponentElementName :: string
  directiveNormalizer_normalizeTemplate :: "prenormalized \<Rightarrow> template_result"
  ANALYZE_FOR_ENTRY_COMPONENTS :: rawval
  staticSymbol_filePath :: "rawval \<Rightarrow> string option"
  reflector_importUri :: "rawval \<Rightarrow> string"
  getUrlScheme :: "string \<Rightarrow> string"
  MODULE_SUFFIX :: string

subsection \<open>Array helpers\<close>

text \<open>
  \<^verbatim>\<open>flattenArray\<close>: the loop over \<^verbatim>\<open>tree.length\<close> runs on an array, reads a string
  character by character and does not run on any other value.
\<close>

fun flattenList :: "rawval list \<Rightarrow> rawval list" where
  "flattenList [] = []"
| "flattenList (VArr xs # rest) = flattenList xs @ flattenList rest"
| "flattenList (x # rest) = x # flattenList rest"

fun flattenArray :: "rawval \<Rightarrow> rawval list" where
  "flattenArray (VArr xs) = flattenList xs"
| "flattenArray (VStr s) = map (\<lambda>c. VStr [c]) s"
| "flattenArray _ = []"

text \<open>\<^verbatim>\<open>Array.from(new Set(array))\<close> keeps the first occurrence of each element.\<close>

definition dedupeArray :: "'a list \<Rightarrow> 'a list" where
  "dedupeArray array = rev (remdups (rev array))"

definition flattenAndDedupeArray :: "rawval \<Rightarrow> rawval list" where
  "flattenAndDedupeArray tree = dedupeArray (flattenArray tree)"

text \<open>\<^verbatim>\<open>flattenArray\<close> on a list of provider lists.\<close>

fun flattenProviders :: "compile_provider list \<Rightarrow> compile_provider list" where
  "flattenProviders [] = []"
| "flattenProviders (CPArray xs # rest) = flattenProviders xs @ flattenProviders rest"
| "flattenProviders (p # rest) = p # flattenProviders rest"

subsection \<open>Type, factory and provider metadata\<close>

definition getIdentifierMetadata :: "rawval \<Rightarrow> identifier_meta" where
  "getIdentifierMetadata type = CompileIdentifier type"

definition getTypeMetadata :: "'a env_scheme \<Rightarrow> rawval \<Rightarrow> rawval \<Rightarrow> error + type_meta" where
  "getTypeMetadata env type dependencies =
     (case getDependenciesMetadata env type dependencies of
        Inl e \<Rightarrow> Inl e
      | Inr deps \<Rightarrow>
          Inr \<lparr>tm_reference = type, tm_diDeps = deps,
               tm_lifecycleHooks = filter (\<lambda>hook. hasLifecycleHook env hook type) (LIFECYCLE_HOOKS_VALUES env)\<rparr>)"

definition getFactoryMetadata :: "'a env_scheme \<Rightarrow> rawval \<Rightarrow> rawval \<Rightarrow> error + factory_meta" where
  "getFactoryMetadata env factory dependencies =
     (case getDependenciesMetadata env factory dependencies of
        Inl e \<Rightarrow> Inl e
      | Inr deps \<Rightarrow> Inr \<lparr>fm_reference = factory, fm_diDeps = deps\<rparr>)"

text \<open>\<^verbatim>\<open>_getTypeMetadata\<close> mapped over a list: the first failure ends it.\<close>

fun getTypeMetadataAll :: "'a env_scheme \<Rightarrow> rawval list \<Rightarrow> error + type_meta list" where
  "getTypeMetadataAll env [] = Inr []"
| "getTypeMetadataAll env (t # ts) =
     (case getTypeMetadata env t VNull of
        Inl e \<Rightarrow> Inl e
      | Inr m \<Rightarrow> (case getTypeMetadataAll env ts of Inl e \<Rightarrow> Inl e | Inr ms \<Rightarrow> Inr (m # ms)))"

definition getProviderMetadata :: "'a env_scheme \<Rightarrow> provider_meta \<Rightarrow> error + compile_provider_meta" where
  "getProviderMetadata env provider =
     (let built = \<lambda>compileTypeMetadata compileFactoryMetadata compileDeps.
            \<lparr>cp_token = getTokenMetadata (pm_token provider),
             cp_useClass = compileTypeMetadata,
             cp_useValue = fst (convertToCompileValue (pm_useValue provider) []),
             cp_useFactory = compileFactoryMetadata,
             cp_useExisting = (if truthy (pm_useExisting provider)
                               then Some (getTokenMetadata (pm_useExisting provider)) else None),
             cp_deps = compileDeps,
             cp_multi = pm_multi provider\<rparr>
      in if truthy (pm_useClass provider) then
           (case getTypeMetadata env (pm_useClass provider) (pm_dependencies provider) of
              Inl e \<Rightarrow> Inl e
            | Inr t \<Rightarrow> Inr (built (Some t) None (Some (tm_diDeps t))))
         else if truthy (pm_useFactory provider) then
           (case getFactoryMetadata env (pm_useFactory provider) (pm_dependencies provider) of
              Inl e \<Rightarrow> Inl e
            | Inr f \<Rightarrow> Inr (built None (Some f) (Some (fm_diDeps f))))
         else Inr (built None None None))"

definition getEntryComponentsFromProvider :: "'a env_scheme \<Rightarrow> provider_meta \<Rightarrow> error + identifier_meta list" where
  "getEntryComponentsFromProvider env provider =
     (if truthy (pm_useFactory provider) \<or> truthy (pm_useExisting provider) \<or> truthy (pm_useClass provider)
      then Inl OnlySupportsUseValue
      else if \<not> pm_multi provider then Inl OnlySupportsMulti
      else
        (let collectedIdentifiers = snd (convertToCompileValue (pm_useValue provider) [])
         in Inr (filter (\<lambda>identifier. directiveResolver_isDirective env (reference identifier))
                        collectedIdentifiers)))"

text \<open>
  The text between the brackets of the invalid-provider message: the entries before the
  bad one, the bad one between question marks, and three dots if anything follows.
\<close>

definition providersInfo :: "(rawval \<Rightarrow> string) \<Rightarrow> rawval list \<Rightarrow> nat \<Rightarrow> string" where
  "providersInfo str providers providerIdx =
     join '', '' (concat (map (\<lambda>(seenProviderIdx, seenProvider).
        if seenProviderIdx < providerIdx then [str seenProvider]
        else if seenProviderIdx = providerIdx then [''?'' @ str seenProvider @ ''?'']
        else if seenProviderIdx = providerIdx + 1 then [''...'']
        else []) (enumerate 0 providers)))"

definition invalidProviderMessage :: "'a env_scheme \<Rightarrow> string option \<Rightarrow> rawval list \<Rightarrow> nat \<Rightarrow> string" where
  "invalidProviderMessage env debugInfo providers providerIdx =
     ''Invalid '' @ (case debugInfo of Some d \<Rightarrow> (if d = [] then ''provider'' else d) | None \<Rightarrow> ''provider'') @
     '' - only instances of Provider and Type are allowed, got: ['' @
     providersInfo (stringify env) providers providerIdx @ '']''"

text \<open>
  The loop of \<^verbatim>\<open>_getProvidersMetadata\<close> from index \<open>providerIdx\<close> on: \<open>providers\<close> is the
  whole list (the error message quotes it), the fifth argument what is left of it. The
  result is the list of compiled providers with the entry component sink, which the
  source mutates in place.
\<close>

fun providersFrom ::
  "'a env_scheme \<Rightarrow> string option \<Rightarrow> rawval list \<Rightarrow> nat \<Rightarrow> rawval list \<Rightarrow> identifier_meta list
     \<Rightarrow> error + (compile_provider list \<times> identifier_meta list)" where
  "providersFrom env debugInfo providers providerIdx [] targetEntryComponents =
     Inr ([], targetEntryComponents)"
| "providersFrom env debugInfo providers providerIdx (VArr inner # rest) targetEntryComponents =
     (case providersFrom env debugInfo inner 0 inner targetEntryComponents of
        Inl e \<Rightarrow> Inl e
      | Inr (compileProvider, target1) \<Rightarrow>
          (case providersFrom env debugInfo providers (Suc providerIdx) rest target1 of
             Inl e \<Rightarrow> Inl e
           | Inr (compileProviders, target2) \<Rightarrow> Inr (CPArray compileProvider # compileProviders, target2)))"
| "providersFrom env debugInfo providers providerIdx (provider # rest) targetEntryComponents =
     (if hasOwnProperty provider ''provide'' then
        (let providerMeta = ProviderMeta (getProp provider ''provide'') provider;
             tokenMeta = getTokenMetadata (pm_token providerMeta)
         in if tokenReference tokenMeta = ANALYZE_FOR_ENTRY_COMPONENTS env then
              (case getEntryComponentsFromProvider env providerMeta of
                 Inl e \<Rightarrow> Inl e
               | Inr components \<Rightarrow>
                   providersFrom env debugInfo providers (Suc providerIdx) rest
                     (targetEntryComponents @ components))
            else
              (case getProviderMetadata env providerMeta of
                 Inl e \<Rightarrow> Inl e
               | Inr compileProvider \<Rightarrow>
                   (case providersFrom env debugInfo providers (Suc providerIdx) rest targetEntryComponents of
                      Inl e \<Rightarrow> Inl e
                    | Inr (compileProviders, target1) \<Rightarrow>
                        Inr (CPProvider compileProvider # compileProviders, target1))))
      else if isValidType provider then
        (case getTypeMetadata env provider VNull of
           Inl e \<Rightarrow> Inl e
         | Inr compileProvider \<Rightarrow>
             (case providersFrom env debugInfo providers (Suc providerIdx) rest targetEntryComponents of
                Inl e \<Rightarrow> Inl e
              | Inr (compileProviders, target1) \<Rightarrow> Inr (CPType compileProvider # compileProviders, target1)))
      else Inl (InvalidProvider (invalidProviderMessage env debugInfo providers providerIdx)))"

text \<open>\<^verbatim>\<open>_getProvidersMetadata\<close>; \<^verbatim>\<open>forEach\<close> exists on an array only.\<close>

definition getProvidersMetadata ::
  "'a env_scheme \<Rightarrow> rawval \<Rightarrow> identifier_meta list \<Rightarrow> string option
     \<Rightarrow> error + (compile_provider list \<times> identifier_meta list)" where
  "getProvidersMetadata env providers targetEntryComponents debugInfo =
     (case providers of
        VArr ps \<Rightarrow> providersFrom env debugInfo ps 0 ps targetEntryComponents
      | _ \<Rightarrow> Inl JsTypeError)"

subsection \<open>Directive, pipe and module records\<close>

record dir_meta =
  dm_type :: type_meta
  dm_isComponent :: bool
  dm_selector :: string
  dm_bindings :: bindings
  dm_changeDetection :: "nat option"
  dm_providers :: "compile_provider list"
  dm_viewProviders :: "compile_provider list"
  dm_queries :: "compile_query list"
  dm_viewQueries :: "compile_query list"
  dm_entryComponents :: "identifier_meta list"
  dm_template :: "template_meta option"

text \<open>
  Modelled from the spec: the summary projections \<^verbatim>\<open>toSummary\<close> of compile_metadata.ts
  (not part of the sources at hand). A directive summary keeps what other modules need
  (selector, export name, inputs, outputs, host bindings) and strips template and
  provider detail; a pipe summary mirrors the pipe metadata.
\<close>

record dir_summary =
  ds_type :: type_meta
  ds_isComponent :: bool
  ds_selector :: string
  ds_bindings :: bindings

definition dir_toSummary :: "dir_meta \<Rightarrow> dir_summary" where
  "dir_toSummary m =
     \<lparr>ds_type = dm_type m, ds_isComponent = dm_isComponent m, ds_selector = dm_selector m,
      ds_bindings = dm_bindings m\<rparr>"

record pipe_meta =
  pi_type :: type_meta
  pi_name :: string
  pi_pure :: bool

record pipe_summary =
  ps_type :: type_meta
  ps_name :: string
  ps_pure :: bool

definition pipe_toSummary :: "pipe_meta \<Rightarrow> pipe_summary" where
  "pipe_toSummary m = \<lparr>ps_type = pi_type m, ps_name = pi_name m, ps_pure = pi_pure m\<rparr>"

text \<open>
  A directive loader is the closure \<^verbatim>\<open>() => this._loadDirectiveMetadata(declaredType, isSync)\<close>:
  the two values it captures.
\<close>

datatype loader = DirectiveLoader rawval bool

text \<open>
  Modelled from the spec: the module summary (\<^verbatim>\<open>toSummary\<close>, \<^verbatim>\<open>toInjectorSummary\<close> of
  compile_metadata.ts). It carries the module's type, own providers and entry
  components, the summaries of the modules it imports and exports, its exported
  directives and pipes and its directive loaders. The injector summary has the first
  five only; the other three are empty in it.
\<close>

datatype module_summary = ModuleSummary
  (ms_type: type_meta)
  (ms_entryComponents: "identifier_meta list")
  (ms_providers: "compile_provider list")
  (ms_importedModules: "module_summary list")
  (ms_exportedModules: "module_summary list")
  (ms_exportedDirectives: "identifier_meta list")
  (ms_exportedPipes: "identifier_meta list")
  (ms_directiveLoaders: "loader list")

text \<open>
  Modelled from the spec: \<^verbatim>\<open>TransitiveCompileNgModuleMetadata\<close>, whose constructor fills
  the directive set and the pipe set from the two lists it is given.
\<close>

record transitive_meta =
  tr_modules :: "module_summary list"
  tr_providers :: "compile_provider list"
  tr_entryComponents :: "identifier_meta list"
  tr_directives :: "identifier_meta list"
  tr_pipes :: "identifier_meta list"
  tr_directiveLoaders :: "loader list"
  tr_directivesSet :: "rawval set"
  tr_pipesSet :: "rawval set"

definition TransitiveCompileNgModuleMetadata ::
  "module_summary list \<Rightarrow> compile_provider list \<Rightarrow> identifier_meta list \<Rightarrow> identifier_meta list
     \<Rightarrow> identifier_meta list \<Rightarrow> loader list \<Rightarrow> transitive_meta" where
  "TransitiveCompileNgModuleMetadata modules providers entryComponents directives pipes directiveLoaders =
     \<lparr>tr_modules = modules, tr_providers = providers, tr_entryComponents = entryComponents,
      tr_directives = directives, tr_pipes = pipes, tr_directiveLoaders = directiveLoaders,
      tr_directivesSet = set (map reference directives), tr_pipesSet = set (map reference pipes)\<rparr>"

record module_meta =
  nm_type :: type_meta
  nm_providers :: "compile_provider list"
  nm_entryComponents :: "identifier_meta list"
  nm_bootstrapComponents :: "identifier_meta list"
  nm_schemas :: "rawval list"
  nm_declaredDirectives :: "identifier_meta list"
  nm_exportedDirectives :: "identifier_meta list"
  nm_declaredPipes :: "identifier_meta list"
  nm_exportedPipes :: "identifier_meta list"
  nm_importedModules :: "module_summary list"
  nm_exportedModules :: "module_summary list"
  nm_transitiveModule :: transitive_meta
  nm_id :: "string option"

definition toSummary :: "module_meta \<Rightarrow> module_summary" where
  "toSummary m =
     ModuleSummary (nm_type m) (nm_entryComponents m) (nm_providers m) (nm_importedModules m)
       (nm_exportedModules m) (nm_exportedDirectives m) (nm_exportedPipes m)
       (tr_directiveLoaders (nm_transitiveModule m))"

definition toInjectorSummary :: "module_meta \<Rightarrow> module_summary" where
  "toInjectorSummary m =
     ModuleSummary (nm_type m) (nm_entryComponents m) (nm_providers m) (nm_importedModules m)
       (nm_exportedModules m) [] [] []"

subsection \<open>The transitive closures\<close>

text \<open>
  Both functions return the target list and the visited set, which the source shares
  between the recursive calls and mutates in place. A module is added after its
  children.
\<close>

fun getTransitiveExportedModules ::
  "module_summary list \<Rightarrow> module_summary list \<Rightarrow> rawval set \<Rightarrow> module_summary list \<times> rawval set" where
  "getTransitiveExportedModules [] targetModules visitedModules = (targetModules, visitedModules)"
| "getTransitiveExportedModules (ModuleSummary t ec ps ims exs eds eps dls # rest) targetModules visitedModules =
     (if tm_reference t \<in> visitedModules
      then getTransitiveExportedModules rest targetModules visitedModules
      else
        (case getTransitiveExportedModules exs targetModules (insert (tm_reference t) visitedModules) of
           (target1, visited1) \<Rightarrow>
             getTransitiveExportedModules rest
               (target1 @ [ModuleSummary t ec ps ims exs eds eps dls]) visited1))"

fun getTransitiveImportedModules ::
  "module_summary list \<Rightarrow> module_summary list \<Rightarrow> rawval set \<Rightarrow> module_summary list \<times> rawval set" where
  "getTransitiveImportedModules [] targetModules visitedModules = (targetModules, visitedModules)"
| "getTransitiveImportedModules (ModuleSummary t ec ps ims exs eds eps dls # rest) targetModules visitedModules =
     (if tm_reference t \<in> visitedModules
      then getTransitiveImportedModules rest targetModules visitedModules
      else
        (let nestedModules = ims @ exs in
         case getTransitiveImportedModules nestedModules targetModules (insert (tm_reference t) visitedModules) of
           (target1, visited1) \<Rightarrow>
             getTransitiveImportedModules rest
               (target1 @ [ModuleSummary t ec ps ims exs eds eps dls]) visited1))"

definition getTransitiveNgModuleMetadata :: "module_summary list \<Rightarrow> module_summary list \<Rightarrow> transitive_meta" where
  "getTransitiveNgModuleMetadata importedModules exportedModules =
     (let transitiveModules = fst (getTransitiveImportedModules (importedModules @ exportedModules) [] {});
          providers = flattenProviders (concat (map ms_providers transitiveModules));
          entryComponents = concat (map ms_entryComponents transitiveModules);
          transitiveExportedModules = fst (getTransitiveExportedModules importedModules [] {});
          directives = concat (map ms_exportedDirectives transitiveExportedModules);
          pipes = concat (map ms_exportedPipes transitiveExportedModules);
          directiveLoaders = concat (map ms_directiveLoaders transitiveExportedModules)
      in TransitiveCompileNgModuleMetadata transitiveModules providers entryComponents directives pipes
           directiveLoaders)"

subsection \<open>The resolver state and the outcome of an operation\<close>

record resolver =
  directiveCache :: "rawval \<rightharpoonup> dir_meta"
  directiveSummaryCache :: "rawval \<rightharpoonup> dir_summary"
  pipeCache :: "rawval \<rightharpoonup> pipe_meta"
  pipeSummaryCache :: "rawval \<rightharpoonup> pipe_summary"
  ngModuleCache :: "rawval \<rightharpoonup> module_meta"
  ngModuleOfTypes :: "rawval \<rightharpoonup> rawval"

definition newResolver :: resolver where
  "newResolver =
     \<lparr>directiveCache = Map.empty, directiveSummaryCache = Map.empty, pipeCache = Map.empty,
      pipeSummaryCache = Map.empty, ngModuleCache = Map.empty, ngModuleOfTypes = Map.empty\<rparr>"

text \<open>
  An operation returns a value and the new state, throws an error at some state, or
  runs out of fuel (the recursion of the source did not end within the given depth).
\<close>

datatype 'a result = OutOfFuel | Throw error resolver | Return 'a resolver

fun lift :: "error + 'a \<Rightarrow> resolver \<Rightarrow> 'a result" where
  "lift (Inl e) s = Throw e s"
| "lift (Inr a) s = Return a s"

definition clearCacheFor :: "rawval \<Rightarrow> resolver \<Rightarrow> resolver" where
  "clearCacheFor type s =
     s\<lparr>directiveCache := (directiveCache s)(type := None),
       directiveSummaryCache := (directiveSummaryCache s)(type := None),
       pipeCache := (pipeCache s)(type := None),
       pipeSummaryCache := (pipeSummaryCache s)(type := None),
       ngModuleOfTypes := (ngModuleOfTypes s)(type := None),
       ngModuleCache := Map.empty\<rparr>"

definition clearCache :: "resolver \<Rightarrow> resolver" where
  "clearCache s =
     s\<lparr>directiveCache := Map.empty, directiveSummaryCache := Map.empty, pipeCache := Map.empty,
       pipeSummaryCache := Map.empty, ngModuleCache := Map.empty, ngModuleOfTypes := Map.empty\<rparr>"

subsection \<open>The accessors\<close>

definition getDirectiveMetadata :: "resolver \<Rightarrow> rawval \<Rightarrow> error + dir_meta" where
  "getDirectiveMetadata s directiveType =
     (case directiveCache s directiveType of
        None \<Rightarrow> Inl (IllegalState ''getDirectiveMetadata'' directiveType)
      | Some dirMeta \<Rightarrow> Inr dirMeta)"

definition getDirectiveSummary :: "resolver \<Rightarrow> rawval \<Rightarrow> error + dir_summary" where
  "getDirectiveSummary s dirType =
     (case directiveSummaryCache s dirType of
        None \<Rightarrow> Inl (IllegalState ''getDirectiveSummary'' dirType)
      | Some dirSummary \<Rightarrow> Inr dirSummary)"

definition getNgModuleMetadata :: "resolver \<Rightarrow> rawval \<Rightarrow> error + module_meta" where
  "getNgModuleMetadata s moduleType =
     (case ngModuleCache s moduleType of
        None \<Rightarrow> Inl (IllegalState ''getNgModuleMetadata'' moduleType)
      | Some modMeta \<Rightarrow> Inr modMeta)"

definition getPipeMetadata :: "resolver \<Rightarrow> rawval \<Rightarrow> error + pipe_meta" where
  "getPipeMetadata s pipeType =
     (case pipeCache s pipeType of
        None \<Rightarrow> Inl (IllegalState ''getPipeMetadata'' pipeType)
      | Some pipeMeta \<Rightarrow> Inr pipeMeta)"

definition getPipeSummary :: "resolver \<Rightarrow> rawval \<Rightarrow> error + pipe_summary" where
  "getPipeSummary s pipeType =
     (case pipeSummaryCache s pipeType of
        None \<Rightarrow> Inl (IllegalState ''getPipeSummary'' pipeType)
      | Some pipeSummary \<Rightarrow> Inr pipeSummary)"

subsection \<open>Pipes\<close>

text \<open>\<^verbatim>\<open>_loadPipeMetadata\<close>; the pipe resolver throws where the annotation is missing.\<close>

definition loadPipeMetadata :: "'a env_scheme \<Rightarrow> rawval \<Rightarrow> resolver \<Rightarrow> pipe_meta result" where
  "loadPipeMetadata env pipeType s =
     (case pipeResolver_resolve env pipeType of
        None \<Rightarrow> Throw (AnnotationNotFound pipeType) s
      | Some pipeAnnotation \<Rightarrow>
          (case getTypeMetadata env pipeType VNull of
             Inl e \<Rightarrow> Throw e s
           | Inr t \<Rightarrow>
               (let pipeMeta = \<lparr>pi_type = t, pi_name = pa_name pipeAnnotation, pi_pure = pa_pure pipeAnnotation\<rparr>
                in Return pipeMeta
                     (s\<lparr>pipeCache := (pipeCache s)(pipeType \<mapsto> pipeMeta),
                        pipeSummaryCache := (pipeSummaryCache s)(pipeType \<mapsto> pipe_toSummary pipeMeta)\<rparr>))))"

definition getOrLoadPipeMetadata :: "'a env_scheme \<Rightarrow> rawval \<Rightarrow> resolver \<Rightarrow> pipe_meta result" where
  "getOrLoadPipeMetadata env pipeType s =
     (case pipeCache s pipeType of
        Some pipeMeta \<Rightarrow> Return pipeMeta s
      | None \<Rightarrow> loadPipeMetadata env pipeType s)"

subsection \<open>Directives\<close>

text \<open>\<^verbatim>\<open>selector.split(/\s*,\s*/)\<close>: cut at the commas, without the blanks around them.\<close>

definition isSpace :: "char \<Rightarrow> bool" where
  "isSpace c = (c \<in> set [CHR '' '', CHR 0x09, CHR 0x0A, CHR 0x0B, CHR 0x0C, CHR 0x0D])"

fun splitCommas :: "string \<Rightarrow> string \<Rightarrow> string list" where
  "splitCommas cur [] = [cur]"
| "splitCommas cur (c # cs) =
     (if c = CHR '','' then cur # splitCommas [] cs else splitCommas (cur @ [c]) cs)"

definition trimEnd :: "string \<Rightarrow> string" where
  "trimEnd str = rev (dropWhile isSpace (rev str))"

definition queryVarBindings :: "string \<Rightarrow> string list" where
  "queryVarBindings selector =
     (let pieces = splitCommas [] selector; n = length pieces
      in map (\<lambda>(i, piece).
                (let a = (if 0 < i then dropWhile isSpace piece else piece)
                 in if Suc i < n then trimEnd a else a))
             (enumerate 0 pieces))"

definition getQueryMetadata :: "query_ann \<Rightarrow> string \<Rightarrow> rawval \<Rightarrow> error + compile_query" where
  "getQueryMetadata q propertyName typeOrFunc =
     (let built = \<lambda>selectors.
            \<lparr>cq_selectors = selectors, cq_first = q_first q, cq_descendants = q_descendants q,
             cq_propertyName = propertyName,
             cq_read = (if truthy (q_read q) then Some (getTokenMetadata (q_read q)) else None)\<rparr>
      in case q_selector q of
           VStr sel \<Rightarrow> Inr (built (map (\<lambda>varName. getTokenMetadata (VStr varName)) (queryVarBindings sel)))
         | sel \<Rightarrow>
             (if \<not> truthy sel then Inl (QuerySelectorUndefined propertyName typeOrFunc)
              else Inr (built [getTokenMetadata sel])))"

fun getQueriesMetadata :: "(string \<times> query_ann) list \<Rightarrow> bool \<Rightarrow> rawval \<Rightarrow> error + compile_query list" where
  "getQueriesMetadata [] isViewQuery directiveType = Inr []"
| "getQueriesMetadata ((propertyName, query) # rest) isViewQuery directiveType =
     (if q_isViewQuery query = isViewQuery then
        (case getQueryMetadata query propertyName directiveType of
           Inl e \<Rightarrow> Inl e
         | Inr m \<Rightarrow>
             (case getQueriesMetadata rest isViewQuery directiveType of
                Inl e \<Rightarrow> Inl e
              | Inr res \<Rightarrow> Inr (m # res)))
      else getQueriesMetadata rest isViewQuery directiveType)"

text \<open>\<^verbatim>\<open>componentModuleUrl\<close>.\<close>

definition componentModuleUrl :: "'a env_scheme \<Rightarrow> rawval \<Rightarrow> directive_ann \<Rightarrow> error + string" where
  "componentModuleUrl env type cmpMetadata =
     (case staticSymbol_filePath env type of
        Some filePath \<Rightarrow> Inr filePath
      | None \<Rightarrow>
          (case da_moduleId cmpMetadata of
             VStr moduleId \<Rightarrow>
               Inr (if getUrlScheme env moduleId \<noteq> [] then moduleId
                    else ''package:'' @ moduleId @ MODULE_SUFFIX env)
           | VNull \<Rightarrow> Inr (reflector_importUri env type)
           | _ \<Rightarrow> Inl (ModuleIdNotString type)))"

text \<open>
  \<^verbatim>\<open>getNonNormalizedDirectiveMetadata\<close>. The directive resolver throws where the
  annotation is missing. The view providers and the providers push the entry components
  they find on the list that holds the declared entry components.
\<close>

definition getNonNormalizedDirectiveMetadata ::
  "'a env_scheme \<Rightarrow> rawval \<Rightarrow> error + (directive_ann \<times> dir_meta)" where
  "getNonNormalizedDirectiveMetadata env directiveType =
     (case directiveResolver_resolve env directiveType of
        None \<Rightarrow> Inl (AnnotationNotFound directiveType)
      | Some dirMeta \<Rightarrow>
          (case (if da_isComponent dirMeta \<and> truthy (da_viewProviders dirMeta)
                 then getProvidersMetadata env (da_viewProviders dirMeta) []
                        (Some (''viewProviders for '' @ [CHR 0x22] @ stringify env directiveType @ [CHR 0x22]))
                 else Inr ([], [])) of
             Inl e \<Rightarrow> Inl e
           | Inr (viewProviders, collected) \<Rightarrow>
               (let entryComponentMetadata =
                      (if da_isComponent dirMeta \<and> truthy (da_entryComponents dirMeta)
                       then map getIdentifierMetadata (flattenAndDedupeArray (da_entryComponents dirMeta))
                              @ collected
                       else collected);
                    noSelector = (case da_selector dirMeta of None \<Rightarrow> True | Some sel \<Rightarrow> sel = []);
                    selector = (case da_selector dirMeta of
                                  None \<Rightarrow> schemaRegistry_getDefaultComponentElementName env
                                | Some sel \<Rightarrow>
                                    (if sel = [] then schemaRegistry_getDefaultComponentElementName env
                                     else sel))
                in if \<not> da_isComponent dirMeta \<and> noSelector then Inl (MissingSelector directiveType)
                   else
                     (case (if isPresent (da_providers dirMeta)
                            then getProvidersMetadata env (da_providers dirMeta) entryComponentMetadata
                                   (Some (''providers for '' @ [CHR 0x22] @ stringify env directiveType @ [CHR 0x22]))
                            else Inr ([], entryComponentMetadata)) of
                        Inl e \<Rightarrow> Inl e
                      | Inr (providers, entryComponents) \<Rightarrow>
                          (case (case da_queries dirMeta of
                                   None \<Rightarrow> Inr ([], [])
                                 | Some qs \<Rightarrow>
                                     (case getQueriesMetadata qs False directiveType of
                                        Inl e \<Rightarrow> Inl e
                                      | Inr queries \<Rightarrow>
                                          (case getQueriesMetadata qs True directiveType of
                                             Inl e \<Rightarrow> Inl e
                                           | Inr viewQueries \<Rightarrow> Inr (queries, viewQueries)))) of
                             Inl e \<Rightarrow> Inl e
                           | Inr (queries, viewQueries) \<Rightarrow>
                               (case getTypeMetadata env directiveType VNull of
                                  Inl e \<Rightarrow> Inl e
                                | Inr t \<Rightarrow>
                                    Inr (dirMeta,
                                      \<lparr>dm_type = t, dm_isComponent = da_isComponent dirMeta,
                                       dm_selector = selector, dm_bindings = da_bindings dirMeta,
                                       dm_changeDetection =
                                         (if da_isComponent dirMeta then da_changeDetection dirMeta else None),
                                       dm_providers = providers, dm_viewProviders = viewProviders,
                                       dm_queries = queries, dm_viewQueries = viewQueries,
                                       dm_entryComponents = entryComponents,
                                       dm_template =
                                         (if da_isComponent dirMeta then Some (da_template dirMeta)
                                          else None)\<rparr>)))))))"

text \<open>
  The closure \<^verbatim>\<open>createDirectiveMetadata\<close> of \<^verbatim>\<open>_loadDirectiveMetadata\<close>: it stores the
  metadata with the normalized template, and its summary.
\<close>

definition createDirectiveMetadata ::
  "rawval \<Rightarrow> dir_meta \<Rightarrow> template_meta option \<Rightarrow> resolver \<Rightarrow> dir_meta \<times> resolver" where
  "createDirectiveMetadata directiveType metadata templateMetadata s =
     (let normalizedDirMeta = metadata\<lparr>dm_template := templateMetadata\<rparr>
      in (normalizedDirMeta,
          s\<lparr>directiveCache := (directiveCache s)(directiveType \<mapsto> normalizedDirMeta),
            directiveSummaryCache :=
              (directiveSummaryCache s)(directiveType \<mapsto> dir_toSummary normalizedDirMeta)\<rparr>))"

text \<open>
  What \<^verbatim>\<open>_loadDirectiveMetadata\<close> returns: \<^verbatim>\<open>undefined\<close> on a cache hit, \<^verbatim>\<open>null\<close> when the
  metadata was stored at once, or the promise \<^verbatim>\<open>asyncResult.then(createDirectiveMetadata)\<close>,
  given here by the promise of the normalizer and the two values the continuation
  captures.
\<close>

datatype loading = Cached | Loaded | Pending nat rawval dir_meta

definition loadDirectiveMetadata :: "'a env_scheme \<Rightarrow> rawval \<Rightarrow> bool \<Rightarrow> resolver \<Rightarrow> loading result" where
  "loadDirectiveMetadata env directiveType isSync s =
     (if directiveCache s directiveType \<noteq> None then Return Cached s
      else
        (case getNonNormalizedDirectiveMetadata env directiveType of
           Inl e \<Rightarrow> Throw e s
         | Inr (annotation, metadata) \<Rightarrow>
             if dm_isComponent metadata then
               (case componentModuleUrl env directiveType annotation of
                  Inl e \<Rightarrow> Throw e s
                | Inr moduleUrl \<Rightarrow>
                    (case dm_template metadata of
                       None \<Rightarrow> Throw JsTypeError s
                     | Some template \<Rightarrow>
                         (case directiveNormalizer_normalizeTemplate env
                                 \<lparr>pn_componentType = directiveType, pn_moduleUrl = moduleUrl,
                                  pn_template = template\<rparr> of
                            SyncResult syncResult \<Rightarrow>
                              Return Loaded
                                (snd (createDirectiveMetadata directiveType metadata (Some syncResult) s))
                          | AsyncResult asyncResult \<Rightarrow>
                              if isSync then Throw (ComponentStillLoading directiveType) s
                              else Return (Pending asyncResult directiveType metadata) s)))
             else Return Loaded (snd (createDirectiveMetadata directiveType metadata None s))))"

text \<open>
  The continuation of a pending load, run with the template the promise resolved to, on
  the state of that moment.
\<close>

fun completeLoading :: "loading \<Rightarrow> template_meta \<Rightarrow> resolver \<Rightarrow> resolver" where
  "completeLoading (Pending asyncResult directiveType metadata) templateMetadata s =
     snd (createDirectiveMetadata directiveType metadata (Some templateMetadata) s)"
| "completeLoading _ templateMetadata s = s"

subsection \<open>Modules\<close>

definition getTypeDescriptor :: "'a env_scheme \<Rightarrow> rawval \<Rightarrow> descriptor" where
  "getTypeDescriptor env type =
     (if directiveResolver_isDirective env type then DDirective
      else if pipeResolver_isPipe env type then DPipe
      else if ngModuleResolver_isNgModule env type then DModule
      else if truthy (getProp type ''provide'') then DProvider
      else DValue)"

text \<open>\<^verbatim>\<open>_addTypeToModule\<close>: a type is claimed by the first module that declares it.\<close>

definition addTypeToModule :: "rawval \<Rightarrow> rawval \<Rightarrow> resolver \<Rightarrow> unit result" where
  "addTypeToModule type moduleType s =
     (case ngModuleOfTypes s type of
        Some oldModule \<Rightarrow>
          if truthy oldModule \<and> oldModule \<noteq> moduleType
          then Throw (DirectiveInTwoModules type oldModule moduleType) s
          else Return () (s\<lparr>ngModuleOfTypes := (ngModuleOfTypes s)(type \<mapsto> moduleType)\<rparr>)
      | None \<Rightarrow> Return () (s\<lparr>ngModuleOfTypes := (ngModuleOfTypes s)(type \<mapsto> moduleType)\<rparr>))"

text \<open>Sequencing: the second step runs on the value and the state the first returned.\<close>

fun bindR :: "'a result \<Rightarrow> ('a \<Rightarrow> resolver \<Rightarrow> 'b result) \<Rightarrow> 'b result" where
  "bindR OutOfFuel f = OutOfFuel"
| "bindR (Throw e s) f = Throw e s"
| "bindR (Return a s) f = f a s"

text \<open>
  \<^verbatim>\<open>_loadNgModuleSummary\<close>, over the recursive call \<open>load\<close> of \<^verbatim>\<open>_loadNgModuleMetadata\<close>.
\<close>

definition loadNgModuleSummary ::
  "(rawval \<Rightarrow> bool \<Rightarrow> bool \<Rightarrow> resolver \<Rightarrow> module_meta option result)
     \<Rightarrow> rawval \<Rightarrow> bool \<Rightarrow> resolver \<Rightarrow> module_summary option result" where
  "loadNgModuleSummary load moduleType isSync s =
     bindR (load moduleType isSync False s) (\<lambda>moduleMeta s1. Return (map_option toSummary moduleMeta) s1)"

definition ngModuleProviderInfo :: "'a env_scheme \<Rightarrow> rawval \<Rightarrow> string option" where
  "ngModuleProviderInfo env moduleType =
     Some (''provider for the NgModule '' @ [CHR 0x27] @ stringify env moduleType @ [CHR 0x27])"

text \<open>
  The loop over the imports. The accumulators are the locals \<^verbatim>\<open>providers\<close>,
  \<^verbatim>\<open>entryComponents\<close> and \<^verbatim>\<open>importedModules\<close>.
\<close>

fun importsLoop ::
  "(rawval \<Rightarrow> bool \<Rightarrow> bool \<Rightarrow> resolver \<Rightarrow> module_meta option result) \<Rightarrow> 'a env_scheme \<Rightarrow> rawval \<Rightarrow> bool
     \<Rightarrow> rawval list \<Rightarrow> compile_provider list \<Rightarrow> identifier_meta list \<Rightarrow> module_summary list \<Rightarrow> resolver
     \<Rightarrow> (compile_provider list \<times> identifier_meta list \<times> module_summary list) result" where
  "importsLoop load env moduleType isSync [] providers entryComponents importedModules s =
     Return (providers, entryComponents, importedModules) s"
| "importsLoop load env moduleType isSync (importedType # rest) providers entryComponents importedModules s =
     bindR
       (if isValidType importedType then Return (importedType, providers, entryComponents) s
        else if truthy importedType \<and> truthy (getProp importedType ''ngModule'') then
          (let importedModuleType = getProp importedType ''ngModule'' in
           if truthy (getProp importedType ''providers'') then
             (case getProvidersMetadata env (getProp importedType ''providers'') entryComponents
                     (ngModuleProviderInfo env importedModuleType) of
                Inl e \<Rightarrow> Throw e s
              | Inr (added, entryComponents1) \<Rightarrow>
                  Return (importedModuleType, providers @ added, entryComponents1) s)
           else Return (importedModuleType, providers, entryComponents) s)
        else Return (VNull, providers, entryComponents) s)
       (\<lambda>(importedModuleType, providers1, entryComponents1) s1.
          if truthy importedModuleType then
            bindR (loadNgModuleSummary load importedModuleType isSync s1)
              (\<lambda>importedModuleSummary s2.
                 case importedModuleSummary of
                   None \<Rightarrow>
                     Throw (InvalidImport (getTypeDescriptor env importedType) importedType moduleType) s2
                 | Some summary \<Rightarrow>
                     importsLoop load env moduleType isSync rest providers1 entryComponents1
                       (importedModules @ [summary]) s2)
          else Throw (InvalidImport DValue importedType moduleType) s1)"

text \<open>The loop over the exports, with \<^verbatim>\<open>exportedModules\<close> and \<^verbatim>\<open>exportedNonModuleIdentifiers\<close>.\<close>

fun exportsLoop ::
  "(rawval \<Rightarrow> bool \<Rightarrow> bool \<Rightarrow> resolver \<Rightarrow> module_meta option result) \<Rightarrow> rawval \<Rightarrow> bool
     \<Rightarrow> rawval list \<Rightarrow> module_summary list \<Rightarrow> identifier_meta list \<Rightarrow> resolver
     \<Rightarrow> (module_summary list \<times> identifier_meta list) result" where
  "exportsLoop load moduleType isSync [] exportedModules exportedNonModuleIdentifiers s =
     Return (exportedModules, exportedNonModuleIdentifiers) s"
| "exportsLoop load moduleType isSync (exportedType # rest) exportedModules exportedNonModuleIdentifiers s =
     (if \<not> isValidType exportedType then Throw (InvalidExport exportedType moduleType) s
      else
        bindR (loadNgModuleSummary load exportedType isSync s)
          (\<lambda>exportedModuleSummary s1.
             case exportedModuleSummary of
               Some summary \<Rightarrow>
                 exportsLoop load moduleType isSync rest (exportedModules @ [summary])
                   exportedNonModuleIdentifiers s1
             | None \<Rightarrow>
                 exportsLoop load moduleType isSync rest exportedModules
                   (exportedNonModuleIdentifiers @ [getIdentifierMetadata exportedType]) s1))"

text \<open>
  The loop over the declarations: it extends the transitive metadata, claims each type
  for the module and loads the pipes at once; a directive only gets its loader.
\<close>

fun declarationsLoop ::
  "'a env_scheme \<Rightarrow> rawval \<Rightarrow> bool \<Rightarrow> rawval list \<Rightarrow> transitive_meta \<Rightarrow> identifier_meta list
     \<Rightarrow> identifier_meta list \<Rightarrow> resolver
     \<Rightarrow> (transitive_meta \<times> identifier_meta list \<times> identifier_meta list) result" where
  "declarationsLoop env moduleType isSync [] transitiveModule declaredDirectives declaredPipes s =
     Return (transitiveModule, declaredDirectives, declaredPipes) s"
| "declarationsLoop env moduleType isSync (declaredType # rest) transitiveModule declaredDirectives declaredPipes s =
     (if \<not> isValidType declaredType then Throw (InvalidDeclaration DValue declaredType moduleType) s
      else
        (let declaredIdentifier = getIdentifierMetadata declaredType in
         if directiveResolver_isDirective env declaredType then
           bindR (addTypeToModule declaredType moduleType s)
             (\<lambda>u s1.
                declarationsLoop env moduleType isSync rest
                  (transitiveModule
                     \<lparr>tr_directivesSet := insert declaredType (tr_directivesSet transitiveModule),
                      tr_directives := tr_directives transitiveModule @ [declaredIdentifier],
                      tr_directiveLoaders :=
                        tr_directiveLoaders transitiveModule @ [DirectiveLoader declaredType isSync]\<rparr>)
                  (declaredDirectives @ [declaredIdentifier]) declaredPipes s1)
         else if pipeResolver_isPipe env declaredType then
           bindR (addTypeToModule declaredType moduleType s)
             (\<lambda>u s1.
                bindR (loadPipeMetadata env declaredType s1)
                  (\<lambda>pipeMeta s2.
                     declarationsLoop env moduleType isSync rest
                       (transitiveModule
                          \<lparr>tr_pipesSet := insert declaredType (tr_pipesSet transitiveModule),
                           tr_pipes := tr_pipes transitiveModule @ [declaredIdentifier]\<rparr>)
                       declaredDirectives (declaredPipes @ [declaredIdentifier]) s2))
         else
           Throw (InvalidDeclaration (getTypeDescriptor env declaredType) declaredType moduleType) s))"

text \<open>The exported identifiers that are no modules, sorted into directives and pipes.\<close>

fun classifyExports ::
  "'a env_scheme \<Rightarrow> rawval \<Rightarrow> transitive_meta \<Rightarrow> identifier_meta list
     \<Rightarrow> error + (identifier_meta list \<times> identifier_meta list)" where
  "classifyExports env moduleType transitiveModule [] = Inr ([], [])"
| "classifyExports env moduleType transitiveModule (exportedId # rest) =
     (if reference exportedId \<in> tr_directivesSet transitiveModule then
        (case classifyExports env moduleType transitiveModule rest of
           Inl e \<Rightarrow> Inl e
         | Inr (exportedDirectives, exportedPipes) \<Rightarrow> Inr (exportedId # exportedDirectives, exportedPipes))
      else if reference exportedId \<in> tr_pipesSet transitiveModule then
        (case classifyExports env moduleType transitiveModule rest of
           Inl e \<Rightarrow> Inl e
         | Inr (exportedDirectives, exportedPipes) \<Rightarrow> Inr (exportedDirectives, exportedId # exportedPipes))
      else Inl (UndeclaredExport (getTypeDescriptor env (reference exportedId)) (reference exportedId)
                  moduleType))"

text \<open>The bootstrap list: each entry is checked, then turned into type metadata.\<close>

fun bootstrapMetadata :: "'a env_scheme \<Rightarrow> rawval \<Rightarrow> rawval list \<Rightarrow> error + type_meta list" where
  "bootstrapMetadata env moduleType [] = Inr []"
| "bootstrapMetadata env moduleType (type # rest) =
     (if \<not> isValidType type then Inl (InvalidBootstrap type moduleType)
      else
        (case getTypeMetadata env type VNull of
           Inl e \<Rightarrow> Inl e
         | Inr m \<Rightarrow>
             (case bootstrapMetadata env moduleType rest of
                Inl e \<Rightarrow> Inl e
              | Inr ms \<Rightarrow> Inr (m # ms))))"

text \<open>
  The rest of \<^verbatim>\<open>_loadNgModuleMetadata\<close> after the three loops, which no longer touches
  the caches: the exports are classified, the module's own providers, entry components
  and bootstrap components are appended, and the record is built. The module's own
  providers go last.
\<close>

definition finishNgModule ::
  "'a env_scheme \<Rightarrow> rawval \<Rightarrow> ng_module \<Rightarrow> compile_provider list \<Rightarrow> identifier_meta list
     \<Rightarrow> module_summary list \<Rightarrow> module_summary list \<Rightarrow> identifier_meta list \<Rightarrow> transitive_meta
     \<Rightarrow> identifier_meta list \<Rightarrow> identifier_meta list \<Rightarrow> error + module_meta" where
  "finishNgModule env moduleType meta providers entryComponents importedModules exportedModules
       exportedNonModuleIdentifiers transitiveModule declaredDirectives declaredPipes =
     (case classifyExports env moduleType transitiveModule exportedNonModuleIdentifiers of
        Inl e \<Rightarrow> Inl e
      | Inr (exportedDirectives, exportedPipes) \<Rightarrow>
     (case (if truthy (ng_providers meta)
            then getProvidersMetadata env (ng_providers meta) entryComponents
                   (ngModuleProviderInfo env moduleType)
            else Inr ([], entryComponents)) of
        Inl e \<Rightarrow> Inl e
      | Inr (own, entryComponents1) \<Rightarrow>
     (case (if truthy (ng_entryComponents meta)
            then getTypeMetadataAll env (flattenAndDedupeArray (ng_entryComponents meta))
            else Inr []) of
        Inl e \<Rightarrow> Inl e
      | Inr declaredEntryComponents \<Rightarrow>
     (case (if truthy (ng_bootstrap meta)
            then bootstrapMetadata env moduleType (flattenAndDedupeArray (ng_bootstrap meta))
            else Inr []) of
        Inl e \<Rightarrow> Inl e
      | Inr typeMetadata \<Rightarrow>
     (case getTypeMetadata env moduleType VNull of
        Inl e \<Rightarrow> Inl e
      | Inr moduleTypeMetadata \<Rightarrow>
          (let providers1 = providers @ own;
               bootstrapComponents = map CompileType typeMetadata;
               entryComponents2 = entryComponents1 @ map CompileType declaredEntryComponents
                                    @ bootstrapComponents;
               schemas = (if truthy (ng_schemas meta) then flattenAndDedupeArray (ng_schemas meta) else []);
               transitiveModule1 = transitiveModule
                 \<lparr>tr_entryComponents := tr_entryComponents transitiveModule @ entryComponents2,
                  tr_providers := tr_providers transitiveModule @ providers1\<rparr>;
               compileMeta =
                 \<lparr>nm_type = moduleTypeMetadata, nm_providers = providers1,
                  nm_entryComponents = entryComponents2, nm_bootstrapComponents = bootstrapComponents,
                  nm_schemas = schemas, nm_declaredDirectives = declaredDirectives,
                  nm_exportedDirectives = exportedDirectives, nm_declaredPipes = declaredPipes,
                  nm_exportedPipes = exportedPipes, nm_importedModules = importedModules,
                  nm_exportedModules = exportedModules, nm_transitiveModule = transitiveModule1,
                  nm_id = ng_id meta\<rparr>
           in Inr (compileMeta
                    \<lparr>nm_transitiveModule := transitiveModule1
                       \<lparr>tr_modules := tr_modules transitiveModule1 @ [toInjectorSummary compileMeta]\<rparr>\<rparr>)))))))"

text \<open>The three lists an annotation gives the loops: empty where the property is falsy.\<close>

definition importedTypes :: "ng_module \<Rightarrow> rawval list" where
  "importedTypes meta = (if truthy (ng_imports meta) then flattenAndDedupeArray (ng_imports meta) else [])"

definition exportedTypes :: "ng_module \<Rightarrow> rawval list" where
  "exportedTypes meta = (if truthy (ng_exports meta) then flattenAndDedupeArray (ng_exports meta) else [])"

definition declaredTypes :: "ng_module \<Rightarrow> rawval list" where
  "declaredTypes meta =
     (if truthy (ng_declarations meta) then flattenAndDedupeArray (ng_declarations meta) else [])"

text \<open>
  The body of \<^verbatim>\<open>_loadNgModuleMetadata\<close> over its own recursive call \<open>load\<close>. The module
  resolver throws where the annotation is missing and \<open>throwIfNotFound\<close> is set. The
  cache entry of the module is written last.
\<close>

definition loadNgModuleMetadataBody ::
  "(rawval \<Rightarrow> bool \<Rightarrow> bool \<Rightarrow> resolver \<Rightarrow> module_meta option result) \<Rightarrow> 'a env_scheme
     \<Rightarrow> rawval \<Rightarrow> bool \<Rightarrow> bool \<Rightarrow> resolver \<Rightarrow> module_meta option result" where
  "loadNgModuleMetadataBody load env moduleType isSync throwIfNotFound s =
     (case ngModuleCache s moduleType of
        Some compileMeta \<Rightarrow> Return (Some compileMeta) s
      | None \<Rightarrow>
          (case ngModuleResolver_resolve env moduleType of
             None \<Rightarrow> if throwIfNotFound then Throw (AnnotationNotFound moduleType) s else Return None s
           | Some meta \<Rightarrow>
               bindR (importsLoop load env moduleType isSync (importedTypes meta) [] [] [] s)
                 (\<lambda>(providers, entryComponents, importedModules) s1.
               bindR (exportsLoop load moduleType isSync (exportedTypes meta) [] [] s1)
                 (\<lambda>(exportedModules, exportedNonModuleIdentifiers) s2.
               bindR (declarationsLoop env moduleType isSync (declaredTypes meta)
                        (getTransitiveNgModuleMetadata importedModules exportedModules) [] [] s2)
                 (\<lambda>(transitiveModule, declaredDirectives, declaredPipes) s3.
               bindR (lift (finishNgModule env moduleType meta providers entryComponents importedModules
                              exportedModules exportedNonModuleIdentifiers transitiveModule
                              declaredDirectives declaredPipes) s3)
                 (\<lambda>compileMeta s4.
                    Return (Some compileMeta)
                      (s4\<lparr>ngModuleCache := (ngModuleCache s4)(moduleType \<mapsto> compileMeta)\<rparr>)))))))"

text \<open>
  \<^verbatim>\<open>_loadNgModuleMetadata\<close>. The first argument bounds the depth of the recursion through
  imports and exports; on a cyclic module graph no bound is enough.
\<close>

primrec private_loadNgModuleMetadata ::
  "nat \<Rightarrow> 'a env_scheme \<Rightarrow> rawval \<Rightarrow> bool \<Rightarrow> bool \<Rightarrow> resolver \<Rightarrow> module_meta option result" where
  "private_loadNgModuleMetadata 0 env moduleType isSync throwIfNotFound s = OutOfFuel"
| "private_loadNgModuleMetadata (Suc fuel) env moduleType isSync throwIfNotFound s =
     loadNgModuleMetadataBody (private_loadNgModuleMetadata fuel env) env moduleType isSync
       throwIfNotFound s"

definition getUnloadedNgModuleMetadata ::
  "nat \<Rightarrow> 'a env_scheme \<Rightarrow> rawval \<Rightarrow> bool \<Rightarrow> bool \<Rightarrow> resolver \<Rightarrow> module_meta option result" where
  "getUnloadedNgModuleMetadata fuel env moduleType isSync throwIfNotFound s =
     private_loadNgModuleMetadata fuel env moduleType isSync throwIfNotFound s"

text \<open>Calling the directive loaders one after the other, as \<^verbatim>\<open>directiveLoaders.map\<close> does.\<close>

fun runLoaders :: "'a env_scheme \<Rightarrow> loader list \<Rightarrow> resolver \<Rightarrow> loading list result" where
  "runLoaders env [] s = Return [] s"
| "runLoaders env (DirectiveLoader declaredType isSync # rest) s =
     bindR (loadDirectiveMetadata env declaredType isSync s)
       (\<lambda>l s1. bindR (runLoaders env rest s1) (\<lambda>ls s2. Return (l # ls) s2))"

text \<open>The public \<^verbatim>\<open>loadNgModuleMetadata\<close>: the module, and what its loaders returned.\<close>

definition loadNgModuleMetadata ::
  "nat \<Rightarrow> 'a env_scheme \<Rightarrow> rawval \<Rightarrow> bool \<Rightarrow> bool \<Rightarrow> resolver
     \<Rightarrow> (module_meta option \<times> loading list) result" where
  "loadNgModuleMetadata fuel env moduleType isSync throwIfNotFound s =
     bindR (private_loadNgModuleMetadata fuel env moduleType isSync throwIfNotFound s)
       (\<lambda>ngModule s1.
          case ngModule of
            None \<Rightarrow> Return (None, []) s1
          | Some m \<Rightarrow>
              bindR (runLoaders env (tr_directiveLoaders (nm_transitiveModule m)) s1)
                (\<lambda>loading s2. Return (Some m, loading) s2))"

subsection \<open>Predicates and examples for the statements below\<close>

fun isAttributeMarker :: "rawval \<Rightarrow> bool" where
  "isAttributeMarker (VAttribute n) = True"
| "isAttributeMarker _ = False"

fun isInjectMarker :: "rawval \<Rightarrow> bool" where
  "isInjectMarker (VInject t) = True"
| "isInjectMarker _ = False"

text \<open>No \<^verbatim>\<open>Inject\<close> entry stands after the last \<^verbatim>\<open>Attribute\<close> entry of a composite parameter.\<close>

definition noInjectAfterAttribute :: "rawval \<Rightarrow> bool" where
  "noInjectAfterAttribute param =
     (case param of
        VArr entries \<Rightarrow>
          list_all (\<lambda>e. \<not> isInjectMarker e) (takeWhile (\<lambda>e. \<not> isAttributeMarker e) (rev entries))
      | _ \<Rightarrow> True)"

text \<open>A reflector without parameter metadata, with a \<^verbatim>\<open>stringify\<close> that tells the kinds apart.\<close>

definition exampleReflection :: reflection where
  "exampleReflection =
     \<lparr>reflector_parameters = (\<lambda>t. None),
      stringify = (\<lambda>v. case v of VType n \<Rightarrow> ''Type'' | VStr str \<Rightarrow> str | _ \<Rightarrow> ''object''),
      stringifyToken = (\<lambda>t. case t of TokValue str \<Rightarrow> str | TokIdentifier v \<Rightarrow> ''Type'')\<rparr>"

text \<open>What an outcome leaves behind: the state, the value, the error.\<close>

fun stateOf :: "'a result \<Rightarrow> resolver option" where
  "stateOf OutOfFuel = None"
| "stateOf (Throw e s) = Some s"
| "stateOf (Return a s) = Some s"

fun returned :: "'a result \<Rightarrow> 'a option" where
  "returned (Return a s) = Some a"
| "returned _ = None"

fun thrown :: "'a result \<Rightarrow> error option" where
  "thrown (Throw e s) = Some e"
| "thrown _ = None"

text \<open>
  A relation between the state before an operation and the state it ends in, whether it
  returns or throws.
\<close>

definition steps :: "(resolver \<Rightarrow> resolver \<Rightarrow> bool) \<Rightarrow> resolver \<Rightarrow> 'a result \<Rightarrow> bool" where
  "steps R s r = (case r of OutOfFuel \<Rightarrow> True | Throw e s1 \<Rightarrow> R s s1 | Return a s1 \<Rightarrow> R s s1)"

text \<open>
  A relation that the steps of module resolution respect: it is reflexive and
  transitive, it holds across \<^verbatim>\<open>_addTypeToModule\<close> and \<^verbatim>\<open>_loadPipeMetadata\<close>, and it still
  holds when a module that has an annotation and was not cached at the start is stored
  at the end.
\<close>

definition respected :: "'a env_scheme \<Rightarrow> (resolver \<Rightarrow> resolver \<Rightarrow> bool) \<Rightarrow> bool" where
  "respected env R =
     ((\<forall>s. R s s) \<and> (\<forall>s1 s2 s3. R s1 s2 \<longrightarrow> R s2 s3 \<longrightarrow> R s1 s3) \<and>
      (\<forall>t m s. steps R s (addTypeToModule t m s)) \<and>
      (\<forall>t s. steps R s (loadPipeMetadata env t s)) \<and>
      (\<forall>s s1 t m. R s s1 \<longrightarrow> ngModuleCache s t = None \<longrightarrow> ngModuleResolver_resolve env t \<noteq> None \<longrightarrow>
         R s (s1\<lparr>ngModuleCache := (ngModuleCache s1)(t \<mapsto> m)\<rparr>)))"

text \<open>
  What a module resolution leaves in place: the two directive caches as they were,
  every entry of the module cache, every pipe that had an entry, and every registration
  of a type with a module (the registration of a falsy module is overwritten by
  \<^verbatim>\<open>_addTypeToModule\<close>).
\<close>

definition frame :: "resolver \<Rightarrow> resolver \<Rightarrow> bool" where
  "frame s s1 =
     (directiveCache s1 = directiveCache s \<and>
      directiveSummaryCache s1 = directiveSummaryCache s \<and>
      ngModuleCache s \<subseteq>\<^sub>m ngModuleCache s1 \<and>
      dom (pipeCache s) \<subseteq> dom (pipeCache s1) \<and>
      dom (pipeSummaryCache s) \<subseteq> dom (pipeSummaryCache s1) \<and>
      (\<forall>t m. ngModuleOfTypes s t = Some m \<longrightarrow> truthy m \<longrightarrow> ngModuleOfTypes s1 t = Some m))"

text \<open>A type without a cache entry that still has none.\<close>

definition staysUncached :: "rawval \<Rightarrow> resolver \<Rightarrow> resolver \<Rightarrow> bool" where
  "staysUncached t s s1 = (ngModuleCache s t = None \<longrightarrow> ngModuleCache s1 t = None)"

text \<open>The metadata caches and the summary caches hold the same types.\<close>

definition cachesAligned :: "resolver \<Rightarrow> bool" where
  "cachesAligned s =
     (dom (directiveCache s) = dom (directiveSummaryCache s) \<and>
      dom (pipeCache s) = dom (pipeSummaryCache s))"

definition keepsAligned :: "resolver \<Rightarrow> resolver \<Rightarrow> bool" where
  "keepsAligned s s1 = (cachesAligned s \<longrightarrow> cachesAligned s1)"

text \<open>
  The operations that change the resolver state: the two public module entry points,
  a directive loader called by whoever holds it, the continuation of a pending load,
  \<^verbatim>\<open>getOrLoadPipeMetadata\<close> and the two ways of clearing. A sequence goes on after a
  throw, from the state of the throw; it has no result if an operation runs out of fuel.
\<close>

datatype operation =
    OpLoadNgModuleMetadata nat rawval bool bool
  | OpGetUnloadedNgModuleMetadata nat rawval bool bool
  | OpDirectiveLoader loader
  | OpCompleteLoading loading template_meta
  | OpGetOrLoadPipeMetadata rawval
  | OpClearCacheFor rawval
  | OpClearCache

fun perform :: "'a env_scheme \<Rightarrow> operation \<Rightarrow> resolver \<Rightarrow> resolver option" where
  "perform env (OpLoadNgModuleMetadata fuel moduleType isSync throwIfNotFound) s =
     stateOf (loadNgModuleMetadata fuel env moduleType isSync throwIfNotFound s)"
| "perform env (OpGetUnloadedNgModuleMetadata fuel moduleType isSync throwIfNotFound) s =
     stateOf (getUnloadedNgModuleMetadata fuel env moduleType isSync throwIfNotFound s)"
| "perform env (OpDirectiveLoader (DirectiveLoader declaredType isSync)) s =
     stateOf (loadDirectiveMetadata env declaredType isSync s)"
| "perform env (OpCompleteLoading l templateMetadata) s = Some (completeLoading l templateMetadata s)"
| "perform env (OpGetOrLoadPipeMetadata pipeType) s = stateOf (getOrLoadPipeMetadata env pipeType s)"
| "perform env (OpClearCacheFor type) s = Some (clearCacheFor type s)"
| "perform env (OpClearCache) s = Some (clearCache s)"

fun performAll :: "'a env_scheme \<Rightarrow> operation list \<Rightarrow> resolver \<Rightarrow> resolver option" where
  "performAll env [] s = Some s"
| "performAll env (op # ops) s =
     (case perform env op s of None \<Rightarrow> None | Some s1 \<Rightarrow> performAll env ops s1)"

fun succeeds :: "'e + 'a \<Rightarrow> bool" where
  "succeeds (Inr a) = True"
| "succeeds (Inl e) = False"

text \<open>
  A small program as an example: the modules 1 to 9, the directive 20, the
  components 21 (inline template) and 22 (template behind a URL, which the normalizer
  defers), and the pipes 10 and 12.
\<close>

definition emptyModule :: ng_module where
  "emptyModule =
     \<lparr>ng_providers = VNull, ng_declarations = VNull, ng_imports = VNull, ng_exports = VNull,
      ng_entryComponents = VNull, ng_bootstrap = VNull, ng_schemas = VNull, ng_id = None\<rparr>"

definition valueProvider :: "nat \<Rightarrow> string \<Rightarrow> rawval" where
  "valueProvider i v = VMap i [(''provide'', VStr ''token''), (''useValue'', VStr v)]"

definition exampleModules :: "rawval \<Rightarrow> ng_module option" where
  "exampleModules t =
     (if t = VType 1 then
        Some (emptyModule\<lparr>ng_imports := VArr [VType 2], ng_providers := VArr [valueProvider 1 ''a'']\<rparr>)
      else if t = VType 2 then
        Some (emptyModule\<lparr>ng_imports := VArr [VType 3], ng_providers := VArr [valueProvider 2 ''b'']\<rparr>)
      else if t = VType 3 then Some (emptyModule\<lparr>ng_providers := VArr [valueProvider 3 ''c'']\<rparr>)
      else if t = VType 4 then Some (emptyModule\<lparr>ng_declarations := VArr [VType 10, VType 11]\<rparr>)
      else if t = VType 5 then
        Some (emptyModule\<lparr>ng_declarations := VArr [VType 20, VType 10],
                            ng_exports := VArr [VType 20, VType 10]\<rparr>)
      else if t = VType 6 then Some (emptyModule\<lparr>ng_declarations := VArr [VType 20]\<rparr>)
      else if t = VType 7 then Some (emptyModule\<lparr>ng_exports := VArr [VType 21]\<rparr>)
      else if t = VType 8 then
        Some (emptyModule\<lparr>ng_imports := VArr [VType 5], ng_declarations := VArr [VType 21, VType 22],
                            ng_exports := VArr [VType 20]\<rparr>)
      else if t = VType 9 then
        Some (emptyModule\<lparr>ng_imports := VArr [VType 3], ng_exports := VArr [VType 2],
                            ng_declarations := VArr [VType 12, VType 11]\<rparr>)
      else None)"

definition plainTemplate :: template_meta where
  "plainTemplate =
     \<lparr>tpl_template = Some ''<p></p>'', tpl_templateUrl = None, tpl_styles = [], tpl_styleUrls = [],
      tpl_encapsulation = None, tpl_animations = [], tpl_interpolation = None\<rparr>"

definition exampleDirective :: "bool \<Rightarrow> string option \<Rightarrow> template_meta \<Rightarrow> directive_ann" where
  "exampleDirective isComponent selector template =
     \<lparr>da_isComponent = isComponent, da_selector = selector,
      da_bindings = \<lparr>b_exportAs = None, b_inputs = [], b_outputs = [], b_host = []\<rparr>,
      da_providers = VNull, da_queries = None, da_changeDetection = None, da_viewProviders = VNull,
      da_entryComponents = VNull, da_moduleId = VNull, da_template = template\<rparr>"

definition exampleDirectives :: "rawval \<Rightarrow> directive_ann option" where
  "exampleDirectives t =
     (if t = VType 20 then Some (exampleDirective False (Some ''[d]'') plainTemplate)
      else if t = VType 21 then Some (exampleDirective True None plainTemplate)
      else if t = VType 22 then
        Some (exampleDirective True (Some ''late'')
                (plainTemplate\<lparr>tpl_template := None, tpl_templateUrl := Some ''late.html''\<rparr>))
      else None)"

definition exampleNormalizer :: "prenormalized \<Rightarrow> template_result" where
  "exampleNormalizer p =
     (case tpl_templateUrl (pn_template p) of
        None \<Rightarrow> SyncResult (pn_template p)
      | Some url \<Rightarrow> AsyncResult 0)"

definition exampleEnv :: env where
  "exampleEnv =
     \<lparr>reflector_parameters = (\<lambda>t. None),
      stringify = (\<lambda>v. case v of VType n \<Rightarrow> ''Type'' | VStr str \<Rightarrow> str | _ \<Rightarrow> ''object''),
      stringifyToken = (\<lambda>t. case t of TokValue str \<Rightarrow> str | TokIdentifier v \<Rightarrow> ''Type''),
      hasLifecycleHook = (\<lambda>hook t. False),
      LIFECYCLE_HOOKS_VALUES = [],
      directiveResolver_resolve = exampleDirectives,
      directiveResolver_isDirective = (\<lambda>t. t = VType 20 \<or> t = VType 21 \<or> t = VType 22),
      pipeResolver_resolve =
        (\<lambda>t. if t = VType 10 then Some \<lparr>pa_name = ''upper'', pa_pure = True\<rparr>
             else if t = VType 12 then Some \<lparr>pa_name = ''lower'', pa_pure = True\<rparr> else None),
      pipeResolver_isPipe = (\<lambda>t. t = VType 10 \<or> t = VType 12),
      ngModuleResolver_resolve = exampleModules,
      ngModuleResolver_isNgModule = (\<lambda>t. exampleModules t \<noteq> None),
      schemaRegistry_getDefaultComponentElementName = ''ng-component'',
      directiveNormalizer_normalizeTemplate = exampleNormalizer,
      ANALYZE_FOR_ENTRY_COMPONENTS = VOther 0,
      staticSymbol_filePath = (\<lambda>t. None),
      reflector_importUri = (\<lambda>t. ''module.ts''),
      getUrlScheme = (\<lambda>url. []),
      MODULE_SUFFIX = []\<rparr>"

text \<open>The metadata of component 22 before its template is normalized, and its annotation.\<close>

definition lateAnnotation :: directive_ann where
  "lateAnnotation =
     exampleDirective True (Some ''late'')
       (plainTemplate\<lparr>tpl_template := None, tpl_templateUrl := Some ''late.html''\<rparr>)"

definition lateMetadata :: dir_meta where
  "lateMetadata =
     \<lparr>dm_type = \<lparr>tm_reference = VType 22, tm_diDeps = [], tm_lifecycleHooks = []\<rparr>,
      dm_isComponent = True, dm_selector = ''late'',
      dm_bindings = \<lparr>b_exportAs = None, b_inputs = [], b_outputs = [], b_host = []\<rparr>,
      dm_changeDetection = None, dm_providers = [], dm_viewProviders = [], dm_queries = [],
      dm_viewQueries = [], dm_entryComponents = [],
      dm_template = Some (plainTemplate\<lparr>tpl_template := None, tpl_templateUrl := Some ''late.html''\<rparr>)\<rparr>"

text \<open>The example with a normalizer that has every template at hand.\<close>

definition eagerEnv :: env where
  "eagerEnv = exampleEnv\<lparr>directiveNormalizer_normalizeTemplate := (\<lambda>p. SyncResult plainTemplate)\<rparr>"

text \<open>Collaborators that know no annotation at all.\<close>

definition blindEnv :: env where
  "blindEnv =
     exampleEnv\<lparr>directiveResolver_resolve := (\<lambda>t. None), directiveResolver_isDirective := (\<lambda>t. False),
                pipeResolver_resolve := (\<lambda>t. None), pipeResolver_isPipe := (\<lambda>t. False),
                ngModuleResolver_resolve := (\<lambda>t. None), ngModuleResolver_isNgModule := (\<lambda>t. False)\<rparr>"

text \<open>A sequence of operations with one of each kind.\<close>

definition exampleOperations :: "operation list" where
  "exampleOperations =
     [OpLoadNgModuleMetadata 3 (VType 8) False True,
      OpCompleteLoading (Pending 0 (VType 22) (lateMetadata\<lparr>dm_template := None\<rparr>)) plainTemplate,
      OpClearCacheFor (VType 20),
      OpLoadNgModuleMetadata 3 (VType 4) True True,
      OpGetOrLoadPipeMetadata (VType 10),
      OpDirectiveLoader (DirectiveLoader (VType 22) True),
      OpClearCacheFor (VType 10),
      OpGetUnloadedNgModuleMetadata 3 (VType 5) True True]"

text \<open>
  The module graph that a list of summaries spans: the type a summary stands for, the
  summaries right below it, and all summaries at and below it.
\<close>

definition moduleReference :: "module_summary \<Rightarrow> rawval" where
  "moduleReference m = tm_reference (ms_type m)"

definition nestedModules :: "module_summary \<Rightarrow> module_summary list" where
  "nestedModules m = ms_importedModules m @ ms_exportedModules m"

text \<open>The summary itself, then everything below its imports and exports.\<close>

fun subModules :: "module_summary \<Rightarrow> module_summary list" where
  "subModules (ModuleSummary t ec ps ims exs eds eps dls) =
     ModuleSummary t ec ps ims exs eds eps dls # concat (map subModules (ims @ exs))"

text \<open>Each module type has one summary: equal references mean equal summaries.\<close>

definition oneSummaryPerModule :: "module_summary list \<Rightarrow> bool" where
  "oneSummaryPerModule roots =
     (\<forall>x\<in>set (concat (map subModules roots)). \<forall>y\<in>set (concat (map subModules roots)).
        moduleReference x = moduleReference y \<longrightarrow> x = y)"

text \<open>
  Every module of the list has its nested modules in \<open>V\<close> or earlier in the list.
\<close>

fun childrenFirst :: "rawval set \<Rightarrow> module_summary list \<Rightarrow> bool" where
  "childrenFirst V [] = True"
| "childrenFirst V (m # ms) =
     ((\<forall>c\<in>set (nestedModules m). moduleReference c \<in> V) \<and> childrenFirst (insert (moduleReference m) V) ms)"

text \<open>
  Modelled from the spec: the last-writer-wins provider resolution, which happens
  downstream of this file. The provider for a token is the last one in the flattened
  list whose token it is; a bare type provides itself.
\<close>

fun providerToken :: "compile_provider \<Rightarrow> token option" where
  "providerToken (CPProvider p) = Some (cp_token p)"
| "providerToken (CPType t) = Some (TokIdentifier (tm_reference t))"
| "providerToken (CPArray ps) = None"

definition effectiveProvider :: "token \<Rightarrow> compile_provider list \<Rightarrow> compile_provider option" where
  "effectiveProvider tok providers =
     (case filter (\<lambda>p. providerToken p = Some tok) (flattenProviders providers) of
        [] \<Rightarrow> None
      | p # ps \<Rightarrow> Some (last (p # ps)))"

fun providedValue :: "compile_provider \<Rightarrow> cvalue option" where
  "providedValue (CPProvider p) = Some (cp_useValue p)"
| "providedValue _ = None"

text \<open>
  The module types that the resolution of a module asks for: the type behind each
  import (the import itself, or the \<^verbatim>\<open>ngModule\<close> of a module with providers) and each
  exported type.
\<close>

definition importTargets :: "rawval \<Rightarrow> rawval list" where
  "importTargets importedType =
     (if isValidType importedType then [importedType]
      else if truthy importedType \<and> truthy (getProp importedType ''ngModule'')
      then [getProp importedType ''ngModule''] else [])"

definition moduleTargets :: "ng_module \<Rightarrow> rawval list" where
  "moduleTargets meta =
     concat (map importTargets (importedTypes meta)) @ filter isValidType (exportedTypes meta)"

text \<open>
  A module graph without cycles: every module ranks above the types that its imports
  and exports ask for. (On a cyclic graph the recursion of the source does not end.)
\<close>

definition layered :: "'a env_scheme \<Rightarrow> (rawval \<Rightarrow> nat) \<Rightarrow> bool" where
  "layered env rank =
     (\<forall>t meta. ngModuleResolver_resolve env t = Some meta \<longrightarrow>
        (\<forall>u\<in>set (moduleTargets meta). rank u < rank t))"

text \<open>A summary that is the summary of the cached metadata of its module.\<close>

definition cachedSummary :: "resolver \<Rightarrow> module_summary \<Rightarrow> bool" where
  "cachedSummary s x =
     (case ngModuleCache s (moduleReference x) of None \<Rightarrow> False | Some m \<Rightarrow> toSummary m = x)"

text \<open>
  The transitive providers of a module are those of the modules below it, flattened,
  followed by its own.
\<close>

definition transitiveShape :: "module_meta \<Rightarrow> bool" where
  "transitiveShape m =
     (tr_providers (nm_transitiveModule m) =
        flattenProviders (concat (map ms_providers
          (fst (getTransitiveImportedModules (nm_importedModules m @ nm_exportedModules m) [] {}))))
        @ nm_providers m)"

text \<open>
  The module cache is consistent: a module is stored under its own type, its transitive
  providers have the shape above, and every summary below it is the summary of a cached
  module.
\<close>

definition consistent :: "resolver \<Rightarrow> bool" where
  "consistent s =
     (\<forall>t m. ngModuleCache s t = Some m \<longrightarrow>
        tm_reference (nm_type m) = t \<and> transitiveShape m \<and>
        (\<forall>x\<in>set (concat (map subModules (nm_importedModules m @ nm_exportedModules m))).
           cachedSummary s x))"

text \<open>
  A relation that the steps of a module resolution before the final store respect.
\<close>

definition quiet :: "'a env_scheme \<Rightarrow> (resolver \<Rightarrow> resolver \<Rightarrow> bool) \<Rightarrow> bool" where
  "quiet env R =
     ((\<forall>s. R s s) \<and> (\<forall>s1 s2 s3. R s1 s2 \<longrightarrow> R s2 s3 \<longrightarrow> R s1 s3) \<and>
      (\<forall>t m s. steps R s (addTypeToModule t m s)) \<and>
      (\<forall>t s. steps R s (loadPipeMetadata env t s)))"

text \<open>
  A step that writes below rank \<open>n\<close> only: the module cache grows, stays consistent and
  is unchanged at every type of rank \<open>n\<close> or above.
\<close>

definition writesBelow :: "(rawval \<Rightarrow> nat) \<Rightarrow> nat \<Rightarrow> resolver \<Rightarrow> resolver \<Rightarrow> bool" where
  "writesBelow rank n s s1 =
     (ngModuleCache s \<subseteq>\<^sub>m ngModuleCache s1 \<and> (consistent s \<longrightarrow> consistent s1) \<and>
      (\<forall>x. n \<le> rank x \<longrightarrow> ngModuleCache s1 x = ngModuleCache s x))"

text \<open>The module cache is as it was.\<close>

definition sameModules :: "resolver \<Rightarrow> resolver \<Rightarrow> bool" where
  "sameModules s s1 = (ngModuleCache s1 = ngModuleCache s)"

text \<open>Ranks for the modules of the example.\<close>

definition exampleRank :: "rawval \<Rightarrow> nat" where
  "exampleRank t =
     (if t = VType 1 \<or> t = VType 9 then 3 else if t = VType 2 \<or> t = VType 8 then 2
      else if t \<in> set [VType 3, VType 4, VType 5, VType 6, VType 7] then 1 else 0)"

text \<open>
  What a resolution has stored once it is through a part \<open>seen\<close> of a list of the
  annotation: the modules behind the imports are in the module cache; so is every
  exported type that has a module annotation; every declared type is registered with
  the module, and every declared pipe has its metadata and its summary.
\<close>

definition importsStored :: "resolver \<Rightarrow> rawval list \<Rightarrow> bool" where
  "importsStored s seen = (\<forall>i\<in>set seen. \<forall>v\<in>set (importTargets i). ngModuleCache s v \<noteq> None)"

definition exportsStored :: "'a env_scheme \<Rightarrow> resolver \<Rightarrow> rawval list \<Rightarrow> bool" where
  "exportsStored env s seen =
     (\<forall>v\<in>set seen. ngModuleResolver_resolve env v \<noteq> None \<longrightarrow> ngModuleCache s v \<noteq> None)"

definition declarationsStored :: "'a env_scheme \<Rightarrow> rawval \<Rightarrow> resolver \<Rightarrow> rawval list \<Rightarrow> bool" where
  "declarationsStored env moduleType s seen =
     (\<forall>d\<in>set seen.
        ngModuleOfTypes s d = Some moduleType \<and>
        (\<not> directiveResolver_isDirective env d \<longrightarrow>
           pipeCache s d \<noteq> None \<and> pipeSummaryCache s d \<noteq> None))"

text \<open>
  What the declarations loop of a module keeps: the types registered with that module
  and the pipes that have metadata and a summary.
\<close>

definition ownKept :: "rawval \<Rightarrow> resolver \<Rightarrow> resolver \<Rightarrow> bool" where
  "ownKept moduleType s s1 =
     ((\<forall>d. ngModuleOfTypes s d = Some moduleType \<longrightarrow> ngModuleOfTypes s1 d = Some moduleType) \<and>
      dom (pipeCache s) \<subseteq> dom (pipeCache s1) \<and>
      dom (pipeSummaryCache s) \<subseteq> dom (pipeSummaryCache s1))"

text \<open>The annotation of module 9 of the example.\<close>

definition meta9 :: ng_module where
  "meta9 = emptyModule\<lparr>ng_imports := VArr [VType 3], ng_exports := VArr [VType 2],
                         ng_declarations := VArr [VType 12, VType 11]\<rparr>"

section \<open>Properties\<close>

subsection \<open>The dependency extractor\<close>

lemma scanEntry_isAttribute:
  "sc_isAttribute (scanEntry sc e) = (sc_isAttribute sc \<or> isAttributeMarker e)"
  by (cases e) auto

lemma scan_attribute_string:
  "sc_isAttribute (foldl scanEntry scan0 es) \<Longrightarrow> noInjectAfterAttribute (VArr es) \<Longrightarrow>
   \<exists>n. sc_token (foldl scanEntry scan0 es) = VStr n \<and> VAttribute n \<in> set es"
proof (induction es rule: rev_induct)
  case Nil
  then show ?case by (simp add: scan0_def)
next
  case (snoc e es)
  show ?case
  proof (cases "isAttributeMarker e")
    case True
    then obtain n where "e = VAttribute n" by (cases e) auto
    then show ?thesis by simp
  next
    case False
    with snoc.prems have a: "sc_isAttribute (foldl scanEntry scan0 es)"
      by (simp add: scanEntry_isAttribute)
    from False snoc.prems have ni: "\<not> isInjectMarker e" and na: "noInjectAfterAttribute (VArr es)"
      by (auto simp: noInjectAfterAttribute_def)
    from snoc.IH[OF a na] obtain n
      where n: "sc_token (foldl scanEntry scan0 es) = VStr n" "VAttribute n \<in> set es"
      by blast
    with False ni show ?thesis by (cases e) (auto simp: isBlank_def)
  qed
qed

lemma paramDependency_attribute:
  assumes "paramDependency param = Some d" "dep_isAttribute d" "noInjectAfterAttribute param"
  shows "\<exists>es n. param = VArr es \<and> VAttribute n \<in> set es \<and> dep_token d = TokValue n"
proof (cases param)
  case (VArr es)
  from assms(1,2) VArr have a: "sc_isAttribute (foldl scanEntry scan0 es)"
    by (auto simp: paramDependency_def scanParam_def Let_def split: if_splits)
  from scan_attribute_string[OF a] assms(3) VArr obtain n
    where "sc_token (foldl scanEntry scan0 es) = VStr n" "VAttribute n \<in> set es" by blast
  with assms(1) VArr show ?thesis
    by (auto simp: paramDependency_def scanParam_def Let_def split: if_splits)
qed (use assms in \<open>auto simp: paramDependency_def scanParam_def scan0_def Let_def split: if_splits\<close>)

lemma getDependenciesMetadata_Inr:
  assumes "getDependenciesMetadata r typeOrFunc dependencies = Inr deps"
  shows "\<exists>params. dependencyParams r typeOrFunc dependencies = Inr params \<and>
           map paramDependency params = map Some deps"
proof -
  from assms obtain params where p: "dependencyParams r typeOrFunc dependencies = Inr params"
    by (auto simp: getDependenciesMetadata_def split: sum.splits)
  with assms have n: "None \<notin> set (map paramDependency params)"
    and d: "deps = map the (map paramDependency params)"
    by (auto simp: getDependenciesMetadata_def Let_def split: if_splits)
  have "map paramDependency params = map Some deps"
    unfolding d using n by (induction params) auto
  with p show ?thesis by blast
qed

text \<open>
  C3, as the code has it. The claim that \<open>isAttribute\<close> always comes with a string token
  fails where an \<^verbatim>\<open>Inject\<close> entry follows the \<^verbatim>\<open>Attribute\<close> entry: the later entry
  overwrites the token and the flag stays. The parameter \<^verbatim>\<open>[Attribute('title'), Inject(T)]\<close>
  yields a dependency with \<open>isAttribute\<close> set and the identifier token \<open>T\<close>.
\<close>

theorem attribute_token_counterexample:
  "getDependenciesMetadata exampleReflection (VType 0)
       (VArr [VArr [VAttribute ''title'', VInject (VType 7)]])
     = Inr [\<lparr>dep_isAttribute = True, dep_isHost = False, dep_isSelf = False, dep_isSkipSelf = False,
             dep_isOptional = False, dep_token = TokIdentifier (VType 7)\<rparr>]"
  by (simp add: getDependenciesMetadata_def dependencyParams_def paramDependency_def scanParam_def
        scan0_def isBlank_def Let_def exampleReflection_def)

text \<open>
  C3, amended: when dependency extraction succeeds, a dependency with \<open>isAttribute\<close> set
  whose composite parameter has no \<^verbatim>\<open>Inject\<close> entry after its last \<^verbatim>\<open>Attribute\<close> entry
  has a plain string token, the name of an \<^verbatim>\<open>Attribute\<close> entry of that parameter,
  whatever other markers the composite holds and in whatever order.
\<close>

theorem attribute_token_is_string:
  assumes "getDependenciesMetadata r typeOrFunc dependencies = Inr deps"
      and "dependencyParams r typeOrFunc dependencies = Inr params"
      and "i < length deps" and "dep_isAttribute (deps ! i)"
      and "noInjectAfterAttribute (params ! i)"
    shows "\<exists>es n. params ! i = VArr es \<and> VAttribute n \<in> set es \<and> dep_token (deps ! i) = TokValue n"
proof -
  from getDependenciesMetadata_Inr[OF assms(1)] assms(2)
  have m: "map paramDependency params = map Some deps" by simp
  then have l: "length params = length deps" by (metis length_map)
  from m assms(3) l have "paramDependency (params ! i) = Some (deps ! i)"
    by (metis nth_map)
  from paramDependency_attribute[OF this assms(4,5)] show ?thesis .
qed

theorem attribute_token_is_string_witness:
  "getDependenciesMetadata exampleReflection (VType 0)
       (VArr [VArr [VInject (VType 7), VAttribute ''title'', VOptional]])
     = Inr [\<lparr>dep_isAttribute = True, dep_isHost = False, dep_isSelf = False, dep_isSkipSelf = False,
             dep_isOptional = True, dep_token = TokValue ''title''\<rparr>]
   \<and> (\<exists>es n. [VArr [VInject (VType 7), VAttribute ''title'', VOptional]] ! 0 = VArr es \<and>
        VAttribute n \<in> set es \<and>
        dep_token ([\<lparr>dep_isAttribute = True, dep_isHost = False, dep_isSelf = False,
                     dep_isSkipSelf = False, dep_isOptional = True,
                     dep_token = TokValue ''title''\<rparr>] ! 0) = TokValue n)"
proof -
  have run: "getDependenciesMetadata exampleReflection (VType 0)
       (VArr [VArr [VInject (VType 7), VAttribute ''title'', VOptional]])
     = Inr [\<lparr>dep_isAttribute = True, dep_isHost = False, dep_isSelf = False, dep_isSkipSelf = False,
             dep_isOptional = True, dep_token = TokValue ''title''\<rparr>]"
    by (simp add: getDependenciesMetadata_def dependencyParams_def paramDependency_def scanParam_def
        scan0_def isBlank_def Let_def exampleReflection_def)
  have ps: "dependencyParams exampleReflection (VType 0)
       (VArr [VArr [VInject (VType 7), VAttribute ''title'', VOptional]])
     = Inr [VArr [VInject (VType 7), VAttribute ''title'', VOptional]]"
    by (simp add: dependencyParams_def)
  show ?thesis
    using run attribute_token_is_string[OF run ps, of 0]
    by (simp add: noInjectAfterAttribute_def)
qed

text \<open>
  C9: when the token of at least one parameter cannot be determined, the extraction still
  goes through every parameter and then fails with the unresolved-dependency error. Its
  message lists, joined by commas, one entry for each parameter in order: a question
  mark where no token was determined, the stringified token otherwise. The source puts
  the list between the parentheses of
  \<^verbatim>\<open>Can't resolve all parameters for <type>: (<list>).\<close>
\<close>

theorem unresolved_dependency_message:
  assumes "dependencyParams r typeOrFunc dependencies = Inr params"
      and "\<exists>p \<in> set params. isBlank (sc_token (scanParam p))"
  shows "getDependenciesMetadata r typeOrFunc dependencies =
           Inl (UnresolvedDependency
             (''Can'' @ [CHR 0x27] @ ''t resolve all parameters for '' @ stringify r typeOrFunc @ '': ('' @
              join '', '' (map (\<lambda>p. if isBlank (sc_token (scanParam p)) then ''?''
                                     else stringifyToken r (getTokenMetadata (sc_token (scanParam p))))
                               params)
              @ '').''))"
proof -
  have e: "map (\<lambda>dep. case dep of Some d \<Rightarrow> stringifyToken r (dep_token d) | None \<Rightarrow> ''?'')
               (map paramDependency params)
      = map (\<lambda>p. if isBlank (sc_token (scanParam p)) then ''?''
                  else stringifyToken r (getTokenMetadata (sc_token (scanParam p)))) params"
    by (simp add: paramDependency_def Let_def)
  from assms(2) have "None \<in> set (map paramDependency params)"
    by (auto simp: paramDependency_def Let_def image_iff)
  with assms(1) have "getDependenciesMetadata r typeOrFunc dependencies =
      Inl (UnresolvedDependency (unresolvedMessage r typeOrFunc (map paramDependency params)))"
    by (simp add: getDependenciesMetadata_def Let_def)
  then show ?thesis
    unfolding unresolvedMessage_def depsTokens_def e .
qed

theorem unresolved_dependency_message_witness:
  "getDependenciesMetadata exampleReflection (VType 0)
       (VArr [VArr [VOptional], VArr [VSelf, VInject (VStr ''config'')], VNull, VType 5])
     = Inl (UnresolvedDependency
         (''Can'' @ [CHR 0x27] @ ''t resolve all parameters for Type: (?, config, ?, Type).''))"
proof -
  have ps: "dependencyParams exampleReflection (VType 0)
       (VArr [VArr [VOptional], VArr [VSelf, VInject (VStr ''config'')], VNull, VType 5])
     = Inr [VArr [VOptional], VArr [VSelf, VInject (VStr ''config'')], VNull, VType 5]"
    by (simp add: dependencyParams_def)
  have un: "\<exists>p \<in> set [VArr [VOptional], VArr [VSelf, VInject (VStr ''config'')], VNull, VType 5].
              isBlank (sc_token (scanParam p))"
    by (simp add: scanParam_def scan0_def isBlank_def)
  show ?thesis
    using unresolved_dependency_message[OF ps un]
    by (simp add: scanParam_def scan0_def isBlank_def exampleReflection_def)
qed

subsection \<open>The entry component collector\<close>

lemma tokenReference_getTokenMetadata: "tokenReference (getTokenMetadata v) = v"
  by (cases v) auto

text \<open>
  C8: a provider literal whose token is the reserved collector token. If it carries
  \<open>useClass\<close>, \<open>useFactory\<close> or \<open>useExisting\<close> (a truthy value, which is the test of the
  source) the normalization fails with the only-useValue error; else, if \<open>multi\<close> is not
  true, with the only-multi error; otherwise the loop goes on with the rest of the list
  as if the provider were not there, so it adds nothing to the provider output, and the
  sink has grown by exactly the identifiers of the types embedded in \<open>useValue\<close>, in
  traversal order, for which \<open>isDirective\<close> holds.
\<close>

theorem entry_components_provider:
  assumes own: "hasOwnProperty provider ''provide''"
      and tok: "getProp provider ''provide'' = ANALYZE_FOR_ENTRY_COMPONENTS env"
  shows "providersFrom env debugInfo providers providerIdx (provider # rest) sink =
           (if truthy (getProp provider ''useClass'') \<or> truthy (getProp provider ''useFactory'')
               \<or> truthy (getProp provider ''useExisting'')
            then Inl OnlySupportsUseValue
            else if \<not> truthy (getProp provider ''multi'') then Inl OnlySupportsMulti
            else providersFrom env debugInfo providers (Suc providerIdx) rest
                   (sink @ filter (\<lambda>identifier. directiveResolver_isDirective env (reference identifier))
                                  (visitedIdentifiers (getProp provider ''useValue''))))"
proof -
  from own obtain i kvs where p: "provider = VMap i kvs" by (cases provider) auto
  show ?thesis
    using own tok unfolding p
    by (simp add: Let_def tokenReference_getTokenMetadata ProviderMeta_def
        getEntryComponentsFromProvider_def convertToCompileValue_def
        del: getProp.simps hasOwnProperty.simps)
qed

theorem entry_components_provider_witness:
  "providersFrom exampleEnv None [] 0
     [VMap 1 [(''provide'', VOther 0),
              (''useValue'', VArr [VType 20, VMap 2 [(''nested'', VType 21)], VType 11, VStr ''x'']),
              (''multi'', VBool True)]] []
     = Inr ([], [CompileIdentifier (VType 20), CompileIdentifier (VType 21)])
   \<and> providersFrom exampleEnv None [] 0
     [VMap 1 [(''provide'', VOther 0), (''useValue'', VArr [VType 20]), (''useExisting'', VType 20),
              (''multi'', VBool True)]] []
     = Inl OnlySupportsUseValue
   \<and> providersFrom exampleEnv None [] 0
     [VMap 1 [(''provide'', VOther 0), (''useValue'', VArr [VType 20])]] []
     = Inl OnlySupportsMulti"
proof -
  have a: "ANALYZE_FOR_ENTRY_COMPONENTS exampleEnv = VOther 0"
    by (simp add: exampleEnv_def)
  have d: "directiveResolver_isDirective exampleEnv = (\<lambda>t. t = VType 20 \<or> t = VType 21 \<or> t = VType 22)"
    by (simp add: exampleEnv_def)
  show ?thesis
    using entry_components_provider[of "VMap 1 [(''provide'', VOther 0),
              (''useValue'', VArr [VType 20, VMap 2 [(''nested'', VType 21)], VType 11, VStr ''x'']),
              (''multi'', VBool True)]" exampleEnv None "[]" 0 "[]" "[]"]
      entry_components_provider[of "VMap 1 [(''provide'', VOther 0), (''useValue'', VArr [VType 20]),
              (''useExisting'', VType 20), (''multi'', VBool True)]" exampleEnv None "[]" 0 "[]" "[]"]
      entry_components_provider[of "VMap 1 [(''provide'', VOther 0), (''useValue'', VArr [VType 20])]"
              exampleEnv None "[]" 0 "[]" "[]"]
    by (simp add: a d)
qed

subsection \<open>Relations that module resolution respects\<close>

lemma steps_simps [simp]:
  "steps R s OutOfFuel = True"
  "steps R s (Throw e s1) = R s s1"
  "steps R s (Return a s1) = R s s1"
  by (simp_all add: steps_def)

lemma steps_bindR:
  assumes "steps R s m" and "\<And>a s1. m = Return a s1 \<Longrightarrow> steps R s1 (f a s1)"
      and "\<And>s1 s2 s3. R s1 s2 \<Longrightarrow> R s2 s3 \<Longrightarrow> R s1 s3"
  shows "steps R s (bindR m f)"
proof (cases m)
  case (Return a s1)
  with assms(1) have r: "R s s1" by simp
  from assms(2)[OF Return] have "steps R s1 (f a s1)" .
  with r assms(3) show ?thesis unfolding Return by (cases "f a s1") auto
qed (use assms(1) in auto)

lemma steps_lift: "R s s \<Longrightarrow> steps R s (lift x s)"
  by (cases x) auto

lemma respectedD:
  assumes "respected env R"
  shows "R s s" and "R s1 s2 \<Longrightarrow> R s2 s3 \<Longrightarrow> R s1 s3"
    and "steps R s (addTypeToModule t m s)" and "steps R s (loadPipeMetadata env t s)"
    and "R s s1 \<Longrightarrow> ngModuleCache s t = None \<Longrightarrow> ngModuleResolver_resolve env t \<noteq> None \<Longrightarrow>
           R s (s1\<lparr>ngModuleCache := (ngModuleCache s1)(t \<mapsto> cm)\<rparr>)"
  using assms unfolding respected_def by blast+

lemma steps_loadNgModuleSummary:
  assumes "respected env R" and "\<And>t b1 b2 s. steps R s (load t b1 b2 s)"
  shows "steps R s (loadNgModuleSummary load t isSync s)"
  unfolding loadNgModuleSummary_def
  by (rule steps_bindR) (use assms respectedD(1,2)[OF assms(1)] in auto)

lemma steps_importsLoop:
  assumes r: "respected env R" and l: "\<And>t b1 b2 s. steps R s (load t b1 b2 s)"
  shows "steps R s (importsLoop load env moduleType isSync imps providers entryComponents importedModules s)"
proof (induction imps arbitrary: providers entryComponents importedModules s)
  case Nil
  show ?case using respectedD(1)[OF r] by simp
next
  case (Cons importedType rest)
  note tr = respectedD(2)[OF r]
  note rf = respectedD(1)[OF r]
  show ?case
    unfolding importsLoop.simps
  proof (rule steps_bindR[OF _ _ tr], goal_cases)
    case 1
    show ?case using rf by (auto simp: Let_def split: sum.splits)
  next
    case (2 a s1)
    obtain imt p1 e1 where a: "a = (imt, p1, e1)" by (cases a)
    show ?case
    proof (cases "truthy imt")
      case True
      have "steps R s1 (bindR (loadNgModuleSummary load imt isSync s1)
              (\<lambda>importedModuleSummary s2.
                 case importedModuleSummary of
                   None \<Rightarrow> Throw (InvalidImport (getTypeDescriptor env importedType) importedType moduleType) s2
                 | Some summary \<Rightarrow> importsLoop load env moduleType isSync rest p1 e1 (importedModules @ [summary]) s2))"
      proof (rule steps_bindR[OF steps_loadNgModuleSummary[OF r l] _ tr], goal_cases)
        case (1 b s2)
        show ?case using rf Cons.IH by (cases b) auto
      qed
      with True show ?thesis by (simp add: a)
    next
      case False
      then show ?thesis using rf by (simp add: a)
    qed
  qed
qed

lemma steps_exportsLoop:
  assumes r: "respected env R" and l: "\<And>t b1 b2 s. steps R s (load t b1 b2 s)"
  shows "steps R s (exportsLoop load moduleType isSync exports exportedModules ids s)"
proof (induction exports arbitrary: exportedModules ids s)
  case Nil
  show ?case using respectedD(1)[OF r] by simp
next
  case (Cons exportedType rest)
  note tr = respectedD(2)[OF r]
  note rf = respectedD(1)[OF r]
  show ?case
  proof (cases "isValidType exportedType")
    case False
    then show ?thesis using rf by simp
  next
    case True
    have "steps R s (bindR (loadNgModuleSummary load exportedType isSync s)
          (\<lambda>exportedModuleSummary s1.
             case exportedModuleSummary of
               Some summary \<Rightarrow> exportsLoop load moduleType isSync rest (exportedModules @ [summary]) ids s1
             | None \<Rightarrow> exportsLoop load moduleType isSync rest exportedModules
                   (ids @ [getIdentifierMetadata exportedType]) s1))"
    proof (rule steps_bindR[OF steps_loadNgModuleSummary[OF r l] _ tr], goal_cases)
      case (1 b s2)
      show ?case using Cons.IH by (cases b) auto
    qed
    with True show ?thesis by simp
  qed
qed

lemma steps_declarationsLoop:
  assumes r: "respected env R"
  shows "steps R s (declarationsLoop env moduleType isSync decls transitiveModule dds dps s)"
proof (induction decls arbitrary: transitiveModule dds dps s)
  case Nil
  show ?case using respectedD(1)[OF r] by simp
next
  case (Cons declaredType rest)
  note tr = respectedD(2)[OF r]
  note rf = respectedD(1)[OF r]
  note a = respectedD(3)[OF r]
  note p = respectedD(4)[OF r]
  show ?case
    unfolding declarationsLoop.simps Let_def
    apply (intro steps_bindR[OF a _ tr] steps_bindR[OF p _ tr] Cons.IH | simp only: if_split | intro conjI impI | simp add: rf)+
    done
qed

lemma steps_comp:
  assumes "steps R s m" and "\<And>a s1. m = Return a s1 \<Longrightarrow> R s s1 \<Longrightarrow> steps R s (f a s1)"
  shows "steps R s (bindR m f)"
  using assms by (cases m) auto

lemma steps_trans:
  assumes "respected env R" and "R s s1" and "steps R s1 m"
  shows "steps R s m"
  using assms(2,3) respectedD(2)[OF assms(1)] by (cases m) auto

lemma steps_body:
  assumes r: "respected env R" and l: "\<And>t b1 b2 s. steps R s (load t b1 b2 s)"
  shows "steps R s (loadNgModuleMetadataBody load env moduleType isSync throwIfNotFound s)"
proof (cases "ngModuleCache s moduleType")
  case (Some m)
  then show ?thesis using respectedD(1)[OF r] by (simp add: loadNgModuleMetadataBody_def)
next
  case None
  note tr = respectedD(2)[OF r]
  note rf = respectedD(1)[OF r]
  show ?thesis
  proof (cases "ngModuleResolver_resolve env moduleType")
    case n: None
    then show ?thesis using None rf by (simp add: loadNgModuleMetadataBody_def)
  next
    case (Some meta)
    have fin: "\<And>s4 x. R s s4 \<Longrightarrow> steps R s (bindR (lift x s4) (\<lambda>compileMeta s5.
                    Return (Some compileMeta) (s5\<lparr>ngModuleCache := (ngModuleCache s5)(moduleType \<mapsto> compileMeta)\<rparr>)))"
      subgoal for s4 x
        using respectedD(5)[OF r _ None, of s4] Some by (cases x) auto
      done
    show ?thesis
      unfolding loadNgModuleMetadataBody_def None Some option.case
      apply (rule steps_comp[OF steps_importsLoop[OF r l]])
      apply (simp only: split_paired_all prod.case)
      apply (rule steps_comp[OF steps_trans[OF r _ steps_exportsLoop[OF r l]]])
       apply assumption
      apply (simp only: split_paired_all prod.case)
      apply (rule steps_comp[OF steps_trans[OF r _ steps_declarationsLoop[OF r]]])
       apply assumption
      apply (simp only: split_paired_all prod.case)
      apply (rule fin)
      apply assumption
      done
  qed
qed

lemma steps_private_loadNgModuleMetadata:
  assumes r: "respected env R"
  shows "steps R s (private_loadNgModuleMetadata fuel env moduleType isSync throwIfNotFound s)"
proof (induction fuel arbitrary: moduleType isSync throwIfNotFound s)
  case 0
  show ?case by simp
next
  case (Suc fuel)
  show ?case unfolding private_loadNgModuleMetadata.simps
    by (rule steps_body[OF r]) (rule Suc.IH)
qed

subsection \<open>What a failing resolution leaves behind\<close>

lemma respected_frame: "respected env frame"
  unfolding respected_def
proof (intro conjI allI impI)
  show "frame s s" for s by (simp add: frame_def)
  show "frame s1 s3" if "frame s1 s2" "frame s2 s3" for s1 s2 s3
    using that unfolding frame_def
    by (elim conjE, intro conjI)
      (simp, simp, erule (1) map_le_trans, erule (1) subset_trans, erule (1) subset_trans, blast)
  show "steps frame s (addTypeToModule t m s)" for t m s
    by (auto simp: addTypeToModule_def frame_def split: option.splits)
  show "steps frame s (loadPipeMetadata env t s)" for t s
    by (auto simp: loadPipeMetadata_def frame_def Let_def split: option.splits sum.splits)
  show "frame s (s1\<lparr>ngModuleCache := (ngModuleCache s1)(t \<mapsto> m)\<rparr>)"
    if "frame s s1" "ngModuleCache s t = None" "ngModuleResolver_resolve env t \<noteq> None" for s s1 t m
    using that unfolding frame_def by (auto simp: map_le_def dom_def)
qed

text \<open>
  C2, as the code has it. The claim that a failing module resolution leaves every cache
  as it was fails: module 4 declares the pipe 10 and then the type 11, which is neither
  a directive nor a pipe. The resolution throws at 11, after \<^verbatim>\<open>_addTypeToModule\<close> has
  registered the pipe with the module and \<^verbatim>\<open>_loadPipeMetadata\<close> has stored its metadata
  and its summary; all three entries were absent before.
\<close>

theorem failed_resolution_counterexample:
  "thrown (private_loadNgModuleMetadata 1 exampleEnv (VType 4) True True newResolver)
     = Some (InvalidDeclaration DValue (VType 11) (VType 4))
   \<and> map_option (\<lambda>s. (pipeCache s (VType 10), pipeSummaryCache s (VType 10), ngModuleOfTypes s (VType 10)))
        (stateOf (private_loadNgModuleMetadata 1 exampleEnv (VType 4) True True newResolver))
     = Some (Some \<lparr>pi_type = \<lparr>tm_reference = VType 10, tm_diDeps = [], tm_lifecycleHooks = []\<rparr>,
                    pi_name = ''upper'', pi_pure = True\<rparr>,
             Some \<lparr>ps_type = \<lparr>tm_reference = VType 10, tm_diDeps = [], tm_lifecycleHooks = []\<rparr>,
                    ps_name = ''upper'', ps_pure = True\<rparr>,
             Some (VType 4))
   \<and> (pipeCache newResolver (VType 10), pipeSummaryCache newResolver (VType 10),
      ngModuleOfTypes newResolver (VType 10)) = (None, None, None)"
  by code_simp

subsection \<open>The metadata caches and the summary caches\<close>

lemma respected_keepsAligned: "respected env keepsAligned"
  unfolding respected_def
proof (intro conjI allI impI)
  show "keepsAligned s s" for s by (simp add: keepsAligned_def)
  show "keepsAligned s1 s3" if "keepsAligned s1 s2" "keepsAligned s2 s3" for s1 s2 s3
    using that unfolding keepsAligned_def by auto
  show "steps keepsAligned s (addTypeToModule t m s)" for t m s
    by (auto simp: addTypeToModule_def keepsAligned_def cachesAligned_def split: option.splits)
  show "steps keepsAligned s (loadPipeMetadata env t s)" for t s
    by (auto simp: loadPipeMetadata_def keepsAligned_def cachesAligned_def Let_def split: option.splits sum.splits)
  show "keepsAligned s (s1\<lparr>ngModuleCache := (ngModuleCache s1)(t \<mapsto> m)\<rparr>)"
    if "keepsAligned s s1" "ngModuleCache s t = None" "ngModuleResolver_resolve env t \<noteq> None" for s s1 t m
    using that unfolding keepsAligned_def cachesAligned_def by auto
qed

lemma keepsAligned_createDirectiveMetadata:
  "keepsAligned s (snd (createDirectiveMetadata directiveType metadata templateMetadata s))"
  by (auto simp: createDirectiveMetadata_def keepsAligned_def cachesAligned_def Let_def)

lemma steps_keepsAligned_loadDirectiveMetadata:
  "steps keepsAligned s (loadDirectiveMetadata env directiveType isSync s)"
proof -
  have rf: "keepsAligned s s" by (simp add: keepsAligned_def)
  show ?thesis
    unfolding loadDirectiveMetadata_def
    by (auto simp: rf keepsAligned_createDirectiveMetadata
        split: sum.splits option.splits template_result.splits)
qed

lemma steps_keepsAligned_runLoaders:
  "steps keepsAligned s (runLoaders env loaders s)"
proof (induction loaders arbitrary: s)
  case Nil
  show ?case by (simp add: keepsAligned_def)
next
  case (Cons l loaders)
  obtain t b where l: "l = DirectiveLoader t b" by (cases l)
  have tr: "\<And>s1 s2 s3. keepsAligned s1 s2 \<Longrightarrow> keepsAligned s2 s3 \<Longrightarrow> keepsAligned s1 s3"
    by (simp add: keepsAligned_def)
  show ?case
    unfolding l runLoaders.simps
    apply (rule steps_bindR[OF steps_keepsAligned_loadDirectiveMetadata _ tr])
      apply (rule steps_bindR[OF Cons.IH _ tr])
        apply (simp add: keepsAligned_def)
       apply assumption+
    done
qed

lemma steps_keepsAligned_loadNgModuleMetadata:
  "steps keepsAligned s (loadNgModuleMetadata fuel env moduleType isSync throwIfNotFound s)"
proof -
  have tr: "\<And>s1 s2 s3. keepsAligned s1 s2 \<Longrightarrow> keepsAligned s2 s3 \<Longrightarrow> keepsAligned s1 s3"
    by (simp add: keepsAligned_def)
  have rf: "\<And>s. keepsAligned s s" by (simp add: keepsAligned_def)
  show ?thesis
    unfolding loadNgModuleMetadata_def
  proof (rule steps_bindR[OF steps_private_loadNgModuleMetadata[OF respected_keepsAligned] _ tr], goal_cases)
    case (1 a s1)
    show ?case
    proof (cases a)
      case None
      then show ?thesis by (simp add: rf)
    next
      case (Some m)
      show ?thesis unfolding Some option.case
        by (rule steps_bindR[OF steps_keepsAligned_runLoaders _ tr]) (simp add: rf, assumption+)
    qed
  qed assumption+
qed

lemma steps_stateOf: "steps R s r \<Longrightarrow> stateOf r = Some s1 \<Longrightarrow> R s s1"
  by (cases r) auto

lemma perform_keepsAligned:
  assumes "perform env op s = Some s1"
  shows "keepsAligned s s1"
proof (cases op)
  case (OpLoadNgModuleMetadata f t b1 b2)
  with assms show ?thesis
    using steps_stateOf[OF steps_keepsAligned_loadNgModuleMetadata] by simp
next
  case (OpGetUnloadedNgModuleMetadata f t b1 b2)
  with assms show ?thesis
    using steps_stateOf[OF steps_private_loadNgModuleMetadata[OF respected_keepsAligned]]
    by (simp add: getUnloadedNgModuleMetadata_def)
next
  case (OpDirectiveLoader l)
  obtain t b where l: "l = DirectiveLoader t b" by (cases l)
  with assms OpDirectiveLoader show ?thesis
    using steps_stateOf[OF steps_keepsAligned_loadDirectiveMetadata] by simp
next
  case (OpCompleteLoading l tm)
  with assms show ?thesis
    by (cases l) (auto simp: keepsAligned_createDirectiveMetadata, auto simp: keepsAligned_def)
next
  case (OpGetOrLoadPipeMetadata t)
  have "steps keepsAligned s (getOrLoadPipeMetadata env t s)"
    using respectedD(4)[OF respected_keepsAligned[of env], where s = s and t = t]
    by (auto simp: getOrLoadPipeMetadata_def keepsAligned_def split: option.splits)
  with assms OpGetOrLoadPipeMetadata show ?thesis
    using steps_stateOf by simp
next
  case (OpClearCacheFor t)
  have "cachesAligned s \<Longrightarrow> cachesAligned (clearCacheFor t s)"
    by (simp add: clearCacheFor_def cachesAligned_def)
  with assms OpClearCacheFor show ?thesis
    by (auto simp: keepsAligned_def)
next
  case OpClearCache
  have "cachesAligned (clearCache s)"
    by (simp add: clearCache_def cachesAligned_def)
  with assms OpClearCache show ?thesis
    by (auto simp: keepsAligned_def)
qed

lemma performAll_cachesAligned:
  "performAll env ops s = Some s1 \<Longrightarrow> cachesAligned s \<Longrightarrow> cachesAligned s1"
proof (induction ops arbitrary: s)
  case Nil
  then show ?case by simp
next
  case (Cons op ops)
  from Cons.prems(1) obtain s2 where p: "perform env op s = Some s2" and r: "performAll env ops s2 = Some s1"
    by (auto split: option.splits)
  from perform_keepsAligned[OF p] Cons.prems(2) have "cachesAligned s2" by (simp add: keepsAligned_def)
  from Cons.IH[OF r this] show ?case .
qed

text \<open>
  C10: after any sequence of resolver operations from a new resolver (module
  resolutions, directive loaders, continuations of pending loads, pipe loads, clearing
  one type, clearing everything, each returning or throwing), the directive metadata
  cache and the directive summary cache hold the same types, and so do the two pipe
  caches; so the metadata accessor succeeds for a type exactly when the summary accessor
  does.
\<close>

theorem caches_aligned_after_operations:
  assumes "performAll env ops newResolver = Some s"
  shows "dom (directiveCache s) = dom (directiveSummaryCache s) \<and>
         dom (pipeCache s) = dom (pipeSummaryCache s) \<and>
         (\<forall>t. succeeds (getDirectiveMetadata s t) = succeeds (getDirectiveSummary s t)) \<and>
         (\<forall>t. succeeds (getPipeMetadata s t) = succeeds (getPipeSummary s t))"
proof -
  have "cachesAligned newResolver" by (simp add: cachesAligned_def newResolver_def)
  from performAll_cachesAligned[OF assms this]
  have a: "dom (directiveCache s) = dom (directiveSummaryCache s)" "dom (pipeCache s) = dom (pipeSummaryCache s)"
    by (simp_all add: cachesAligned_def)
  have hd: "(directiveCache s t = None) = (directiveSummaryCache s t = None)" for t
    using a(1) by (metis domIff)
  have d: "succeeds (getDirectiveMetadata s t) = succeeds (getDirectiveSummary s t)" for t
  proof (cases "directiveCache s t")
    case None
    with hd[of t] have "directiveSummaryCache s t = None" by simp
    with None show ?thesis by (simp add: getDirectiveMetadata_def getDirectiveSummary_def)
  next
    case (Some x)
    with hd[of t] obtain y where "directiveSummaryCache s t = Some y" by auto
    with Some show ?thesis by (simp add: getDirectiveMetadata_def getDirectiveSummary_def)
  qed
  have hp: "(pipeCache s t = None) = (pipeSummaryCache s t = None)" for t
    using a(2) by (metis domIff)
  have p: "succeeds (getPipeMetadata s t) = succeeds (getPipeSummary s t)" for t
  proof (cases "pipeCache s t")
    case None
    with hp[of t] have "pipeSummaryCache s t = None" by simp
    with None show ?thesis by (simp add: getPipeMetadata_def getPipeSummary_def)
  next
    case (Some x)
    with hp[of t] obtain y where "pipeSummaryCache s t = Some y" by auto
    with Some show ?thesis by (simp add: getPipeMetadata_def getPipeSummary_def)
  qed
  from a d p show ?thesis by blast
qed

theorem caches_aligned_after_operations_witness:
  "\<exists>s. performAll exampleEnv exampleOperations newResolver = Some s \<and>
       dom (directiveCache s) = dom (directiveSummaryCache s) \<and>
       dom (pipeCache s) = dom (pipeSummaryCache s) \<and>
       (\<forall>t. succeeds (getDirectiveMetadata s t) = succeeds (getDirectiveSummary s t)) \<and>
       (\<forall>t. succeeds (getPipeMetadata s t) = succeeds (getPipeSummary s t)) \<and>
       succeeds (getDirectiveMetadata s (VType 21)) \<and> \<not> succeeds (getDirectiveMetadata s (VType 20)) \<and>
       succeeds (getPipeMetadata s (VType 10))"
proof -
  have "case performAll exampleEnv exampleOperations newResolver of
          None \<Rightarrow> False
        | Some s \<Rightarrow> succeeds (getDirectiveMetadata s (VType 21)) \<and> \<not> succeeds (getDirectiveMetadata s (VType 20))
                     \<and> succeeds (getPipeMetadata s (VType 10))"
    by code_simp
  then obtain s where r: "performAll exampleEnv exampleOperations newResolver = Some s"
    and x: "succeeds (getDirectiveMetadata s (VType 21))" "\<not> succeeds (getDirectiveMetadata s (VType 20))"
           "succeeds (getPipeMetadata s (VType 10))"
    by (auto split: option.splits)
  from caches_aligned_after_operations[OF r] r x show ?thesis by blast
qed

subsection \<open>Cache hits and deferred templates\<close>

lemma bindR_Return:
  "bindR m f = Return b s2 \<longleftrightarrow> (\<exists>a s1. m = Return a s1 \<and> f a s1 = Return b s2)"
  by (cases m) auto

lemma lift_Return: "lift x s = Return a s1 \<longleftrightarrow> x = Inr a \<and> s1 = s"
  by (cases x) auto

lemma body_Return_cached:
  assumes "loadNgModuleMetadataBody load env moduleType isSync throwIfNotFound s = Return (Some m) s1"
  shows "ngModuleCache s1 moduleType = Some m"
proof (cases "ngModuleCache s moduleType")
  case (Some c)
  with assms show ?thesis by (simp add: loadNgModuleMetadataBody_def)
next
  case None
  show ?thesis
  proof (cases "ngModuleResolver_resolve env moduleType")
    case n: None
    with assms None show ?thesis by (simp add: loadNgModuleMetadataBody_def split: if_splits)
  next
    case (Some meta)
    with assms None show ?thesis
      by (auto simp: loadNgModuleMetadataBody_def bindR_Return lift_Return)
  qed
qed

lemma private_load_Return_cached:
  assumes "private_loadNgModuleMetadata fuel env moduleType isSync throwIfNotFound s = Return (Some m) s1"
  shows "ngModuleCache s1 moduleType = Some m"
  using assms by (cases fuel) (auto dest: body_Return_cached)

lemma getNonNormalized_component:
  assumes "getNonNormalizedDirectiveMetadata env directiveType = Inr (annotation, metadata)"
  shows "directiveResolver_resolve env directiveType = Some annotation
       \<and> dm_isComponent metadata = da_isComponent annotation
       \<and> dm_template metadata = (if da_isComponent annotation then Some (da_template annotation) else None)"
  using assms unfolding getNonNormalizedDirectiveMetadata_def Let_def
  by (auto split: option.splits sum.splits prod.splits if_splits)

text \<open>
  C4: once a module, a directive or a pipe has been resolved, resolving the same type
  again returns the record that the cache holds and leaves the resolver state as it is.
  The second call may have any collaborators \<open>env2\<close> and any flags: its result does not
  depend on them, so it consults none of them. For a directive the loader returns the
  cache-hit marker and the accessor yields the cached record; the first resolution is
  either a load that stored the metadata at once or the continuation of a pending load.
  The records of the model have no identity beyond their value, so the identical record
  is the entry of the unchanged cache.
\<close>

theorem second_resolution_cached:
  "(private_loadNgModuleMetadata fuel env moduleType isSync throwIfNotFound s = Return (Some m) s1 \<longrightarrow>
      private_loadNgModuleMetadata (Suc fuel2) env2 moduleType isSync2 throwIfNotFound2 s1
        = Return (Some m) s1)
   \<and> (loadDirectiveMetadata env directiveType isSync s = Return Loaded s2 \<longrightarrow>
        (\<exists>d. getDirectiveMetadata s2 directiveType = Inr d) \<and>
        loadDirectiveMetadata env2 directiveType isSync2 s2 = Return Cached s2)
   \<and> (completeLoading (Pending promise directiveType metadata) template s = s3 \<longrightarrow>
        (\<exists>d. getDirectiveMetadata s3 directiveType = Inr d) \<and>
        loadDirectiveMetadata env2 directiveType isSync2 s3 = Return Cached s3)
   \<and> (getOrLoadPipeMetadata env pipeType s = Return p s4 \<longrightarrow>
        getOrLoadPipeMetadata env2 pipeType s4 = Return p s4)"
proof (intro conjI impI)
  assume "private_loadNgModuleMetadata fuel env moduleType isSync throwIfNotFound s = Return (Some m) s1"
  from private_load_Return_cached[OF this]
  show "private_loadNgModuleMetadata (Suc fuel2) env2 moduleType isSync2 throwIfNotFound2 s1 = Return (Some m) s1"
    by (simp add: loadNgModuleMetadataBody_def)
next
  assume a: "loadDirectiveMetadata env directiveType isSync s = Return Loaded s2"
  then have c: "directiveCache s2 directiveType \<noteq> None"
    unfolding loadDirectiveMetadata_def createDirectiveMetadata_def Let_def
    by (auto split: if_splits sum.splits option.splits template_result.splits)
  then show "\<exists>d. getDirectiveMetadata s2 directiveType = Inr d"
    by (auto simp: getDirectiveMetadata_def)
  from c show "loadDirectiveMetadata env2 directiveType isSync2 s2 = Return Cached s2"
    by (simp add: loadDirectiveMetadata_def)
next
  assume a: "completeLoading (Pending promise directiveType metadata) template s = s3"
  then have c: "directiveCache s3 directiveType \<noteq> None"
    by (auto simp: createDirectiveMetadata_def Let_def)
  then show "\<exists>d. getDirectiveMetadata s3 directiveType = Inr d"
    by (auto simp: getDirectiveMetadata_def)
  from c show "loadDirectiveMetadata env2 directiveType isSync2 s3 = Return Cached s3"
    by (simp add: loadDirectiveMetadata_def)
next
  assume a: "getOrLoadPipeMetadata env pipeType s = Return p s4"
  then have "pipeCache s4 pipeType = Some p"
    unfolding getOrLoadPipeMetadata_def loadPipeMetadata_def Let_def
    by (auto split: option.splits sum.splits)
  then show "getOrLoadPipeMetadata env2 pipeType s4 = Return p s4"
    by (simp add: getOrLoadPipeMetadata_def)
qed

theorem second_resolution_cached_witness:
  "(\<exists>m s1. private_loadNgModuleMetadata 3 exampleEnv (VType 8) False True newResolver = Return (Some m) s1 \<and>
       private_loadNgModuleMetadata (Suc 0) blindEnv (VType 8) True False s1 = Return (Some m) s1)
   \<and> (\<exists>s2. loadDirectiveMetadata exampleEnv (VType 21) True newResolver = Return Loaded s2 \<and>
        (\<exists>d. getDirectiveMetadata s2 (VType 21) = Inr d) \<and>
        loadDirectiveMetadata blindEnv (VType 21) False s2 = Return Cached s2)
   \<and> ((\<exists>d. getDirectiveMetadata (completeLoading (Pending 0 (VType 22) lateMetadata) plainTemplate newResolver)
              (VType 22) = Inr d) \<and>
        loadDirectiveMetadata blindEnv (VType 22) True
            (completeLoading (Pending 0 (VType 22) lateMetadata) plainTemplate newResolver)
          = Return Cached (completeLoading (Pending 0 (VType 22) lateMetadata) plainTemplate newResolver))
   \<and> (\<exists>p s4. getOrLoadPipeMetadata exampleEnv (VType 10) newResolver = Return p s4 \<and>
        getOrLoadPipeMetadata blindEnv (VType 10) s4 = Return p s4)"
proof -
  have "case private_loadNgModuleMetadata 3 exampleEnv (VType 8) False True newResolver of
          Return (Some m) s1 \<Rightarrow> True | _ \<Rightarrow> False"
    by code_simp
  then obtain m s1 where a: "private_loadNgModuleMetadata 3 exampleEnv (VType 8) False True newResolver = Return (Some m) s1"
    by (auto split: result.splits option.splits)
  have "case loadDirectiveMetadata exampleEnv (VType 21) True newResolver of
          Return Loaded s2 \<Rightarrow> True | _ \<Rightarrow> False"
    by code_simp
  then obtain s2 where b: "loadDirectiveMetadata exampleEnv (VType 21) True newResolver = Return Loaded s2"
    by (auto split: result.splits loading.splits)
  have "case getOrLoadPipeMetadata exampleEnv (VType 10) newResolver of
          Return p s4 \<Rightarrow> True | _ \<Rightarrow> False"
    by code_simp
  then obtain p s4 where c: "getOrLoadPipeMetadata exampleEnv (VType 10) newResolver = Return p s4"
    by (auto split: result.splits)
  show ?thesis
    using a b c
      second_resolution_cached[where fuel = 3 and env = exampleEnv and moduleType = "VType 8"
        and isSync = False and throwIfNotFound = True and s = newResolver and m = m and ?s1.0 = s1
        and ?fuel2.0 = 0 and ?env2.0 = blindEnv and ?isSync2.0 = True and ?throwIfNotFound2.0 = False
        and directiveType = "VType 22" and promise = 0 and metadata = lateMetadata
        and template = plainTemplate
        and ?s3.0 = "completeLoading (Pending 0 (VType 22) lateMetadata) plainTemplate newResolver"
        and pipeType = "VType 10" and p = p and ?s4.0 = s4]
      second_resolution_cached[where env = exampleEnv and s = newResolver and isSync = True
        and directiveType = "VType 21" and ?s2.0 = s2 and ?env2.0 = blindEnv and ?isSync2.0 = False]
    by blast
qed

text \<open>
  C7: a component that is not cached, whose annotation resolves and whose template the
  normalizer defers. In forced-synchronous mode the load throws the still-loading error
  and the state is the one before the call, so nothing is cached for the component. In
  asynchronous-tolerant mode the load returns the pending continuation; run with the
  resolved template on any later state, it stores the metadata with that template and
  its summary. That is what the synchronous path stores: with collaborators \<open>env2\<close>
  that differ only in having the template at hand, the load ends in the state the
  continuation produces.
\<close>

theorem component_still_loading:
  assumes miss: "directiveCache s directiveType = None"
      and meta: "getNonNormalizedDirectiveMetadata env directiveType = Inr (annotation, metadata)"
      and comp: "dm_isComponent metadata"
      and url: "componentModuleUrl env directiveType annotation = Inr moduleUrl"
      and deferred: "directiveNormalizer_normalizeTemplate env
                       \<lparr>pn_componentType = directiveType, pn_moduleUrl = moduleUrl,
                        pn_template = da_template annotation\<rparr> = AsyncResult promise"
  shows "loadDirectiveMetadata env directiveType True s = Throw (ComponentStillLoading directiveType) s
       \<and> loadDirectiveMetadata env directiveType False s = Return (Pending promise directiveType metadata) s
       \<and> completeLoading (Pending promise directiveType metadata) resolved s1 =
           s1\<lparr>directiveCache := (directiveCache s1)(directiveType \<mapsto> metadata\<lparr>dm_template := Some resolved\<rparr>),
              directiveSummaryCache := (directiveSummaryCache s1)
                 (directiveType \<mapsto> dir_toSummary (metadata\<lparr>dm_template := Some resolved\<rparr>))\<rparr>
       \<and> (getNonNormalizedDirectiveMetadata env2 directiveType = Inr (annotation, metadata) \<longrightarrow>
          componentModuleUrl env2 directiveType annotation = Inr moduleUrl2 \<longrightarrow>
          directiveNormalizer_normalizeTemplate env2
             \<lparr>pn_componentType = directiveType, pn_moduleUrl = moduleUrl2,
              pn_template = da_template annotation\<rparr> = SyncResult resolved \<longrightarrow>
          loadDirectiveMetadata env2 directiveType isSync s =
            Return Loaded (completeLoading (Pending promise directiveType metadata) resolved s))"
proof -
  from getNonNormalized_component[OF meta] comp
  have t: "dm_template metadata = Some (da_template annotation)" by auto
  show ?thesis
    using miss meta comp url deferred t
    by (simp add: loadDirectiveMetadata_def createDirectiveMetadata_def Let_def)
qed

theorem component_still_loading_witness:
  "loadDirectiveMetadata exampleEnv (VType 22) True newResolver
     = Throw (ComponentStillLoading (VType 22)) newResolver
   \<and> loadDirectiveMetadata exampleEnv (VType 22) False newResolver
     = Return (Pending 0 (VType 22) lateMetadata) newResolver
   \<and> directiveCache (completeLoading (Pending 0 (VType 22) lateMetadata) plainTemplate newResolver) (VType 22)
     = Some (lateMetadata\<lparr>dm_template := Some plainTemplate\<rparr>)
   \<and> loadDirectiveMetadata eagerEnv (VType 22) True newResolver
     = Return Loaded (completeLoading (Pending 0 (VType 22) lateMetadata) plainTemplate newResolver)"
proof -
  have miss: "directiveCache newResolver (VType 22) = None" by (simp add: newResolver_def)
  have meta: "getNonNormalizedDirectiveMetadata exampleEnv (VType 22) = Inr (lateAnnotation, lateMetadata)"
    by code_simp
  have meta2: "getNonNormalizedDirectiveMetadata eagerEnv (VType 22) = Inr (lateAnnotation, lateMetadata)"
    by code_simp
  have comp: "dm_isComponent lateMetadata" by (simp add: lateMetadata_def)
  have url: "componentModuleUrl exampleEnv (VType 22) lateAnnotation = Inr ''module.ts''"
    by code_simp
  have url2: "componentModuleUrl eagerEnv (VType 22) lateAnnotation = Inr ''module.ts''"
    by code_simp
  have deferred: "directiveNormalizer_normalizeTemplate exampleEnv
                       \<lparr>pn_componentType = VType 22, pn_moduleUrl = ''module.ts'',
                        pn_template = da_template lateAnnotation\<rparr> = AsyncResult 0"
    by code_simp
  have eager: "directiveNormalizer_normalizeTemplate eagerEnv
                       \<lparr>pn_componentType = VType 22, pn_moduleUrl = ''module.ts'',
                        pn_template = da_template lateAnnotation\<rparr> = SyncResult plainTemplate"
    by (simp add: eagerEnv_def)
  show ?thesis
    using component_still_loading[OF miss meta comp url deferred, of plainTemplate newResolver eagerEnv
        "''module.ts''" True] meta2 url2 eager
    by simp
qed

subsection \<open>Declarations and exports\<close>

lemma body_phases:
  assumes "ngModuleCache s moduleType = None" "ngModuleResolver_resolve env moduleType = Some meta"
    and "importsLoop load env moduleType isSync (importedTypes meta) [] [] [] s
           = Return (providers, entryComponents, importedModules) s1"
    and "exportsLoop load moduleType isSync (exportedTypes meta) [] [] s1 = Return (exportedModules, ids) s2"
    and "declarationsLoop env moduleType isSync (declaredTypes meta)
           (getTransitiveNgModuleMetadata importedModules exportedModules) [] [] s2 = Return (tm, dd, dp) s3"
  shows "loadNgModuleMetadataBody load env moduleType isSync throwIfNotFound s =
           (case finishNgModule env moduleType meta providers entryComponents importedModules
                   exportedModules ids tm dd dp of
              Inl e \<Rightarrow> Throw e s3
            | Inr compileMeta \<Rightarrow>
                Return (Some compileMeta) (s3\<lparr>ngModuleCache := (ngModuleCache s3)(moduleType \<mapsto> compileMeta)\<rparr>))"
  using assms by (simp add: loadNgModuleMetadataBody_def split: sum.splits)

lemma body_Return_miss:
  assumes "loadNgModuleMetadataBody load env moduleType isSync throwIfNotFound s = Return r s4"
      and "ngModuleCache s moduleType = None"
      and "ngModuleResolver_resolve env moduleType = Some meta"
  shows "\<exists>providers entryComponents importedModules s1 exportedModules ids s2 tm dd dp s3 m.
           importsLoop load env moduleType isSync (importedTypes meta) [] [] [] s
             = Return (providers, entryComponents, importedModules) s1 \<and>
           exportsLoop load moduleType isSync (exportedTypes meta) [] [] s1 = Return (exportedModules, ids) s2 \<and>
           declarationsLoop env moduleType isSync (declaredTypes meta)
             (getTransitiveNgModuleMetadata importedModules exportedModules) [] [] s2 = Return (tm, dd, dp) s3 \<and>
           finishNgModule env moduleType meta providers entryComponents importedModules
             exportedModules ids tm dd dp = Inr m \<and> r = Some m \<and>
           s4 = s3\<lparr>ngModuleCache := (ngModuleCache s3)(moduleType \<mapsto> m)\<rparr>"
  using assms
  by (auto simp: loadNgModuleMetadataBody_def bindR_Return lift_Return)

lemma bindR_assoc: "bindR (bindR m f) g = bindR m (\<lambda>a s. bindR (f a s) g)"
  by (cases m) auto

lemma declarationsLoop_append_fun:
  "declarationsLoop env moduleType isSync (xs @ ys) tm dd dp =
     (\<lambda>s. bindR (declarationsLoop env moduleType isSync xs tm dd dp s)
       (\<lambda>(tm1, dd1, dp1) s1. declarationsLoop env moduleType isSync ys tm1 dd1 dp1 s1))"
proof (induction xs arbitrary: tm dd dp)
  case Nil
  show ?case by (simp add: fun_eq_iff)
next
  case (Cons x xs)
  show ?case
    by (simp add: fun_eq_iff Let_def bindR_assoc Cons.IH)
qed

lemma declarationsLoop_append:
  "declarationsLoop env moduleType isSync (xs @ ys) tm dd dp s =
     bindR (declarationsLoop env moduleType isSync xs tm dd dp s)
       (\<lambda>(tm1, dd1, dp1) s1. declarationsLoop env moduleType isSync ys tm1 dd1 dp1 s1)"
  by (simp add: declarationsLoop_append_fun)

lemma steps_ReturnD: "steps R s m \<Longrightarrow> m = Return a s1 \<Longrightarrow> R s s1"
  by simp

lemma frame_private_load:
  "steps frame s (private_loadNgModuleMetadata fuel env t b1 b2 s)"
  by (rule steps_private_loadNgModuleMetadata[OF respected_frame])

lemma frame_importsLoop:
  assumes "importsLoop (private_loadNgModuleMetadata fuel env) env moduleType isSync imps ps es ms s
             = Return x s1"
  shows "frame s s1"
  by (rule steps_ReturnD[OF steps_importsLoop[OF respected_frame frame_private_load] assms])

lemma frame_exportsLoop:
  assumes "exportsLoop (private_loadNgModuleMetadata fuel env) moduleType isSync exps ms ids s
             = Return x s1"
  shows "frame s s1"
  by (rule steps_ReturnD[OF steps_exportsLoop[OF respected_frame frame_private_load] assms])

lemma frame_declarationsLoop:
  assumes "declarationsLoop env moduleType isSync decls tm dd dp s = Return x s1"
  shows "frame s s1"
  by (rule steps_ReturnD[OF steps_declarationsLoop[OF respected_frame] assms])

lemma registered_frame:
  assumes "frame s s1" "ngModuleOfTypes s type = Some oldModule" "truthy oldModule"
  shows "ngModuleOfTypes s1 type = Some oldModule"
  using assms unfolding frame_def by blast

lemma declarationsLoop_claimed:
  assumes "ngModuleOfTypes s type = Some oldModule" "truthy oldModule" "oldModule \<noteq> moduleType"
      and "isValidType type" "directiveResolver_isDirective env type \<or> pipeResolver_isPipe env type"
  shows "declarationsLoop env moduleType isSync (type # rest) tm dd dp s
           = Throw (DirectiveInTwoModules type oldModule moduleType) s"
  using assms by (auto simp: addTypeToModule_def Let_def)

lemma declarationsLoop_never_returns:
  assumes "type \<in> set decls"
      and "ngModuleOfTypes s type = Some oldModule" "truthy oldModule" "oldModule \<noteq> moduleType"
      and "isValidType type" "directiveResolver_isDirective env type \<or> pipeResolver_isPipe env type"
  shows "declarationsLoop env moduleType isSync decls tm dd dp s \<noteq> Return x s1"
proof -
  from assms(1) obtain before after where d: "decls = before @ type # after"
    by (meson split_list)
  show ?thesis
  proof
    assume r: "declarationsLoop env moduleType isSync decls tm dd dp s = Return x s1"
    then obtain y s2 where b: "declarationsLoop env moduleType isSync before tm dd dp s = Return y s2"
      and c: "(case y of (tm1, dd1, dp1) \<Rightarrow> \<lambda>s1. declarationsLoop env moduleType isSync (type # after) tm1 dd1 dp1 s1) s2
               = Return x s1"
      unfolding d declarationsLoop_append bindR_Return by blast
    from registered_frame[OF frame_declarationsLoop[OF b] assms(2,3)]
    have g: "ngModuleOfTypes s2 type = Some oldModule" .
    obtain tm1 dd1 dp1 where y: "y = (tm1, dd1, dp1)" by (cases y)
    from c show False
      unfolding y prod.case declarationsLoop_claimed[OF g assms(3-6)] by simp
  qed
qed

text \<open>
  C5: a directive or pipe type is registered with a module, and another module, not yet
  cached, has the type among its declarations. Resolving that second module never
  returns a result, whatever the fuel; and when its imports, its exports and the
  declarations before the type go through, the resolution throws the
  declared-in-two-modules error for the type and the two modules, at the state reached
  there. (An import, export or earlier declaration that fails throws first.) The
  registration is what \<^verbatim>\<open>_addTypeToModule\<close> wrote for the first module; it survives every
  step in between.
\<close>

theorem declared_in_two_modules:
  assumes reg: "ngModuleOfTypes s type = Some oldModule" "truthy oldModule" "oldModule \<noteq> moduleType"
      and kind: "isValidType type" "directiveResolver_isDirective env type \<or> pipeResolver_isPipe env type"
      and miss: "ngModuleCache s moduleType = None"
      and ann: "ngModuleResolver_resolve env moduleType = Some meta"
      and decl: "declaredTypes meta = before @ type # after"
  shows "private_loadNgModuleMetadata fuel env moduleType isSync throwIfNotFound s \<noteq> Return r s4
       \<and> (importsLoop (private_loadNgModuleMetadata fuel env) env moduleType isSync (importedTypes meta)
             [] [] [] s = Return (providers, entryComponents, importedModules) s1 \<longrightarrow>
          exportsLoop (private_loadNgModuleMetadata fuel env) moduleType isSync (exportedTypes meta)
             [] [] s1 = Return (exportedModules, ids) s2 \<longrightarrow>
          declarationsLoop env moduleType isSync before
             (getTransitiveNgModuleMetadata importedModules exportedModules) [] [] s2 = Return x s3 \<longrightarrow>
          private_loadNgModuleMetadata (Suc fuel) env moduleType isSync throwIfNotFound s
             = Throw (DirectiveInTwoModules type oldModule moduleType) s3)"
proof (intro conjI impI)
  show "private_loadNgModuleMetadata fuel env moduleType isSync throwIfNotFound s \<noteq> Return r s4"
  proof (cases fuel)
    case 0
    then show ?thesis by simp
  next
    case (Suc f)
    show ?thesis
    proof
      assume "private_loadNgModuleMetadata fuel env moduleType isSync throwIfNotFound s = Return r s4"
      then have "loadNgModuleMetadataBody (private_loadNgModuleMetadata f env) env moduleType isSync
                   throwIfNotFound s = Return r s4"
        using Suc by simp
      from body_Return_miss[OF this miss ann] obtain providers entryComponents importedModules s1
          exportedModules ids s2 tm dd dp s3
        where i: "importsLoop (private_loadNgModuleMetadata f env) env moduleType isSync (importedTypes meta)
                    [] [] [] s = Return (providers, entryComponents, importedModules) s1"
          and e: "exportsLoop (private_loadNgModuleMetadata f env) moduleType isSync (exportedTypes meta)
                    [] [] s1 = Return (exportedModules, ids) s2"
          and d: "declarationsLoop env moduleType isSync (declaredTypes meta)
                    (getTransitiveNgModuleMetadata importedModules exportedModules) [] [] s2
                    = Return (tm, dd, dp) s3"
        by blast
      from registered_frame[OF frame_importsLoop[OF i] reg(1,2)]
      have g1: "ngModuleOfTypes s1 type = Some oldModule" .
      from registered_frame[OF frame_exportsLoop[OF e] g1 reg(2)]
      have g2: "ngModuleOfTypes s2 type = Some oldModule" .
      have "type \<in> set (declaredTypes meta)" by (simp add: decl)
      from declarationsLoop_never_returns[OF this g2 reg(2,3) kind] d show False by blast
    qed
  qed
next
  assume i: "importsLoop (private_loadNgModuleMetadata fuel env) env moduleType isSync (importedTypes meta)
             [] [] [] s = Return (providers, entryComponents, importedModules) s1"
     and e: "exportsLoop (private_loadNgModuleMetadata fuel env) moduleType isSync (exportedTypes meta)
             [] [] s1 = Return (exportedModules, ids) s2"
     and b: "declarationsLoop env moduleType isSync before
             (getTransitiveNgModuleMetadata importedModules exportedModules) [] [] s2 = Return x s3"
  from registered_frame[OF frame_importsLoop[OF i] reg(1,2)]
  have g1: "ngModuleOfTypes s1 type = Some oldModule" .
  from registered_frame[OF frame_exportsLoop[OF e] g1 reg(2)]
  have g2: "ngModuleOfTypes s2 type = Some oldModule" .
  from registered_frame[OF frame_declarationsLoop[OF b] g2 reg(2)]
  have g3: "ngModuleOfTypes s3 type = Some oldModule" .
  obtain tm1 dd1 dp1 where x: "x = (tm1, dd1, dp1)" by (cases x)
  have "declarationsLoop env moduleType isSync (declaredTypes meta)
             (getTransitiveNgModuleMetadata importedModules exportedModules) [] [] s2
          = Throw (DirectiveInTwoModules type oldModule moduleType) s3"
    unfolding decl declarationsLoop_append b bindR.simps x prod.case
    by (rule declarationsLoop_claimed[OF g3 reg(2,3) kind])
  with i e miss ann
  show "private_loadNgModuleMetadata (Suc fuel) env moduleType isSync throwIfNotFound s
             = Throw (DirectiveInTwoModules type oldModule moduleType) s3"
    by (simp add: loadNgModuleMetadataBody_def)
qed

theorem declared_in_two_modules_witness:
  "\<exists>m s. private_loadNgModuleMetadata 2 exampleEnv (VType 5) True True newResolver = Return (Some m) s \<and>
     ngModuleOfTypes s (VType 20) = Some (VType 5) \<and>
     private_loadNgModuleMetadata (Suc 0) exampleEnv (VType 6) True True s
       = Throw (DirectiveInTwoModules (VType 20) (VType 5) (VType 6)) s"
proof -
  have "case private_loadNgModuleMetadata 2 exampleEnv (VType 5) True True newResolver of
          Return (Some m) s \<Rightarrow>
            ngModuleOfTypes s (VType 20) = Some (VType 5) \<and>
            (case ngModuleCache s (VType 6) of None \<Rightarrow> True | Some c \<Rightarrow> False)
        | _ \<Rightarrow> False"
    by code_simp
  then obtain m s where r: "private_loadNgModuleMetadata 2 exampleEnv (VType 5) True True newResolver = Return (Some m) s"
    and reg: "ngModuleOfTypes s (VType 20) = Some (VType 5)"
    and miss: "ngModuleCache s (VType 6) = None"
    by (auto split: result.splits option.splits)
  have ann: "ngModuleResolver_resolve exampleEnv (VType 6) = Some (emptyModule\<lparr>ng_declarations := VArr [VType 20]\<rparr>)"
    by (simp add: exampleEnv_def exampleModules_def)
  have decl: "declaredTypes (emptyModule\<lparr>ng_declarations := VArr [VType 20]\<rparr>) = [] @ VType 20 # []"
    by (simp add: declaredTypes_def flattenAndDedupeArray_def dedupeArray_def)
  have kind: "directiveResolver_isDirective exampleEnv (VType 20) \<or> pipeResolver_isPipe exampleEnv (VType 20)"
    by (simp add: exampleEnv_def)
  have i: "importsLoop (private_loadNgModuleMetadata 0 exampleEnv) exampleEnv (VType 6) True
             (importedTypes (emptyModule\<lparr>ng_declarations := VArr [VType 20]\<rparr>)) [] [] [] s = Return ([], [], []) s"
    by (simp add: importedTypes_def emptyModule_def)
  have e: "exportsLoop (private_loadNgModuleMetadata 0 exampleEnv) (VType 6) True
             (exportedTypes (emptyModule\<lparr>ng_declarations := VArr [VType 20]\<rparr>)) [] [] s = Return ([], []) s"
    by (simp add: exportedTypes_def emptyModule_def)
  have b: "declarationsLoop exampleEnv (VType 6) True [] (getTransitiveNgModuleMetadata [] []) [] [] s
             = Return (getTransitiveNgModuleMetadata [] [], [], []) s"
    by simp
  from declared_in_two_modules[OF reg _ _ _ kind miss ann decl, where fuel = 0 and isSync = True
      and throwIfNotFound = True and providers = "[]" and entryComponents = "[]" and importedModules = "[]"
      and ?s1.0 = s and exportedModules = "[]" and ids = "[]" and ?s2.0 = s
      and x = "(getTransitiveNgModuleMetadata [] [], [], [])" and ?s3.0 = s] i e b
  have "private_loadNgModuleMetadata (Suc 0) exampleEnv (VType 6) True True s
       = Throw (DirectiveInTwoModules (VType 20) (VType 5) (VType 6)) s"
    by simp
  with r reg show ?thesis by blast
qed

lemma classifyExports_undeclared:
  assumes "\<forall>x\<in>set good. reference x \<in> tr_directivesSet tm \<or> reference x \<in> tr_pipesSet tm"
      and "reference bad \<notin> tr_directivesSet tm" "reference bad \<notin> tr_pipesSet tm"
  shows "classifyExports env moduleType tm (good @ bad # rest)
           = Inl (UndeclaredExport (getTypeDescriptor env (reference bad)) (reference bad) moduleType)"
  using assms by (induction good) auto

lemma classifyExports_Inr:
  assumes "classifyExports env moduleType tm ids = Inr (eds, eps)"
  shows "eds = filter (\<lambda>x. reference x \<in> tr_directivesSet tm) ids
       \<and> eps = filter (\<lambda>x. reference x \<notin> tr_directivesSet tm \<and> reference x \<in> tr_pipesSet tm) ids
       \<and> (\<forall>x\<in>set ids. reference x \<in> tr_directivesSet tm \<or> reference x \<in> tr_pipesSet tm)"
  using assms
  by (induction ids arbitrary: eds eps) (auto split: if_splits sum.splits)

lemma finishNgModule_exports:
  assumes "finishNgModule env moduleType meta providers entryComponents importedModules exportedModules
             ids tm dd dp = Inr m"
  shows "classifyExports env moduleType tm ids = Inr (nm_exportedDirectives m, nm_exportedPipes m)"
  using assms unfolding finishNgModule_def Let_def
  by (auto split: sum.splits prod.splits)

lemma respected_staysUncached:
  assumes "ngModuleResolver_resolve env X = None"
  shows "respected env (staysUncached X)"
  unfolding respected_def
proof (intro conjI allI impI)
  show "staysUncached X s s" for s by (simp add: staysUncached_def)
  show "staysUncached X s1 s3" if "staysUncached X s1 s2" "staysUncached X s2 s3" for s1 s2 s3
    using that unfolding staysUncached_def by auto
  show "steps (staysUncached X) s (addTypeToModule t m s)" for t m s
    by (auto simp: addTypeToModule_def staysUncached_def split: option.splits)
  show "steps (staysUncached X) s (loadPipeMetadata env t s)" for t s
    by (auto simp: loadPipeMetadata_def staysUncached_def Let_def split: option.splits sum.splits)
  show "staysUncached X s (s1\<lparr>ngModuleCache := (ngModuleCache s1)(t \<mapsto> m)\<rparr>)"
    if "staysUncached X s s1" "ngModuleCache s t = None" "ngModuleResolver_resolve env t \<noteq> None" for s s1 t m
    using that assms unfolding staysUncached_def by auto
qed

lemma exportsLoop_grows:
  assumes "exportsLoop load moduleType isSync exps ems ids s = Return (ems1, ids1) s1"
  shows "set ids \<subseteq> set ids1 \<and> reference ` set ids1 \<subseteq> reference ` set ids \<union> set exps"
  using assms
proof (induction exps arbitrary: ems ids s)
  case Nil
  then show ?case by simp
next
  case (Cons e exps)
  from Cons.prems obtain r s2 where
    n: "(case r of
           Some summary \<Rightarrow> exportsLoop load moduleType isSync exps (ems @ [summary]) ids s2
         | None \<Rightarrow> exportsLoop load moduleType isSync exps ems (ids @ [getIdentifierMetadata e]) s2)
        = Return (ems1, ids1) s1"
    by (auto simp: bindR_Return split: if_splits)
  show ?case
  proof (cases r)
    case None
    with n Cons.IH[of ems "ids @ [getIdentifierMetadata e]" s2] show ?thesis
      by (auto simp: getIdentifierMetadata_def)
  next
    case (Some summary)
    with n Cons.IH[of "ems @ [summary]" ids s2] show ?thesis by auto
  qed
qed

lemma loadNgModuleSummary_nonmodule:
  assumes "loadNgModuleSummary (private_loadNgModuleMetadata fuel env) X isSync s = Return r s1"
      and "ngModuleResolver_resolve env X = None" "ngModuleCache s X = None"
  shows "r = None \<and> s1 = s"
  using assms
  by (cases fuel) (auto simp: loadNgModuleSummary_def loadNgModuleMetadataBody_def bindR_Return)

lemma exportsLoop_nonmodule:
  assumes "exportsLoop (private_loadNgModuleMetadata fuel env) moduleType isSync exps ems ids s
             = Return (ems1, ids1) s1"
      and "X \<in> set exps" "ngModuleResolver_resolve env X = None" "ngModuleCache s X = None"
  shows "CompileIdentifier X \<in> set ids1"
  using assms(1,2,4)
proof (induction exps arbitrary: ems ids s)
  case Nil
  then show ?case by simp
next
  case (Cons e exps)
  from Cons.prems(1) obtain r s2 where
    l: "loadNgModuleSummary (private_loadNgModuleMetadata fuel env) e isSync s = Return r s2" and
    n: "(case r of
           Some summary \<Rightarrow>
             exportsLoop (private_loadNgModuleMetadata fuel env) moduleType isSync exps (ems @ [summary]) ids s2
         | None \<Rightarrow>
             exportsLoop (private_loadNgModuleMetadata fuel env) moduleType isSync exps ems
               (ids @ [getIdentifierMetadata e]) s2)
        = Return (ems1, ids1) s1"
    by (auto simp: bindR_Return split: if_splits)
  show ?case
  proof (cases "e = X")
    case True
    from loadNgModuleSummary_nonmodule[OF l[unfolded True] assms(3) Cons.prems(3)]
    have "r = None" by simp
    with n True exportsLoop_grows[of "private_loadNgModuleMetadata fuel env" moduleType isSync exps ems
        "ids @ [getIdentifierMetadata X]" s2 ems1 ids1 s1]
    show ?thesis by (auto simp: getIdentifierMetadata_def)
  next
    case False
    with Cons.prems(2) have x: "X \<in> set exps" by simp
    have "steps (staysUncached X) s (loadNgModuleSummary (private_loadNgModuleMetadata fuel env) e isSync s)"
      by (rule steps_loadNgModuleSummary[OF respected_staysUncached[OF assms(3)]
            steps_private_loadNgModuleMetadata[OF respected_staysUncached[OF assms(3)]]])
    with l Cons.prems(3) have u: "ngModuleCache s2 X = None" by (simp add: staysUncached_def)
    show ?thesis
    proof (cases r)
      case None
      with n show ?thesis using Cons.IH[OF _ x u] by simp
    next
      case (Some summary)
      with n show ?thesis using Cons.IH[OF _ x u] by simp
    qed
  qed
qed

lemma importsLoop_staysUncached:
  assumes "importsLoop (private_loadNgModuleMetadata fuel env) env moduleType isSync imps ps es ms s
             = Return x s1"
      and "ngModuleResolver_resolve env X = None" "ngModuleCache s X = None"
  shows "ngModuleCache s1 X = None"
proof -
  have "steps (staysUncached X) s
          (importsLoop (private_loadNgModuleMetadata fuel env) env moduleType isSync imps ps es ms s)"
    by (rule steps_importsLoop[OF respected_staysUncached[OF assms(2)]
          steps_private_loadNgModuleMetadata[OF respected_staysUncached[OF assms(2)]]])
  with assms(1,3) show ?thesis by (simp add: staysUncached_def)
qed

lemma classifyExports_first_undeclared:
  assumes "\<exists>x\<in>set ids. reference x \<notin> tr_directivesSet tm \<and> reference x \<notin> tr_pipesSet tm"
  shows "\<exists>good bad rest. ids = good @ bad # rest \<and>
           (\<forall>x\<in>set good. reference x \<in> tr_directivesSet tm \<or> reference x \<in> tr_pipesSet tm) \<and>
           reference bad \<notin> tr_directivesSet tm \<and> reference bad \<notin> tr_pipesSet tm"
proof -
  from split_list_first_prop[OF assms] obtain good bad rest where
    "ids = good @ bad # rest"
    "reference bad \<notin> tr_directivesSet tm \<and> reference bad \<notin> tr_pipesSet tm"
    "\<forall>x\<in>set good. \<not> (reference x \<notin> tr_directivesSet tm \<and> reference x \<notin> tr_pipesSet tm)"
    by blast
  then show ?thesis by blast
qed

text \<open>
  C6: when the three loops of a resolution have gone through, they leave the exported
  identifiers that are no modules and the transitive directive and pipe sets. Every
  exported type without a module annotation and without a cache entry is among these
  identifiers, and they all come from the exports list. If one of them is in neither
  set, the resolution throws the undeclared-export error naming the first such type,
  with the state the loops reached and no cache entry for the module. If the resolution
  returns, every identifier is in one of the sets; those in the directive set are the
  exported directives, and those in the pipe set (and not in the directive set, which is
  tested first) are the exported pipes.
\<close>

theorem undeclared_export:
  assumes miss: "ngModuleCache s moduleType = None"
      and ann: "ngModuleResolver_resolve env moduleType = Some meta"
      and i: "importsLoop (private_loadNgModuleMetadata fuel env) env moduleType isSync (importedTypes meta)
                [] [] [] s = Return (providers, entryComponents, importedModules) s1"
      and e: "exportsLoop (private_loadNgModuleMetadata fuel env) moduleType isSync (exportedTypes meta)
                [] [] s1 = Return (exportedModules, ids) s2"
      and d: "declarationsLoop env moduleType isSync (declaredTypes meta)
                (getTransitiveNgModuleMetadata importedModules exportedModules) [] [] s2
                = Return (tm, dd, dp) s3"
  shows "(X \<in> set (exportedTypes meta) \<longrightarrow> ngModuleResolver_resolve env X = None \<longrightarrow>
          ngModuleCache s X = None \<longrightarrow> CompileIdentifier X \<in> set ids)
       \<and> reference ` set ids \<subseteq> set (exportedTypes meta)
       \<and> ((\<exists>x\<in>set ids. reference x \<notin> tr_directivesSet tm \<and> reference x \<notin> tr_pipesSet tm) \<longrightarrow>
          (\<exists>good bad rest. ids = good @ bad # rest \<and>
             (\<forall>x\<in>set good. reference x \<in> tr_directivesSet tm \<or> reference x \<in> tr_pipesSet tm) \<and>
             reference bad \<notin> tr_directivesSet tm \<and> reference bad \<notin> tr_pipesSet tm \<and>
             private_loadNgModuleMetadata (Suc fuel) env moduleType isSync throwIfNotFound s
               = Throw (UndeclaredExport (getTypeDescriptor env (reference bad)) (reference bad) moduleType)
                   s3))
       \<and> (private_loadNgModuleMetadata (Suc fuel) env moduleType isSync throwIfNotFound s = Return (Some m) s4 \<longrightarrow>
          nm_exportedDirectives m = filter (\<lambda>x. reference x \<in> tr_directivesSet tm) ids \<and>
          nm_exportedPipes m
            = filter (\<lambda>x. reference x \<notin> tr_directivesSet tm \<and> reference x \<in> tr_pipesSet tm) ids \<and>
          (\<forall>x\<in>set ids. reference x \<in> tr_directivesSet tm \<or> reference x \<in> tr_pipesSet tm))"
proof -
  have p1: "CompileIdentifier X \<in> set ids"
    if "X \<in> set (exportedTypes meta)" "ngModuleResolver_resolve env X = None" "ngModuleCache s X = None"
    using exportsLoop_nonmodule[OF e that(1,2) importsLoop_staysUncached[OF i that(2,3)]] .
  have p2: "reference ` set ids \<subseteq> set (exportedTypes meta)"
    using exportsLoop_grows[OF e] by simp
  have p3: "\<exists>good bad rest. ids = good @ bad # rest \<and>
             (\<forall>x\<in>set good. reference x \<in> tr_directivesSet tm \<or> reference x \<in> tr_pipesSet tm) \<and>
             reference bad \<notin> tr_directivesSet tm \<and> reference bad \<notin> tr_pipesSet tm \<and>
             private_loadNgModuleMetadata (Suc fuel) env moduleType isSync throwIfNotFound s
               = Throw (UndeclaredExport (getTypeDescriptor env (reference bad)) (reference bad) moduleType)
                   s3"
    if "\<exists>x\<in>set ids. reference x \<notin> tr_directivesSet tm \<and> reference x \<notin> tr_pipesSet tm"
  proof -
    from classifyExports_first_undeclared[OF that] obtain good bad rest where
      g: "ids = good @ bad # rest"
         "\<forall>x\<in>set good. reference x \<in> tr_directivesSet tm \<or> reference x \<in> tr_pipesSet tm"
         "reference bad \<notin> tr_directivesSet tm" "reference bad \<notin> tr_pipesSet tm"
      by blast
    then have "finishNgModule env moduleType meta providers entryComponents importedModules exportedModules
                 ids tm dd dp
             = Inl (UndeclaredExport (getTypeDescriptor env (reference bad)) (reference bad) moduleType)"
      by (simp add: finishNgModule_def classifyExports_undeclared)
    then have "private_loadNgModuleMetadata (Suc fuel) env moduleType isSync throwIfNotFound s
            = Throw (UndeclaredExport (getTypeDescriptor env (reference bad)) (reference bad) moduleType) s3"
      by (simp add: body_phases[OF miss ann i e d])
    with g show ?thesis by blast
  qed
  have p4: "nm_exportedDirectives m = filter (\<lambda>x. reference x \<in> tr_directivesSet tm) ids \<and>
          nm_exportedPipes m
            = filter (\<lambda>x. reference x \<notin> tr_directivesSet tm \<and> reference x \<in> tr_pipesSet tm) ids \<and>
          (\<forall>x\<in>set ids. reference x \<in> tr_directivesSet tm \<or> reference x \<in> tr_pipesSet tm)"
    if r: "private_loadNgModuleMetadata (Suc fuel) env moduleType isSync throwIfNotFound s = Return (Some m) s4"
  proof -
    from r have "finishNgModule env moduleType meta providers entryComponents importedModules exportedModules
                 ids tm dd dp = Inr m"
      by (simp add: body_phases[OF miss ann i e d] split: sum.splits)
    from classifyExports_Inr[OF finishNgModule_exports[OF this]] show ?thesis by blast
  qed
  from p1 p2 p3 p4 show ?thesis by blast
qed

theorem undeclared_export_witness:
  "private_loadNgModuleMetadata (Suc 1) exampleEnv (VType 7) True True newResolver
     = Throw (UndeclaredExport DDirective (VType 21) (VType 7)) newResolver
   \<and> (\<exists>m s4. private_loadNgModuleMetadata (Suc 1) exampleEnv (VType 5) True True newResolver = Return (Some m) s4 \<and>
        nm_exportedDirectives m = [CompileIdentifier (VType 20)] \<and>
        nm_exportedPipes m = [CompileIdentifier (VType 10)])"
proof -
  have ann: "ngModuleResolver_resolve exampleEnv (VType 7) = Some (emptyModule\<lparr>ng_exports := VArr [VType 21]\<rparr>)"
    by (simp add: exampleEnv_def exampleModules_def)
  have miss: "ngModuleCache newResolver (VType 7) = None" by (simp add: newResolver_def)
  have i: "importsLoop (private_loadNgModuleMetadata 1 exampleEnv) exampleEnv (VType 7) True
             (importedTypes (emptyModule\<lparr>ng_exports := VArr [VType 21]\<rparr>)) [] [] [] newResolver
           = Return ([], [], []) newResolver"
    by (simp add: importedTypes_def emptyModule_def)
  have n: "ngModuleResolver_resolve exampleEnv (VType 21) = None"
    by (simp add: exampleEnv_def exampleModules_def)
  have e: "exportsLoop (private_loadNgModuleMetadata 1 exampleEnv) (VType 7) True
             (exportedTypes (emptyModule\<lparr>ng_exports := VArr [VType 21]\<rparr>)) [] [] newResolver
           = Return ([], [CompileIdentifier (VType 21)]) newResolver"
    using n
    by (simp add: exportedTypes_def emptyModule_def flattenAndDedupeArray_def dedupeArray_def
        loadNgModuleSummary_def loadNgModuleMetadataBody_def newResolver_def getIdentifierMetadata_def)
  have d: "declarationsLoop exampleEnv (VType 7) True
             (declaredTypes (emptyModule\<lparr>ng_exports := VArr [VType 21]\<rparr>))
             (getTransitiveNgModuleMetadata [] []) [] [] newResolver
           = Return (getTransitiveNgModuleMetadata [] [], [], []) newResolver"
    by (simp add: declaredTypes_def emptyModule_def)
  have t: "tr_directivesSet (getTransitiveNgModuleMetadata [] []) = {}"
          "tr_pipesSet (getTransitiveNgModuleMetadata [] []) = {}"
    by (simp_all add: getTransitiveNgModuleMetadata_def TransitiveCompileNgModuleMetadata_def)
  have g: "getTypeDescriptor exampleEnv (VType 21) = DDirective"
    by (simp add: getTypeDescriptor_def exampleEnv_def)
  have first: "private_loadNgModuleMetadata (Suc 1) exampleEnv (VType 7) True True newResolver
     = Throw (UndeclaredExport DDirective (VType 21) (VType 7)) newResolver"
    using undeclared_export[OF miss ann i e d, where throwIfNotFound = True] t g
    by (auto simp: Cons_eq_append_conv)
  define meta5 where "meta5 = emptyModule\<lparr>ng_declarations := VArr [VType 20, VType 10],
                                          ng_exports := VArr [VType 20, VType 10]\<rparr>"
  have ann5: "ngModuleResolver_resolve exampleEnv (VType 5) = Some meta5"
    by (simp add: exampleEnv_def exampleModules_def meta5_def)
  have miss5: "ngModuleCache newResolver (VType 5) = None" by (simp add: newResolver_def)
  have i5: "importsLoop (private_loadNgModuleMetadata 1 exampleEnv) exampleEnv (VType 5) True
             (importedTypes meta5) [] [] [] newResolver = Return ([], [], []) newResolver"
    by (simp add: importedTypes_def emptyModule_def meta5_def)
  have n5: "ngModuleResolver_resolve exampleEnv (VType 20) = None"
           "ngModuleResolver_resolve exampleEnv (VType 10) = None"
    by (simp_all add: exampleEnv_def exampleModules_def)
  have e5: "exportsLoop (private_loadNgModuleMetadata 1 exampleEnv) (VType 5) True
             (exportedTypes meta5) [] [] newResolver
           = Return ([], [CompileIdentifier (VType 20), CompileIdentifier (VType 10)]) newResolver"
    using n5
    by (simp add: exportedTypes_def emptyModule_def flattenAndDedupeArray_def dedupeArray_def meta5_def
        loadNgModuleSummary_def loadNgModuleMetadataBody_def newResolver_def getIdentifierMetadata_def)
  have "case declarationsLoop exampleEnv (VType 5) True
             (declaredTypes (emptyModule\<lparr>ng_declarations := VArr [VType 20, VType 10],
                                          ng_exports := VArr [VType 20, VType 10]\<rparr>))
             (getTransitiveNgModuleMetadata [] []) [] [] newResolver of
          Return (tm, dd, dp) s3 \<Rightarrow> tr_directivesSet tm = {VType 20} \<and> tr_pipesSet tm = {VType 10}
        | _ \<Rightarrow> False"
    by code_simp
  then obtain tm dd dp s3 where
    d5: "declarationsLoop exampleEnv (VType 5) True (declaredTypes meta5)
           (getTransitiveNgModuleMetadata [] []) [] [] newResolver = Return (tm, dd, dp) s3"
    and t5: "tr_directivesSet tm = {VType 20}" "tr_pipesSet tm = {VType 10}"
    unfolding meta5_def by (auto split: result.splits)
  have "case private_loadNgModuleMetadata (Suc 1) exampleEnv (VType 5) True True newResolver of
          Return (Some m) s4 \<Rightarrow> True | _ \<Rightarrow> False"
    by code_simp
  then obtain m s4 where
    r5: "private_loadNgModuleMetadata (Suc 1) exampleEnv (VType 5) True True newResolver = Return (Some m) s4"
    by (auto split: result.splits option.splits)
  from undeclared_export[OF miss5 ann5 i5 e5 d5, where throwIfNotFound = True and m = m and ?s4.0 = s4] r5 t5
  have "nm_exportedDirectives m = [CompileIdentifier (VType 20)] \<and>
        nm_exportedPipes m = [CompileIdentifier (VType 10)]"
    by simp
  with first r5 show ?thesis by blast
qed

subsection \<open>The order of the transitive providers\<close>

lemma subModules_unfold: "subModules m = m # concat (map subModules (nestedModules m))"
  by (cases m) (simp add: nestedModules_def)

lemma subModules_self: "m \<in> set (subModules m)"
  by (subst subModules_unfold) simp

lemma nested_size: "c \<in> set (nestedModules m) \<Longrightarrow> size c < size m"
  by (cases m) (auto simp: nestedModules_def dest: size_list_estimation'[where f = size and y = "size c", OF _ order_refl])

lemma subModules_size: "x \<in> set (subModules m) \<Longrightarrow> size x \<le> size m"
proof (induction m arbitrary: x rule: measure_induct_rule[where f = size])
  case (less m)
  from less.prems have "x = m \<or> (\<exists>c\<in>set (nestedModules m). x \<in> set (subModules c))"
    by (subst (asm) subModules_unfold) auto
  then show ?case
  proof
    assume "x = m" then show ?thesis by simp
  next
    assume "\<exists>c\<in>set (nestedModules m). x \<in> set (subModules c)"
    then obtain c where c: "c \<in> set (nestedModules m)" "x \<in> set (subModules c)" by blast
    from less.IH[OF nested_size[OF c(1)] c(2)] nested_size[OF c(1)] show ?thesis by simp
  qed
qed

lemma below_ne: "x \<in> set (concat (map subModules (nestedModules m))) \<Longrightarrow> x \<noteq> m"
proof
  assume a: "x \<in> set (concat (map subModules (nestedModules m)))" and e: "x = m"
  from a obtain c where c: "c \<in> set (nestedModules m)" "x \<in> set (subModules c)" by auto
  from subModules_size[OF c(2)] nested_size[OF c(1)] e show False by simp
qed

lemma subModules_closed:
  "x \<in> set (subModules m) \<Longrightarrow> c \<in> set (nestedModules x) \<Longrightarrow> c \<in> set (subModules m)"
proof (induction m rule: measure_induct_rule[where f = size])
  case (less m)
  from less.prems(1) have "x = m \<or> (\<exists>d\<in>set (nestedModules m). x \<in> set (subModules d))"
    by (subst (asm) subModules_unfold) auto
  then show ?case
  proof
    assume "x = m"
    with less.prems(2) have "c \<in> set (nestedModules m)" by simp
    then show ?thesis using subModules_self[of c] by (subst subModules_unfold) auto
  next
    assume "\<exists>d\<in>set (nestedModules m). x \<in> set (subModules d)"
    then obtain d where d: "d \<in> set (nestedModules m)" "x \<in> set (subModules d)" by blast
    from less.IH[OF nested_size[OF d(1)] d(2) less.prems(2)] d(1)
    show ?thesis by (subst subModules_unfold) auto
  qed
qed

lemma childrenFirst_append:
  "childrenFirst V (xs @ ys) = (childrenFirst V xs \<and> childrenFirst (V \<union> moduleReference ` set xs) ys)"
  by (induction xs arbitrary: V) (auto simp: insert_commute Un_insert_left)

lemma childrenFirst_drop:
  assumes "childrenFirst (insert r V) xs"
      and "\<forall>m\<in>set xs. \<forall>c\<in>set (nestedModules m). moduleReference c \<noteq> r"
  shows "childrenFirst V xs"
  using assms by (induction xs arbitrary: V) (auto simp: insert_commute)

lemma transitive_children_first:
  assumes "set (concat (map subModules ms)) \<subseteq> U"
      and "\<forall>x\<in>U. \<forall>y\<in>U. moduleReference x = moduleReference y \<longrightarrow> x = y"
  shows "\<exists>new. getTransitiveImportedModules ms target visited
                 = (target @ new, visited \<union> moduleReference ` set new) \<and>
               moduleReference ` set ms \<subseteq> visited \<union> moduleReference ` set new \<and>
               set new \<subseteq> set (concat (map subModules ms)) \<and>
               childrenFirst visited new"
  using assms(1)
proof (induction ms target visited rule: getTransitiveImportedModules.induct)
  case (1 target visited)
  show ?case by simp
next
  case (2 t ec ps ims exs eds eps dls rest target visited)
  let ?M = "ModuleSummary t ec ps ims exs eds eps dls"
  have r: "moduleReference ?M = tm_reference t" by (simp add: moduleReference_def)
  have n: "nestedModules ?M = ims @ exs" by (simp add: nestedModules_def)
  from "2.prems" have subM: "set (subModules ?M) \<subseteq> U" and subR: "set (concat (map subModules rest)) \<subseteq> U"
    by auto
  have subN: "set (concat (map subModules (ims @ exs))) \<subseteq> U"
    using subM by (subst (asm) subModules_unfold) (auto simp: n)
  show ?case
  proof (cases "tm_reference t \<in> visited")
    case True
    from "2.IH"(1)[OF True subR] obtain new where
      g: "getTransitiveImportedModules rest target visited = (target @ new, visited \<union> moduleReference ` set new)"
      and c: "moduleReference ` set rest \<subseteq> visited \<union> moduleReference ` set new"
      and d: "set new \<subseteq> set (concat (map subModules rest))"
      and e: "childrenFirst visited new"
      by blast
    show ?thesis
      apply (rule exI[of _ new])
      using True g c d e r by auto
  next
    case False
    from "2.IH"(2)[OF False refl subN] obtain new1 where
      g1: "getTransitiveImportedModules (ims @ exs) target (insert (tm_reference t) visited)
             = (target @ new1, insert (tm_reference t) visited \<union> moduleReference ` set new1)"
      and c1: "moduleReference ` set (ims @ exs) \<subseteq> insert (tm_reference t) visited \<union> moduleReference ` set new1"
      and d1: "set new1 \<subseteq> set (concat (map subModules (ims @ exs)))"
      and e1: "childrenFirst (insert (tm_reference t) visited) new1"
      by blast
    from "2.IH"(3)[OF False refl g1[symmetric] subR] obtain new2 where
      g2: "getTransitiveImportedModules rest ((target @ new1) @ [ModuleSummary t ec ps ims exs eds eps dls])
             (insert (tm_reference t) visited \<union> moduleReference ` set new1)
             = (((target @ new1) @ [ModuleSummary t ec ps ims exs eds eps dls]) @ new2,
                (insert (tm_reference t) visited \<union> moduleReference ` set new1) \<union> moduleReference ` set new2)"
      and c2: "moduleReference ` set rest \<subseteq>
                 (insert (tm_reference t) visited \<union> moduleReference ` set new1) \<union> moduleReference ` set new2"
      and d2: "set new2 \<subseteq> set (concat (map subModules rest))"
      and e2: "childrenFirst (insert (tm_reference t) visited \<union> moduleReference ` set new1) new2"
      by blast
    have inU: "?M \<in> U" using subM subModules_self by blast
    have noM: "moduleReference c \<noteq> tm_reference t" if "c \<in> set (concat (map subModules (ims @ exs)))" for c
    proof
      assume q: "moduleReference c = tm_reference t"
      from that subN have "c \<in> U" by blast
      with q r inU assms(2) have "c = ?M" by metis
      with below_ne[of c ?M] that n show False by simp
    qed
    have closed: "c \<in> set (concat (map subModules (ims @ exs)))"
      if "m \<in> set (concat (map subModules (ims @ exs)))" "c \<in> set (nestedModules m)" for m c
      using that subModules_closed by fastforce
    have e1': "childrenFirst visited new1"
    proof (rule childrenFirst_drop[OF e1], intro ballI)
      fix m c assume "m \<in> set new1" "c \<in> set (nestedModules m)"
      with d1 closed have "c \<in> set (concat (map subModules (ims @ exs)))" by blast
      from noM[OF this] show "moduleReference c \<noteq> tm_reference t" .
    qed
    have eM: "\<forall>c\<in>set (nestedModules ?M). moduleReference c \<in> visited \<union> moduleReference ` set new1"
    proof
      fix c assume c: "c \<in> set (nestedModules ?M)"
      then have "c \<in> set (concat (map subModules (ims @ exs)))"
        using subModules_self[of c] n by auto
      from noM[OF this] have "moduleReference c \<noteq> tm_reference t" .
      moreover from c c1 n have "moduleReference c \<in> insert (tm_reference t) visited \<union> moduleReference ` set new1"
        by auto
      ultimately show "moduleReference c \<in> visited \<union> moduleReference ` set new1" by auto
    qed
    have v: "insert (moduleReference ?M) (visited \<union> moduleReference ` set new1)
               = insert (tm_reference t) visited \<union> moduleReference ` set new1"
      by (auto simp: r)
    have e: "childrenFirst visited (new1 @ ?M # new2)"
      using e1' eM e2 by (simp add: childrenFirst_append v)
    have d: "set (new1 @ ?M # new2) \<subseteq> set (concat (map subModules (?M # rest)))"
      using d1 d2 by auto
    show ?thesis
      apply (rule exI[of _ "new1 @ ?M # new2"])
      using False g1 g2 c2 d e r
      by (auto simp: Let_def)
  qed
qed

lemma transitive_child_before_parent:
  assumes one: "oneSummaryPerModule roots"
      and b: "sB \<in> set roots" and c: "sC \<in> set (nestedModules sB)"
  shows "\<exists>pre mid post. fst (getTransitiveImportedModules roots [] {}) = pre @ sC # mid @ sB # post"
proof -
  define U where "U = set (concat (map subModules roots))"
  from one have cons: "\<forall>x\<in>U. \<forall>y\<in>U. moduleReference x = moduleReference y \<longrightarrow> x = y"
    by (simp add: oneSummaryPerModule_def U_def)
  from transitive_children_first[OF _ cons, of roots "[]" "{}"] obtain new where
    g: "getTransitiveImportedModules roots [] {} = (new, moduleReference ` set new)"
    and r: "moduleReference ` set roots \<subseteq> moduleReference ` set new"
    and d: "set new \<subseteq> U" and e: "childrenFirst {} new"
    by (auto simp: U_def)
  have bU: "sB \<in> U" using b subModules_self[of sB] by (auto simp: U_def)
  have cU: "sC \<in> U" using b c subModules_closed[OF subModules_self[of sB] c] by (auto simp: U_def)
  from r b obtain p where p: "p \<in> set new" "moduleReference p = moduleReference sB" by auto
  with d bU cons have "p = sB" by blast
  with p have "sB \<in> set new" by simp
  then obtain xs post where n: "new = xs @ sB # post" by (meson split_list)
  from e have "\<forall>c\<in>set (nestedModules sB). moduleReference c \<in> moduleReference ` set xs"
    unfolding n by (simp add: childrenFirst_append)
  with c obtain q where q: "q \<in> set xs" "moduleReference q = moduleReference sC" by auto
  from q(1) d have "q \<in> U" unfolding n by auto
  with q(2) cU cons have "q = sC" by blast
  with q(1) obtain pre mid where "xs = pre @ sC # mid" by (meson split_list)
  with n g show ?thesis by auto
qed

lemma flattenProviders_append: "flattenProviders (xs @ ys) = flattenProviders xs @ flattenProviders ys"
  by (induction xs rule: flattenProviders.induct) auto

lemma flattenProviders_idem: "flattenProviders (flattenProviders xs) = flattenProviders xs"
  by (induction xs rule: flattenProviders.induct) (auto simp: flattenProviders_append)

lemma declarationsLoop_transitive:
  assumes "declarationsLoop env moduleType isSync decls tm dd dp s = Return (tm1, dd1, dp1) s1"
  shows "tr_providers tm1 = tr_providers tm \<and> tr_modules tm1 = tr_modules tm
       \<and> tr_entryComponents tm1 = tr_entryComponents tm"
  using assms
proof (induction decls arbitrary: tm dd dp s)
  case Nil
  then show ?case by simp
next
  case (Cons d decls)
  from Cons.prems show ?case
    by (auto simp: Let_def bindR_Return split: if_splits dest!: Cons.IH)
qed

lemma finishNgModule_shape:
  assumes "finishNgModule env moduleType meta providers entryComponents importedModules exportedModules
             ids tm dd dp = Inr m"
  shows "nm_importedModules m = importedModules \<and> nm_exportedModules m = exportedModules
       \<and> tr_providers (nm_transitiveModule m) = tr_providers tm @ nm_providers m"
  using assms unfolding finishNgModule_def Let_def
  by (auto split: sum.splits prod.splits)

lemma effectiveProvider_append:
  assumes "\<exists>p\<in>set (flattenProviders own). providerToken p = Some tok"
  shows "effectiveProvider tok (inherited @ own) = effectiveProvider tok own"
proof -
  from assms have ne: "filter (\<lambda>p. providerToken p = Some tok) (flattenProviders own) \<noteq> []"
    by (simp add: filter_empty_conv)
  then obtain p ps where o: "filter (\<lambda>p. providerToken p = Some tok) (flattenProviders own) = p # ps"
    by (cases "filter (\<lambda>p. providerToken p = Some tok) (flattenProviders own)") auto
  have "last (filter (\<lambda>p. providerToken p = Some tok) (flattenProviders inherited) @ p # ps) = last (p # ps)"
    by simp
  then show ?thesis
    by (cases "filter (\<lambda>p. providerToken p = Some tok) (flattenProviders inherited)")
       (simp_all add: effectiveProvider_def flattenProviders_append o)
qed

subsection \<open>The module cache over a module graph without cycles\<close>

lemma quietD:
  assumes "quiet env R"
  shows "R s s" and "R s1 s2 \<Longrightarrow> R s2 s3 \<Longrightarrow> R s1 s3"
    and "steps R s (addTypeToModule t m s)" and "steps R s (loadPipeMetadata env t s)"
  using assms unfolding quiet_def by blast+

lemma quiet_loadNgModuleSummary:
  assumes "quiet env R" and "\<And>b1 b2 s. steps R s (load t b1 b2 s)"
  shows "steps R s (loadNgModuleSummary load t isSync s)"
  unfolding loadNgModuleSummary_def
  by (rule steps_bindR) (use assms quietD(1,2)[OF assms(1)] in auto)

lemma quiet_importsLoop:
  assumes r: "quiet env R" and l: "\<And>t b1 b2 s. t \<in> T \<Longrightarrow> steps R s (load t b1 b2 s)"
      and t: "\<forall>i\<in>set imps. set (importTargets i) \<subseteq> T"
  shows "steps R s (importsLoop load env moduleType isSync imps providers entryComponents importedModules s)"
  using t
proof (induction imps arbitrary: providers entryComponents importedModules s)
  case Nil
  show ?case using quietD(1)[OF r] by simp
next
  case (Cons importedType rest)
  note tr = quietD(2)[OF r]
  note rf = quietD(1)[OF r]
  from Cons.prems have here: "set (importTargets importedType) \<subseteq> T"
    and later: "\<forall>i\<in>set rest. set (importTargets i) \<subseteq> T" by auto
  show ?case
    unfolding importsLoop.simps
  proof (rule steps_bindR[OF _ _ tr], goal_cases)
    case 1
    show ?case using rf by (auto simp: Let_def split: sum.splits)
  next
    case (2 a s1)
    obtain imt p1 e1 where a: "a = (imt, p1, e1)" by (cases a)
    show ?case
    proof (cases "truthy imt")
      case True
      with 2 here have "imt \<in> T"
        by (auto simp: a importTargets_def Let_def split: if_splits sum.splits)
      note l1 = l[OF this]
      have "steps R s1 (bindR (loadNgModuleSummary load imt isSync s1)
              (\<lambda>importedModuleSummary s2.
                 case importedModuleSummary of
                   None \<Rightarrow> Throw (InvalidImport (getTypeDescriptor env importedType) importedType moduleType) s2
                 | Some summary \<Rightarrow> importsLoop load env moduleType isSync rest p1 e1 (importedModules @ [summary]) s2))"
      proof (rule steps_bindR[OF _ _ tr], goal_cases)
        case 1
        show ?case by (rule quiet_loadNgModuleSummary[OF r]) (rule l1)
      next
        case (2 b s2)
        show ?case using rf Cons.IH[OF later] by (cases b) auto
      qed
      with True show ?thesis by (simp add: a)
    next
      case False
      then show ?thesis using rf by (simp add: a)
    qed
  qed
qed

lemma quiet_exportsLoop:
  assumes r: "quiet env R" and l: "\<And>t b1 b2 s. t \<in> T \<Longrightarrow> steps R s (load t b1 b2 s)"
      and t: "set (filter isValidType exps) \<subseteq> T"
  shows "steps R s (exportsLoop load moduleType isSync exps exportedModules ids s)"
  using t
proof (induction exps arbitrary: exportedModules ids s)
  case Nil
  show ?case using quietD(1)[OF r] by simp
next
  case (Cons exportedType rest)
  note tr = quietD(2)[OF r]
  note rf = quietD(1)[OF r]
  show ?case
  proof (cases "isValidType exportedType")
    case False
    then show ?thesis using rf by simp
  next
    case True
    with Cons.prems have here: "exportedType \<in> T" and later: "set (filter isValidType rest) \<subseteq> T" by auto
    note l1 = l[OF here]
    have "steps R s (bindR (loadNgModuleSummary load exportedType isSync s)
          (\<lambda>exportedModuleSummary s1.
             case exportedModuleSummary of
               Some summary \<Rightarrow> exportsLoop load moduleType isSync rest (exportedModules @ [summary]) ids s1
             | None \<Rightarrow> exportsLoop load moduleType isSync rest exportedModules
                   (ids @ [getIdentifierMetadata exportedType]) s1))"
    proof (rule steps_bindR[OF _ _ tr], goal_cases)
      case 1
      show ?case by (rule quiet_loadNgModuleSummary[OF r]) (rule l1)
    next
      case (2 b s2)
      show ?case using Cons.IH[OF later] by (cases b) auto
    qed
    with True show ?thesis by simp
  qed
qed

lemma quiet_declarationsLoop:
  assumes r: "quiet env R"
  shows "steps R s (declarationsLoop env moduleType isSync decls transitiveModule dds dps s)"
proof (induction decls arbitrary: transitiveModule dds dps s)
  case Nil
  show ?case using quietD(1)[OF r] by simp
next
  case (Cons declaredType rest)
  note tr = quietD(2)[OF r]
  note rf = quietD(1)[OF r]
  note a = quietD(3)[OF r]
  note p = quietD(4)[OF r]
  show ?case
    unfolding declarationsLoop.simps Let_def
    apply (intro steps_bindR[OF a _ tr] steps_bindR[OF p _ tr] Cons.IH | simp only: if_split | intro conjI impI | simp add: rf)+
    done
qed

lemma consistent_cong: "ngModuleCache s1 = ngModuleCache s \<Longrightarrow> consistent s1 = consistent s"
  by (simp add: consistent_def cachedSummary_def)

lemma writesBelow_same: "ngModuleCache s1 = ngModuleCache s \<Longrightarrow> writesBelow rank n s s1"
  using consistent_cong[of s1 s] by (simp add: writesBelow_def)

lemma writesBelow_trans:
  "writesBelow rank n s1 s2 \<Longrightarrow> writesBelow rank n s2 s3 \<Longrightarrow> writesBelow rank n s1 s3"
  unfolding writesBelow_def by (auto elim: map_le_trans)

lemma writesBelow_mono: "writesBelow rank n s s1 \<Longrightarrow> n \<le> k \<Longrightarrow> writesBelow rank k s s1"
  unfolding writesBelow_def by auto

lemma quiet_writesBelow: "quiet env (writesBelow rank n)"
  unfolding quiet_def
proof (intro conjI allI impI)
  show "writesBelow rank n s s" for s by (simp add: writesBelow_same)
  show "writesBelow rank n s1 s3" if "writesBelow rank n s1 s2" "writesBelow rank n s2 s3" for s1 s2 s3
    using that by (rule writesBelow_trans)
  show "steps (writesBelow rank n) s (addTypeToModule t m s)" for t m s
    by (auto simp: addTypeToModule_def writesBelow_same split: option.splits)
  show "steps (writesBelow rank n) s (loadPipeMetadata env t s)" for t s
    by (auto simp: loadPipeMetadata_def writesBelow_same Let_def split: option.splits sum.splits)
qed

lemma steps_mono:
  assumes "steps R s r" and "\<And>s1. R s s1 \<Longrightarrow> Q s s1"
  shows "steps Q s r"
  using assms by (cases r) auto

lemma cachedSummary_mono:
  "cachedSummary s x \<Longrightarrow> ngModuleCache s \<subseteq>\<^sub>m ngModuleCache s1 \<Longrightarrow> cachedSummary s1 x"
  unfolding cachedSummary_def map_le_def
  by (cases "ngModuleCache s (moduleReference x)") (auto simp: dom_def)

lemma cachedSummary_toSummary:
  "consistent s \<Longrightarrow> ngModuleCache s t = Some m \<Longrightarrow> cachedSummary s (toSummary m)"
  by (auto simp: consistent_def cachedSummary_def moduleReference_def toSummary_def)

lemma cachedSummary_store:
  "cachedSummary s x \<Longrightarrow> ngModuleCache s t = None \<Longrightarrow>
   cachedSummary (s\<lparr>ngModuleCache := (ngModuleCache s)(t \<mapsto> m)\<rparr>) x"
  unfolding cachedSummary_def by (auto split: option.splits)

lemma cachedSummary_below:
  assumes c: "consistent s" and r: "cachedSummary s root" and x: "x \<in> set (subModules root)"
  shows "cachedSummary s x"
proof -
  from r obtain m where m: "ngModuleCache s (moduleReference root) = Some m" "toSummary m = root"
    by (auto simp: cachedSummary_def split: option.splits)
  from m(2) have n: "nestedModules root = nm_importedModules m @ nm_exportedModules m"
    by (auto simp: nestedModules_def toSummary_def)
  from x have "x = root \<or> x \<in> set (concat (map subModules (nestedModules root)))"
    by (subst (asm) subModules_unfold) auto
  then show ?thesis
  proof
    assume "x = root" with r show ?thesis by simp
  next
    assume "x \<in> set (concat (map subModules (nestedModules root)))"
    with c m(1) show ?thesis unfolding n consistent_def by blast
  qed
qed

lemma loadNgModuleSummary_Return:
  "loadNgModuleSummary load t isSync s = Return r s1 \<longleftrightarrow>
     (case r of
        None \<Rightarrow> load t isSync False s = Return None s1
      | Some y \<Rightarrow> (\<exists>m. load t isSync False s = Return (Some m) s1 \<and> y = toSummary m))"
  by (cases r) (auto simp: loadNgModuleSummary_def bindR_Return)

lemma importsLoop_Cons_Return:
  assumes "importsLoop load env moduleType isSync (i # rest) ps es ims s = Return r s1"
  shows "\<exists>imt p1 e1 m s2. imt \<in> set (importTargets i) \<and> load imt isSync False s = Return (Some m) s2 \<and>
           importsLoop load env moduleType isSync rest p1 e1 (ims @ [toSummary m]) s2 = Return r s1"
  using assms
  by (auto simp: bindR_Return loadNgModuleSummary_Return importTargets_def Let_def
           split: if_splits sum.splits option.splits prod.splits) blast+

lemma exportsLoop_Cons_Return:
  assumes "exportsLoop load moduleType isSync (e # rest) exs ids s = Return r s1"
  shows "isValidType e \<and>
         (\<exists>mo s2. load e isSync False s = Return mo s2 \<and>
            (case mo of
               Some m \<Rightarrow> exportsLoop load moduleType isSync rest (exs @ [toSummary m]) ids s2 = Return r s1
             | None \<Rightarrow> exportsLoop load moduleType isSync rest exs (ids @ [getIdentifierMetadata e]) s2
                         = Return r s1))"
  using assms
  by (auto simp: bindR_Return loadNgModuleSummary_Return split: if_splits option.splits)

lemma cached_importsLoop:
  assumes l1: "\<And>t b1 b2 s. t \<in> T \<Longrightarrow> steps (writesBelow rank n) s (load t b1 b2 s)"
      and l2: "\<And>t b1 b2 s m s1. load t b1 b2 s = Return (Some m) s1 \<Longrightarrow> ngModuleCache s1 t = Some m"
      and t: "\<forall>i\<in>set imps. set (importTargets i) \<subseteq> T"
      and c: "consistent s" and acc: "\<forall>x\<in>set importedModules. cachedSummary s x"
      and run: "importsLoop load env moduleType isSync imps providers entryComponents importedModules s
                  = Return (ps, es, mods) s1"
  shows "\<forall>x\<in>set mods. cachedSummary s1 x"
  using t c acc run
proof (induction imps arbitrary: providers entryComponents importedModules s)
  case Nil
  then show ?case by simp
next
  case (Cons i rest)
  from importsLoop_Cons_Return[OF Cons.prems(4)] obtain imt p1 e1 m s2 where
    imt: "imt \<in> set (importTargets i)" and ld: "load imt isSync False s = Return (Some m) s2"
    and r: "importsLoop load env moduleType isSync rest p1 e1 (importedModules @ [toSummary m]) s2
              = Return (ps, es, mods) s1"
    by blast
  from imt Cons.prems(1) have "imt \<in> T" by auto
  from steps_ReturnD[OF l1[OF this] ld] have w: "writesBelow rank n s s2" .
  with Cons.prems(2) have c2: "consistent s2" and g: "ngModuleCache s \<subseteq>\<^sub>m ngModuleCache s2"
    by (auto simp: writesBelow_def)
  from cachedSummary_toSummary[OF c2 l2[OF ld]] Cons.prems(3) g
  have acc2: "\<forall>x\<in>set (importedModules @ [toSummary m]). cachedSummary s2 x"
    by (auto elim: cachedSummary_mono)
  from Cons.prems(1) have "\<forall>i\<in>set rest. set (importTargets i) \<subseteq> T" by simp
  from Cons.IH[OF this c2 acc2 r] show ?case .
qed

lemma cached_exportsLoop:
  assumes l1: "\<And>t b1 b2 s. t \<in> T \<Longrightarrow> steps (writesBelow rank n) s (load t b1 b2 s)"
      and l2: "\<And>t b1 b2 s m s1. load t b1 b2 s = Return (Some m) s1 \<Longrightarrow> ngModuleCache s1 t = Some m"
      and t: "set (filter isValidType exps) \<subseteq> T"
      and c: "consistent s" and acc: "\<forall>x\<in>set exportedModules. cachedSummary s x"
      and run: "exportsLoop load moduleType isSync exps exportedModules ids s = Return (mods, ids1) s1"
  shows "\<forall>x\<in>set mods. cachedSummary s1 x"
  using t c acc run
proof (induction exps arbitrary: exportedModules ids s)
  case Nil
  then show ?case by simp
next
  case (Cons e rest)
  from exportsLoop_Cons_Return[OF Cons.prems(4)] obtain mo s2 where
    v: "isValidType e" and ld: "load e isSync False s = Return mo s2"
    and r: "case mo of
               Some m \<Rightarrow> exportsLoop load moduleType isSync rest (exportedModules @ [toSummary m]) ids s2
                          = Return (mods, ids1) s1
             | None \<Rightarrow> exportsLoop load moduleType isSync rest exportedModules
                          (ids @ [getIdentifierMetadata e]) s2 = Return (mods, ids1) s1"
    by blast
  from v Cons.prems(1) have "e \<in> T" and later: "set (filter isValidType rest) \<subseteq> T" by auto
  from steps_ReturnD[OF l1[OF this(1)] ld] have w: "writesBelow rank n s s2" .
  with Cons.prems(2) have c2: "consistent s2" and g: "ngModuleCache s \<subseteq>\<^sub>m ngModuleCache s2"
    by (auto simp: writesBelow_def)
  from Cons.prems(3) g have acc1: "\<forall>x\<in>set exportedModules. cachedSummary s2 x"
    by (auto elim: cachedSummary_mono)
  show ?case
  proof (cases mo)
    case None
    with r have "exportsLoop load moduleType isSync rest exportedModules
                   (ids @ [getIdentifierMetadata e]) s2 = Return (mods, ids1) s1" by simp
    from Cons.IH[OF later c2 acc1 this] show ?thesis .
  next
    case (Some m)
    with r have r1: "exportsLoop load moduleType isSync rest (exportedModules @ [toSummary m]) ids s2
                   = Return (mods, ids1) s1" by simp
    from ld Some have "load e isSync False s = Return (Some m) s2" by simp
    from cachedSummary_toSummary[OF c2 l2[OF this]] acc1
    have "\<forall>x\<in>set (exportedModules @ [toSummary m]). cachedSummary s2 x" by auto
    from Cons.IH[OF later c2 this r1] show ?thesis .
  qed
qed

lemma finishNgModule_type:
  assumes "finishNgModule env moduleType meta providers entryComponents importedModules exportedModules
             ids tm dd dp = Inr m"
  shows "tm_reference (nm_type m) = moduleType"
  using assms unfolding finishNgModule_def Let_def getTypeMetadata_def
  by (auto split: sum.splits prod.splits)

lemma writesBelow_store:
  assumes w: "writesBelow rank (rank t) s s3" and miss: "ngModuleCache s t = None"
      and ref: "tm_reference (nm_type m) = t" and shape: "transitiveShape m"
      and roots: "consistent s \<Longrightarrow> \<forall>x\<in>set (nm_importedModules m @ nm_exportedModules m). cachedSummary s3 x"
  shows "writesBelow rank (Suc (rank t)) s (s3\<lparr>ngModuleCache := (ngModuleCache s3)(t \<mapsto> m)\<rparr>)"
proof -
  let ?s = "s3\<lparr>ngModuleCache := (ngModuleCache s3)(t \<mapsto> m)\<rparr>"
  from w miss have miss3: "ngModuleCache s3 t = None" by (simp add: writesBelow_def)
  from w have g: "ngModuleCache s \<subseteq>\<^sub>m ngModuleCache s3" by (simp add: writesBelow_def)
  have g1: "ngModuleCache s \<subseteq>\<^sub>m ngModuleCache ?s"
    using g miss by (auto simp: map_le_def)
  have r1: "\<forall>x. Suc (rank t) \<le> rank x \<longrightarrow> ngModuleCache ?s x = ngModuleCache s x"
    using w by (auto simp: writesBelow_def)
  have c1: "consistent ?s" if c: "consistent s"
  proof -
    from w c have c3: "consistent s3" by (simp add: writesBelow_def)
    have lift: "cachedSummary ?s x" if "cachedSummary s3 x" for x
      by (rule cachedSummary_store[OF that miss3])
    have new: "cachedSummary ?s x"
      if "x \<in> set (concat (map subModules (nm_importedModules m @ nm_exportedModules m)))" for x
    proof -
      from that obtain root where root: "root \<in> set (nm_importedModules m @ nm_exportedModules m)"
        and x: "x \<in> set (subModules root)" by auto
      from roots[OF c] root have "cachedSummary s3 root" by blast
      from lift[OF cachedSummary_below[OF c3 this x]] show ?thesis .
    qed
    show ?thesis
      unfolding consistent_def
    proof (intro allI impI)
      fix t' m' assume a: "ngModuleCache ?s t' = Some m'"
      show "tm_reference (nm_type m') = t' \<and> transitiveShape m' \<and>
            (\<forall>x\<in>set (concat (map subModules (nm_importedModules m' @ nm_exportedModules m'))).
               cachedSummary ?s x)"
      proof (cases "t' = t")
        case True
        with a have "m' = m" by simp
        with True ref shape new show ?thesis by blast
      next
        case False
        with a have "ngModuleCache s3 t' = Some m'" by simp
        with c3 have "tm_reference (nm_type m') = t' \<and> transitiveShape m' \<and>
            (\<forall>x\<in>set (concat (map subModules (nm_importedModules m' @ nm_exportedModules m'))).
               cachedSummary s3 x)"
          unfolding consistent_def by blast
        with lift show ?thesis by blast
      qed
    qed
  qed
  from g1 r1 c1 show ?thesis unfolding writesBelow_def by blast
qed

lemma finishNgModule_transitiveShape:
  assumes d: "declarationsLoop env moduleType isSync decls
                (getTransitiveNgModuleMetadata importedModules exportedModules) [] [] s2
                = Return (tm, dd, dp) s3"
      and f: "finishNgModule env moduleType meta providers entryComponents importedModules
                exportedModules ids tm dd dp = Inr m"
  shows "transitiveShape m"
proof -
  from declarationsLoop_transitive[OF d]
  have "tr_providers tm = tr_providers (getTransitiveNgModuleMetadata importedModules exportedModules)"
    by simp
  with finishNgModule_shape[OF f] show ?thesis
    by (simp add: transitiveShape_def getTransitiveNgModuleMetadata_def
                  TransitiveCompileNgModuleMetadata_def Let_def)
qed

lemma writesBelow_body:
  assumes lay: "layered env rank"
      and l1: "\<And>u b1 b2 s. steps (writesBelow rank (Suc (rank u))) s (load u b1 b2 s)"
      and l2: "\<And>u b1 b2 s m s1. load u b1 b2 s = Return (Some m) s1 \<Longrightarrow> ngModuleCache s1 u = Some m"
  shows "case loadNgModuleMetadataBody load env t isSync throwIfNotFound s of
           OutOfFuel \<Rightarrow> True
         | Throw e s1 \<Rightarrow> writesBelow rank (rank t) s s1
         | Return r s1 \<Rightarrow> writesBelow rank (Suc (rank t)) s s1"
proof (cases "ngModuleCache s t")
  case (Some m)
  then show ?thesis by (simp add: loadNgModuleMetadataBody_def writesBelow_same)
next
  case None
  show ?thesis
  proof (cases "ngModuleResolver_resolve env t")
    case n: None
    then show ?thesis using None by (simp add: loadNgModuleMetadataBody_def writesBelow_same)
  next
    case (Some meta)
    let ?T = "{u. rank u < rank t}"
    let ?R = "writesBelow rank (rank t)"
    have up: "writesBelow rank (Suc (rank t)) a b" if "?R a b" for a b
      using that by (rule writesBelow_mono) simp
    have l: "steps ?R s (load u b1 b2 s)" if "u \<in> ?T" for u b1 b2 s
      by (rule steps_mono[OF l1]) (use that in \<open>auto elim: writesBelow_mono\<close>)
    from lay Some have "set (moduleTargets meta) \<subseteq> ?T" by (auto simp: layered_def)
    then have ti: "\<forall>i\<in>set (importedTypes meta). set (importTargets i) \<subseteq> ?T"
      and te: "set (filter isValidType (exportedTypes meta)) \<subseteq> ?T"
      by (auto simp: moduleTargets_def)
    note q = quiet_writesBelow[of env rank "rank t"]
    have i: "steps ?R s (importsLoop load env t isSync (importedTypes meta) [] [] [] s)"
      by (rule quiet_importsLoop[OF q l ti])
    show ?thesis
    proof (cases "importsLoop load env t isSync (importedTypes meta) [] [] [] s")
      case OutOfFuel
      then show ?thesis by (simp add: loadNgModuleMetadataBody_def None Some)
    next
      case (Throw e s1)
      with i show ?thesis by (simp add: loadNgModuleMetadataBody_def None Some)
    next
      case (Return a s1)
      obtain ps es ims where a: "a = (ps, es, ims)" by (cases a)
      note ri = Return[unfolded a]
      from i ri have w1: "?R s s1" by simp
      have e: "steps ?R s1 (exportsLoop load t isSync (exportedTypes meta) [] [] s1)"
        by (rule quiet_exportsLoop[OF q l te])
      show ?thesis
      proof (cases "exportsLoop load t isSync (exportedTypes meta) [] [] s1")
        case OutOfFuel
        then show ?thesis by (simp add: loadNgModuleMetadataBody_def None Some ri)
      next
        case (Throw e2 s2)
        with e have "?R s1 s2" by simp
        from writesBelow_trans[OF w1 this] Throw show ?thesis
          by (simp add: loadNgModuleMetadataBody_def None Some ri)
      next
        case re0: (Return b s2)
        obtain exs ids where b: "b = (exs, ids)" by (cases b)
        note re = re0[unfolded b]
        from e re have "?R s1 s2" by simp
        from writesBelow_trans[OF w1 this] have w2: "?R s s2" .
        have d: "steps ?R s2 (declarationsLoop env t isSync (declaredTypes meta)
                    (getTransitiveNgModuleMetadata ims exs) [] [] s2)"
          by (rule quiet_declarationsLoop[OF q])
        show ?thesis
        proof (cases "declarationsLoop env t isSync (declaredTypes meta)
                    (getTransitiveNgModuleMetadata ims exs) [] [] s2")
          case OutOfFuel
          then show ?thesis by (simp add: loadNgModuleMetadataBody_def None Some ri re)
        next
          case (Throw e3 s3)
          with d have "?R s2 s3" by simp
          from writesBelow_trans[OF w2 this] Throw show ?thesis
            by (simp add: loadNgModuleMetadataBody_def None Some ri re)
        next
          case rd0: (Return c s3)
          obtain tm dd dp where c: "c = (tm, dd, dp)" by (cases c) auto
          note rd = rd0[unfolded c]
          from d rd have w23: "?R s2 s3" by simp
          from writesBelow_trans[OF w2 this] have w3: "?R s s3" .
          note ph = body_phases[OF None Some ri re rd, where throwIfNotFound = throwIfNotFound]
          show ?thesis
          proof (cases "finishNgModule env t meta ps es ims exs ids tm dd dp")
            case (Inl err)
            with ph w3 show ?thesis by simp
          next
            case (Inr m)
            have roots: "\<forall>x\<in>set (nm_importedModules m @ nm_exportedModules m). cachedSummary s3 x"
              if cs: "consistent s"
            proof -
              from w1 cs have c1: "consistent s1" by (simp add: writesBelow_def)
              from cached_importsLoop[OF l l2 ti cs _ ri]
              have "\<forall>x\<in>set ims. cachedSummary s1 x" by simp
              moreover from w23 \<open>?R s1 s2\<close> have g: "ngModuleCache s1 \<subseteq>\<^sub>m ngModuleCache s3"
                by (auto simp: writesBelow_def elim: map_le_trans)
              ultimately have a1: "\<forall>x\<in>set ims. cachedSummary s3 x"
                by (auto elim: cachedSummary_mono)
              from cached_exportsLoop[OF l l2 te c1 _ re]
              have "\<forall>x\<in>set exs. cachedSummary s2 x" by simp
              moreover from w23 have "ngModuleCache s2 \<subseteq>\<^sub>m ngModuleCache s3"
                by (simp add: writesBelow_def)
              ultimately have a2: "\<forall>x\<in>set exs. cachedSummary s3 x"
                by (auto elim: cachedSummary_mono)
              from a1 a2 finishNgModule_shape[OF Inr] show ?thesis by auto
            qed
            from writesBelow_store[OF w3 None finishNgModule_type[OF Inr]
                   finishNgModule_transitiveShape[OF rd Inr] roots]
            show ?thesis using ph Inr by simp
          qed
        qed
      qed
    qed
  qed
qed

lemma writesBelow_private_load:
  assumes lay: "layered env rank"
  shows "steps (writesBelow rank (Suc (rank t))) s (private_loadNgModuleMetadata fuel env t b1 b2 s)"
proof (induction fuel arbitrary: t b1 b2 s)
  case 0
  show ?case by simp
next
  case (Suc fuel)
  have "case loadNgModuleMetadataBody (private_loadNgModuleMetadata fuel env) env t b1 b2 s of
           OutOfFuel \<Rightarrow> True
         | Throw e s1 \<Rightarrow> writesBelow rank (rank t) s s1
         | Return r s1 \<Rightarrow> writesBelow rank (Suc (rank t)) s s1"
    by (rule writesBelow_body[OF lay Suc.IH]) (rule private_load_Return_cached)
  then show ?case
    unfolding private_loadNgModuleMetadata.simps
    by (cases "loadNgModuleMetadataBody (private_loadNgModuleMetadata fuel env) env t b1 b2 s")
       (auto elim: writesBelow_mono)
qed

lemma private_load_Throw_uncached:
  assumes lay: "layered env rank"
      and run: "private_loadNgModuleMetadata fuel env t b1 b2 s = Throw e s1"
  shows "ngModuleCache s1 t = None"
proof (cases fuel)
  case 0
  with run show ?thesis by simp
next
  case (Suc f)
  with run have b: "loadNgModuleMetadataBody (private_loadNgModuleMetadata f env) env t b1 b2 s = Throw e s1"
    by simp
  then have miss: "ngModuleCache s t = None"
    by (cases "ngModuleCache s t") (auto simp: loadNgModuleMetadataBody_def)
  have "case loadNgModuleMetadataBody (private_loadNgModuleMetadata f env) env t b1 b2 s of
           OutOfFuel \<Rightarrow> True
         | Throw e s1 \<Rightarrow> writesBelow rank (rank t) s s1
         | Return r s1 \<Rightarrow> writesBelow rank (Suc (rank t)) s s1"
    by (rule writesBelow_body[OF lay writesBelow_private_load[OF lay]])
       (rule private_load_Return_cached)
  with b
  have "writesBelow rank (rank t) s s1" by simp
  with miss show ?thesis by (simp add: writesBelow_def)
qed

lemma layered_example: "layered exampleEnv exampleRank"
  unfolding layered_def
  by (auto simp: exampleEnv_def exampleModules_def moduleTargets_def importTargets_def
        importedTypes_def exportedTypes_def flattenAndDedupeArray_def dedupeArray_def
        emptyModule_def exampleRank_def split: if_splits)

lemma bindR_Throw:
  "bindR m f = Throw e s1 \<longleftrightarrow> m = Throw e s1 \<or> (\<exists>a s'. m = Return a s' \<and> f a s' = Throw e s1)"
  by (cases m) auto

lemma bindR_if: "bindR (if c then a else b) f = (if c then bindR a f else bindR b f)"
  by simp

lemma bindR_case_option:
  "bindR (case x of None \<Rightarrow> a | Some y \<Rightarrow> b y) f = (case x of None \<Rightarrow> bindR a f | Some y \<Rightarrow> bindR (b y) f)"
  by (cases x) auto

lemma bindR_case_prod:
  "bindR (case p of (a, b) \<Rightarrow> g a b) f = (case p of (a, b) \<Rightarrow> bindR (g a b) f)"
  by (cases p) auto

lemma importsLoop_append_fun:
  "importsLoop load env moduleType isSync (xs @ ys) ps es ims =
     (\<lambda>s. bindR (importsLoop load env moduleType isSync xs ps es ims s)
       (\<lambda>(ps1, es1, ims1) s1. importsLoop load env moduleType isSync ys ps1 es1 ims1 s1))"
proof (induction xs arbitrary: ps es ims)
  case Nil
  show ?case by (simp add: fun_eq_iff)
next
  case (Cons x xs)
  show ?case
    apply (rule ext)
    apply (simp only: append_Cons importsLoop.simps bindR_assoc Cons.IH)
    apply (rule arg_cong[where f = "bindR _"])
    apply (rule ext, rule ext)
    apply (auto simp: bindR_assoc bindR_case_option split: prod.splits option.splits
           intro!: arg_cong[where f = "bindR _"] ext)
    done
qed

lemma importsLoop_append:
  "importsLoop load env moduleType isSync (xs @ ys) ps es ims s =
     bindR (importsLoop load env moduleType isSync xs ps es ims s)
       (\<lambda>(ps1, es1, ims1) s1. importsLoop load env moduleType isSync ys ps1 es1 ims1 s1)"
  by (simp add: importsLoop_append_fun)

lemma exportsLoop_append_fun:
  "exportsLoop load moduleType isSync (xs @ ys) ems ids =
     (\<lambda>s. bindR (exportsLoop load moduleType isSync xs ems ids s)
       (\<lambda>(ems1, ids1) s1. exportsLoop load moduleType isSync ys ems1 ids1 s1))"
proof (induction xs arbitrary: ems ids)
  case Nil
  show ?case by (simp add: fun_eq_iff)
next
  case (Cons x xs)
  show ?case
    apply (rule ext)
    apply (simp only: append_Cons exportsLoop.simps bindR_assoc Cons.IH)
    apply (auto simp: bindR_assoc bindR_case_option split: prod.splits option.splits
           intro!: arg_cong[where f = "bindR _"] ext)
    done
qed

lemma exportsLoop_append:
  "exportsLoop load moduleType isSync (xs @ ys) ems ids s =
     bindR (exportsLoop load moduleType isSync xs ems ids s)
       (\<lambda>(ems1, ids1) s1. exportsLoop load moduleType isSync ys ems1 ids1 s1)"
  by (simp add: exportsLoop_append_fun)

lemma importTargets_one:
  "v \<in> set (importTargets i) \<Longrightarrow> w \<in> set (importTargets i) \<Longrightarrow> v = w"
  by (simp add: importTargets_def split: if_splits)

lemma frame_modules: "frame s s1 \<Longrightarrow> ngModuleCache s v \<noteq> None \<Longrightarrow> ngModuleCache s1 v \<noteq> None"
  unfolding frame_def map_le_def by (auto simp: dom_def)

lemma frame_trans: "frame s1 s2 \<Longrightarrow> frame s2 s3 \<Longrightarrow> frame s1 s3"
  by (rule respectedD(2)[OF respected_frame])

lemma importsStored_frame: "importsStored s seen \<Longrightarrow> frame s s1 \<Longrightarrow> importsStored s1 seen"
  unfolding importsStored_def using frame_modules[of s s1] by auto

lemma exportsStored_frame: "exportsStored env s seen \<Longrightarrow> frame s s1 \<Longrightarrow> exportsStored env s1 seen"
  unfolding exportsStored_def using frame_modules[of s s1] by auto

lemma importsLoop_stored:
  assumes "importsLoop (private_loadNgModuleMetadata fuel env) env moduleType isSync imps ps es ims s
             = Return x s1"
  shows "importsStored s1 imps"
  using assms
proof (induction imps arbitrary: ps es ims s)
  case Nil
  show ?case by (simp add: importsStored_def)
next
  case (Cons i rest)
  from importsLoop_Cons_Return[OF Cons.prems] obtain imt p1 e1 m s2 where
    imt: "imt \<in> set (importTargets i)"
    and ld: "private_loadNgModuleMetadata fuel env imt isSync False s = Return (Some m) s2"
    and r: "importsLoop (private_loadNgModuleMetadata fuel env) env moduleType isSync rest p1 e1
              (ims @ [toSummary m]) s2 = Return x s1"
    by blast
  from private_load_Return_cached[OF ld] have "ngModuleCache s2 imt \<noteq> None" by simp
  from frame_modules[OF frame_importsLoop[OF r] this] have c: "ngModuleCache s1 imt \<noteq> None" .
  have "\<forall>v\<in>set (importTargets i). ngModuleCache s1 v \<noteq> None"
    using c importTargets_one[OF imt] by blast
  with Cons.IH[OF r] show ?case by (simp add: importsStored_def)
qed

lemma private_load_annotated_cached:
  assumes "private_loadNgModuleMetadata fuel env v b1 b2 s = Return r s1"
      and "ngModuleResolver_resolve env v \<noteq> None"
  shows "ngModuleCache s1 v \<noteq> None"
proof (cases fuel)
  case 0
  with assms show ?thesis by simp
next
  case (Suc f)
  with assms(1) have b: "loadNgModuleMetadataBody (private_loadNgModuleMetadata f env) env v b1 b2 s
                           = Return r s1" by simp
  show ?thesis
  proof (cases "ngModuleCache s v")
    case (Some m)
    with b have "s1 = s" by (simp add: loadNgModuleMetadataBody_def)
    with Some show ?thesis by simp
  next
    case None
    from assms(2) obtain meta where "ngModuleResolver_resolve env v = Some meta" by blast
    from body_Return_miss[OF b None this] show ?thesis by auto
  qed
qed

lemma exportsLoop_stored:
  assumes "exportsLoop (private_loadNgModuleMetadata fuel env) moduleType isSync exps ems ids s
             = Return x s1"
  shows "exportsStored env s1 exps"
  using assms
proof (induction exps arbitrary: ems ids s)
  case Nil
  show ?case by (simp add: exportsStored_def)
next
  case (Cons e rest)
  from exportsLoop_Cons_Return[OF Cons.prems] obtain mo s2 where
    ld: "private_loadNgModuleMetadata fuel env e isSync False s = Return mo s2"
    and r: "case mo of
               Some m \<Rightarrow> exportsLoop (private_loadNgModuleMetadata fuel env) moduleType isSync rest
                           (ems @ [toSummary m]) ids s2 = Return x s1
             | None \<Rightarrow> exportsLoop (private_loadNgModuleMetadata fuel env) moduleType isSync rest ems
                          (ids @ [getIdentifierMetadata e]) s2 = Return x s1"
    by blast
  from r obtain ems1 ids1 where
    r1: "exportsLoop (private_loadNgModuleMetadata fuel env) moduleType isSync rest ems1 ids1 s2
           = Return x s1"
    by (cases mo) auto
  have "ngModuleCache s1 e \<noteq> None" if "ngModuleResolver_resolve env e \<noteq> None"
    by (rule frame_modules[OF frame_exportsLoop[OF r1] private_load_annotated_cached[OF ld that]])
  with Cons.IH[OF r1] show ?case by (simp add: exportsStored_def)
qed

lemma ownKept_refl: "ownKept moduleType s s"
  by (simp add: ownKept_def)

lemma ownKept_trans: "ownKept moduleType s1 s2 \<Longrightarrow> ownKept moduleType s2 s3 \<Longrightarrow> ownKept moduleType s1 s3"
  unfolding ownKept_def by blast

lemma ownKept_addTypeToModule: "steps (ownKept moduleType) s (addTypeToModule t moduleType s)"
  by (auto simp: addTypeToModule_def ownKept_def split: option.splits)

lemma ownKept_loadPipeMetadata: "steps (ownKept moduleType) s (loadPipeMetadata env t s)"
  by (auto simp: loadPipeMetadata_def ownKept_def Let_def split: option.splits sum.splits)

lemma ownKept_declarationsLoop:
  "steps (ownKept moduleType) s (declarationsLoop env moduleType isSync decls transitiveModule dds dps s)"
proof (induction decls arbitrary: transitiveModule dds dps s)
  case Nil
  show ?case by (simp add: ownKept_refl)
next
  case (Cons declaredType rest)
  note tr = ownKept_trans
  note rf = ownKept_refl
  note a = ownKept_addTypeToModule
  note p = ownKept_loadPipeMetadata
  show ?case
    unfolding declarationsLoop.simps Let_def
    apply (intro steps_bindR[OF a _ tr] steps_bindR[OF p _ tr] Cons.IH | simp only: if_split | intro conjI impI | simp add: rf)+
    done
qed

lemma declarationsStored_ownKept:
  "declarationsStored env moduleType s seen \<Longrightarrow> ownKept moduleType s s1 \<Longrightarrow>
   declarationsStored env moduleType s1 seen"
  unfolding declarationsStored_def ownKept_def by (auto simp: dom_def subset_iff)

lemma addTypeToModule_Return:
  "addTypeToModule t moduleType s = Return u s1 \<Longrightarrow> ngModuleOfTypes s1 t = Some moduleType"
  by (auto simp: addTypeToModule_def split: option.splits if_splits)

lemma loadPipeMetadata_Return:
  "loadPipeMetadata env t s = Return m s1 \<Longrightarrow>
   pipeCache s1 t \<noteq> None \<and> pipeSummaryCache s1 t \<noteq> None \<and> ngModuleOfTypes s1 = ngModuleOfTypes s"
  by (auto simp: loadPipeMetadata_def Let_def split: option.splits sum.splits)

lemma declarationsLoop_stored:
  assumes "declarationsLoop env moduleType isSync decls tm dd dp s = Return x s1"
  shows "declarationsStored env moduleType s1 decls"
  using assms
proof (induction decls arbitrary: tm dd dp s)
  case Nil
  show ?case by (simp add: declarationsStored_def)
next
  case (Cons d rest)
  from Cons.prems obtain tm1 dd1 dp1 s2 where
    r: "declarationsLoop env moduleType isSync rest tm1 dd1 dp1 s2 = Return x s1"
    and reg: "ngModuleOfTypes s2 d = Some moduleType"
    and pipe: "\<not> directiveResolver_isDirective env d \<longrightarrow>
                 pipeCache s2 d \<noteq> None \<and> pipeSummaryCache s2 d \<noteq> None"
    by (auto simp: Let_def bindR_Return split: if_splits
             dest!: addTypeToModule_Return loadPipeMetadata_Return)
  have here: "declarationsStored env moduleType s2 [d]"
    using reg pipe by (simp add: declarationsStored_def)
  from steps_ReturnD[OF ownKept_declarationsLoop r] have "ownKept moduleType s2 s1" .
  from declarationsStored_ownKept[OF here this] Cons.IH[OF r] show ?case
    by (simp add: declarationsStored_def)
qed

lemma lift_Throw: "lift x s = Throw e s1 \<longleftrightarrow> x = Inl e \<and> s1 = s"
  by (cases x) auto

lemma body_Throw_phases:
  assumes b: "loadNgModuleMetadataBody load env t b1 b2 s = Throw e s1"
      and ann: "ngModuleResolver_resolve env t = Some meta"
  shows "importsLoop load env t b1 (importedTypes meta) [] [] [] s = Throw e s1 \<or>
      (\<exists>ps es ims sA.
         importsLoop load env t b1 (importedTypes meta) [] [] [] s = Return (ps, es, ims) sA \<and>
         (exportsLoop load t b1 (exportedTypes meta) [] [] sA = Throw e s1 \<or>
          (\<exists>exs ids sB.
             exportsLoop load t b1 (exportedTypes meta) [] [] sA = Return (exs, ids) sB \<and>
             stateOf (declarationsLoop env t b1 (declaredTypes meta)
                        (getTransitiveNgModuleMetadata ims exs) [] [] sB) = Some s1)))"
proof (cases "ngModuleCache s t")
  case (Some m)
  with b show ?thesis by (simp add: loadNgModuleMetadataBody_def)
next
  case None
  from b show ?thesis
    unfolding loadNgModuleMetadataBody_def None ann option.case
    by (auto simp: bindR_Throw lift_Throw)
qed

text \<open>
  C2, amended: a call of \<^verbatim>\<open>_loadNgModuleMetadata\<close> that fails takes nothing away from the
  caches and undoes none of its own writes. The directive metadata cache and the
  directive summary cache are exactly as they were, every entry of the module cache is
  still there unchanged, every pipe that had metadata or a summary still has one, and
  every type registered with a module is still registered with it. What the resolution
  stored before it failed is there after the failure: for every initial part of the
  imports that the import loop got through, the imported modules are in the module
  cache; once the imports are through, so is every exported module of every initial
  part of the exports that the export loop got through; and once imports and exports
  are through, every declaration that the declarations loop got through is registered
  with the failing module, and every pipe among them has its metadata and its summary.
  Over a module graph without cycles the failing module itself has no entry in the
  module cache afterwards.
\<close>

theorem failed_resolution_keeps_writes:
  assumes run: "private_loadNgModuleMetadata (Suc fuel) env moduleType isSync throwIfNotFound s = Throw e s1"
  shows "frame s s1
       \<and> (layered env rank \<longrightarrow> ngModuleCache s1 moduleType = None)
       \<and> (\<forall>meta. ngModuleResolver_resolve env moduleType = Some meta \<longrightarrow>
            (\<forall>seen rest x sP.
               importedTypes meta = seen @ rest \<longrightarrow>
               importsLoop (private_loadNgModuleMetadata fuel env) env moduleType isSync seen [] [] [] s
                 = Return x sP \<longrightarrow>
               importsStored s1 seen)
          \<and> (\<forall>ps es ims sA seen rest x sP.
               importsLoop (private_loadNgModuleMetadata fuel env) env moduleType isSync
                 (importedTypes meta) [] [] [] s = Return (ps, es, ims) sA \<longrightarrow>
               exportedTypes meta = seen @ rest \<longrightarrow>
               exportsLoop (private_loadNgModuleMetadata fuel env) moduleType isSync seen [] [] sA
                 = Return x sP \<longrightarrow>
               exportsStored env s1 seen)
          \<and> (\<forall>ps es ims sA exs ids sB seen rest x sP.
               importsLoop (private_loadNgModuleMetadata fuel env) env moduleType isSync
                 (importedTypes meta) [] [] [] s = Return (ps, es, ims) sA \<longrightarrow>
               exportsLoop (private_loadNgModuleMetadata fuel env) moduleType isSync
                 (exportedTypes meta) [] [] sA = Return (exs, ids) sB \<longrightarrow>
               declaredTypes meta = seen @ rest \<longrightarrow>
               declarationsLoop env moduleType isSync seen
                 (getTransitiveNgModuleMetadata ims exs) [] [] sB = Return x sP \<longrightarrow>
               declarationsStored env moduleType s1 seen))"
proof -
  let ?L = "private_loadNgModuleMetadata fuel env"
  from run have b: "loadNgModuleMetadataBody ?L env moduleType isSync throwIfNotFound s = Throw e s1"
    by simp
  have fr: "frame s s1"
    using steps_private_loadNgModuleMetadata[OF respected_frame, of s "Suc fuel" env moduleType isSync
            throwIfNotFound]
    by (simp only: run steps_simps)
  have own: "layered env rank \<longrightarrow> ngModuleCache s1 moduleType = None"
    using private_load_Throw_uncached[OF _ run] by blast
  have stored:
    "(\<forall>seen rest x sP.
               importedTypes meta = seen @ rest \<longrightarrow>
               importsLoop ?L env moduleType isSync seen [] [] [] s = Return x sP \<longrightarrow>
               importsStored s1 seen)
          \<and> (\<forall>ps es ims sA seen rest x sP.
               importsLoop ?L env moduleType isSync (importedTypes meta) [] [] [] s
                 = Return (ps, es, ims) sA \<longrightarrow>
               exportedTypes meta = seen @ rest \<longrightarrow>
               exportsLoop ?L moduleType isSync seen [] [] sA = Return x sP \<longrightarrow>
               exportsStored env s1 seen)
          \<and> (\<forall>ps es ims sA exs ids sB seen rest x sP.
               importsLoop ?L env moduleType isSync (importedTypes meta) [] [] [] s
                 = Return (ps, es, ims) sA \<longrightarrow>
               exportsLoop ?L moduleType isSync (exportedTypes meta) [] [] sA = Return (exs, ids) sB \<longrightarrow>
               declaredTypes meta = seen @ rest \<longrightarrow>
               declarationsLoop env moduleType isSync seen
                 (getTransitiveNgModuleMetadata ims exs) [] [] sB = Return x sP \<longrightarrow>
               declarationsStored env moduleType s1 seen)"
    if ann: "ngModuleResolver_resolve env moduleType = Some meta" for meta
  proof -
    note ph = body_Throw_phases[OF b ann]
    have fB: "frame sB s1"
      if "stateOf (declarationsLoop env moduleType isSync (declaredTypes meta) tm0 [] [] sB) = Some s1"
      for sB tm0
      by (rule steps_stateOf[OF steps_declarationsLoop[OF respected_frame] that])
    have afterImports:
      "exportsLoop ?L moduleType isSync (exportedTypes meta) [] [] sA = Throw e s1 \<or>
       (\<exists>exs ids sB.
          exportsLoop ?L moduleType isSync (exportedTypes meta) [] [] sA = Return (exs, ids) sB \<and>
          stateOf (declarationsLoop env moduleType isSync (declaredTypes meta)
                     (getTransitiveNgModuleMetadata ims exs) [] [] sB) = Some s1)"
      if "importsLoop ?L env moduleType isSync (importedTypes meta) [] [] [] s = Return (ps, es, ims) sA"
      for ps es ims sA
      using ph that by auto
    have afterExports:
      "stateOf (declarationsLoop env moduleType isSync (declaredTypes meta)
                     (getTransitiveNgModuleMetadata ims exs) [] [] sB) = Some s1"
      if "importsLoop ?L env moduleType isSync (importedTypes meta) [] [] [] s = Return (ps, es, ims) sA"
         "exportsLoop ?L moduleType isSync (exportedTypes meta) [] [] sA = Return (exs, ids) sB"
      for ps es ims sA exs ids sB
      using afterImports[OF that(1)] that(2) by auto
    have fA: "frame sA s1"
      if i: "importsLoop ?L env moduleType isSync (importedTypes meta) [] [] [] s = Return (ps, es, ims) sA"
      for ps es ims sA
      using afterImports[OF i]
    proof (elim disjE exE conjE)
      assume t: "exportsLoop ?L moduleType isSync (exportedTypes meta) [] [] sA = Throw e s1"
      have "steps frame sA (exportsLoop ?L moduleType isSync (exportedTypes meta) [] [] sA)"
        by (rule steps_exportsLoop[OF respected_frame frame_private_load])
      then show ?thesis by (simp only: t steps_simps)
    next
      fix exs ids sB
      assume r: "exportsLoop ?L moduleType isSync (exportedTypes meta) [] [] sA = Return (exs, ids) sB"
        and d: "stateOf (declarationsLoop env moduleType isSync (declaredTypes meta)
                     (getTransitiveNgModuleMetadata ims exs) [] [] sB) = Some s1"
      from frame_trans[OF frame_exportsLoop[OF r] fB[OF d]] show ?thesis .
    qed
    have A: "importsStored s1 seen"
      if sp: "importedTypes meta = seen @ rest"
      and p: "importsLoop ?L env moduleType isSync seen [] [] [] s = Return x sP"
      for seen rest x sP
    proof -
      obtain ps0 es0 ims0 where x: "x = (ps0, es0, ims0)" by (cases x)
      have full: "importsLoop ?L env moduleType isSync (importedTypes meta) [] [] [] s
                    = importsLoop ?L env moduleType isSync rest ps0 es0 ims0 sP"
        unfolding sp importsLoop_append p x by simp
      have st: "steps frame sP (importsLoop ?L env moduleType isSync rest ps0 es0 ims0 sP)"
        by (rule steps_importsLoop[OF respected_frame frame_private_load])
      from ph have "importsLoop ?L env moduleType isSync (importedTypes meta) [] [] [] s = Throw e s1 \<or>
          (\<exists>ps es ims sA. importsLoop ?L env moduleType isSync (importedTypes meta) [] [] [] s
             = Return (ps, es, ims) sA)"
        by blast
      then have "frame sP s1"
      proof (elim disjE exE)
        assume "importsLoop ?L env moduleType isSync (importedTypes meta) [] [] [] s = Throw e s1"
        with full have r: "importsLoop ?L env moduleType isSync rest ps0 es0 ims0 sP = Throw e s1"
          by simp
        from st show ?thesis unfolding r by simp
      next
        fix ps es ims sA
        assume i: "importsLoop ?L env moduleType isSync (importedTypes meta) [] [] [] s
                     = Return (ps, es, ims) sA"
        with full have r: "importsLoop ?L env moduleType isSync rest ps0 es0 ims0 sP
                             = Return (ps, es, ims) sA"
          by simp
        from st have "frame sP sA" unfolding r by simp
        from frame_trans[OF this fA[OF i]] show ?thesis .
      qed
      from importsStored_frame[OF importsLoop_stored[OF p] this] show ?thesis .
    qed
    have B: "exportsStored env s1 seen"
      if i: "importsLoop ?L env moduleType isSync (importedTypes meta) [] [] [] s = Return (ps, es, ims) sA"
      and sp: "exportedTypes meta = seen @ rest"
      and p: "exportsLoop ?L moduleType isSync seen [] [] sA = Return x sP"
      for ps es ims sA seen rest x sP
    proof -
      obtain ems0 ids0 where x: "x = (ems0, ids0)" by (cases x)
      have full: "exportsLoop ?L moduleType isSync (exportedTypes meta) [] [] sA
                    = exportsLoop ?L moduleType isSync rest ems0 ids0 sP"
        unfolding sp exportsLoop_append p x by simp
      have st: "steps frame sP (exportsLoop ?L moduleType isSync rest ems0 ids0 sP)"
        by (rule steps_exportsLoop[OF respected_frame frame_private_load])
      from afterImports[OF i] have "frame sP s1"
      proof (elim disjE exE conjE)
        assume "exportsLoop ?L moduleType isSync (exportedTypes meta) [] [] sA = Throw e s1"
        with full have r: "exportsLoop ?L moduleType isSync rest ems0 ids0 sP = Throw e s1"
          by simp
        from st show ?thesis unfolding r by simp
      next
        fix exs ids sB
        assume r: "exportsLoop ?L moduleType isSync (exportedTypes meta) [] [] sA = Return (exs, ids) sB"
          and d: "stateOf (declarationsLoop env moduleType isSync (declaredTypes meta)
                     (getTransitiveNgModuleMetadata ims exs) [] [] sB) = Some s1"
        from r full have r1: "exportsLoop ?L moduleType isSync rest ems0 ids0 sP = Return (exs, ids) sB"
          by simp
        from st have "frame sP sB" unfolding r1 by simp
        from frame_trans[OF this fB[OF d]] show ?thesis .
      qed
      from exportsStored_frame[OF exportsLoop_stored[OF p] this] show ?thesis .
    qed
    have C: "declarationsStored env moduleType s1 seen"
      if i: "importsLoop ?L env moduleType isSync (importedTypes meta) [] [] [] s = Return (ps, es, ims) sA"
      and ex: "exportsLoop ?L moduleType isSync (exportedTypes meta) [] [] sA = Return (exs, ids) sB"
      and sp: "declaredTypes meta = seen @ rest"
      and p: "declarationsLoop env moduleType isSync seen
                 (getTransitiveNgModuleMetadata ims exs) [] [] sB = Return x sP"
      for ps es ims sA exs ids sB seen rest x sP
    proof -
      obtain tm1 dd1 dp1 where x: "x = (tm1, dd1, dp1)" by (cases x) auto
      have full: "declarationsLoop env moduleType isSync (declaredTypes meta)
                    (getTransitiveNgModuleMetadata ims exs) [] [] sB
                    = declarationsLoop env moduleType isSync rest tm1 dd1 dp1 sP"
        unfolding sp declarationsLoop_append p x by simp
      from afterExports[OF i ex] full
      have "stateOf (declarationsLoop env moduleType isSync rest tm1 dd1 dp1 sP) = Some s1" by simp
      from steps_stateOf[OF ownKept_declarationsLoop this] have "ownKept moduleType sP s1" .
      from declarationsStored_ownKept[OF declarationsLoop_stored[OF p] this] show ?thesis .
    qed
    from A B C show ?thesis by blast
  qed
  from fr own stored show ?thesis by blast
qed

theorem failed_resolution_keeps_writes_witness:
  "\<exists>s0 s1.
     performAll exampleEnv
       [OpLoadNgModuleMetadata 3 (VType 6) True True, OpGetOrLoadPipeMetadata (VType 10)] newResolver
       = Some s0 \<and>
     private_loadNgModuleMetadata (Suc 2) exampleEnv (VType 9) True True s0
       = Throw (InvalidDeclaration DValue (VType 11) (VType 9)) s1 \<and>
     layered exampleEnv exampleRank \<and>
     ngModuleCache s0 (VType 6) \<noteq> None \<and> directiveCache s0 (VType 20) \<noteq> None \<and>
     directiveSummaryCache s0 (VType 20) \<noteq> None \<and> pipeCache s0 (VType 10) \<noteq> None \<and>
     pipeSummaryCache s0 (VType 10) \<noteq> None \<and> ngModuleOfTypes s0 (VType 20) = Some (VType 6) \<and>
     ngModuleCache s0 (VType 3) = None \<and> ngModuleCache s0 (VType 2) = None \<and>
     pipeCache s0 (VType 12) = None \<and> pipeSummaryCache s0 (VType 12) = None \<and>
     ngModuleOfTypes s0 (VType 12) = None \<and>
     frame s0 s1 \<and> ngModuleCache s1 (VType 9) = None \<and>
     importsStored s1 [VType 3] \<and> exportsStored exampleEnv s1 [VType 2] \<and>
     declarationsStored exampleEnv (VType 9) s1 [VType 12]"
proof -
  let ?L = "private_loadNgModuleMetadata 2 exampleEnv"
  have "case performAll exampleEnv
               [OpLoadNgModuleMetadata 3 (VType 6) True True, OpGetOrLoadPipeMetadata (VType 10)]
               newResolver of
          None \<Rightarrow> False
        | Some s0 \<Rightarrow>
            (case private_loadNgModuleMetadata (Suc 2) exampleEnv (VType 9) True True s0 of
               Throw e s1 \<Rightarrow>
                 e = InvalidDeclaration DValue (VType 11) (VType 9) \<and>
                 ngModuleCache s0 (VType 6) \<noteq> None \<and> directiveCache s0 (VType 20) \<noteq> None \<and>
                 directiveSummaryCache s0 (VType 20) \<noteq> None \<and> pipeCache s0 (VType 10) \<noteq> None \<and>
                 pipeSummaryCache s0 (VType 10) \<noteq> None \<and>
                 ngModuleOfTypes s0 (VType 20) = Some (VType 6) \<and>
                 ngModuleCache s0 (VType 3) = None \<and> ngModuleCache s0 (VType 2) = None \<and>
                 pipeCache s0 (VType 12) = None \<and> pipeSummaryCache s0 (VType 12) = None \<and>
                 ngModuleOfTypes s0 (VType 12) = None \<and>
                 (case importsLoop ?L exampleEnv (VType 9) True [VType 3] [] [] [] s0 of
                    Return (ps, es, ims) sA \<Rightarrow>
                      (case exportsLoop ?L (VType 9) True [VType 2] [] [] sA of
                         Return (exs, ids) sB \<Rightarrow>
                           (case declarationsLoop exampleEnv (VType 9) True [VType 12]
                                   (getTransitiveNgModuleMetadata ims exs) [] [] sB of
                              Return x sP \<Rightarrow> True
                            | _ \<Rightarrow> False)
                       | _ \<Rightarrow> False)
                  | _ \<Rightarrow> False)
             | _ \<Rightarrow> False)"
    by code_simp
  then obtain s0 where
    reach: "performAll exampleEnv
              [OpLoadNgModuleMetadata 3 (VType 6) True True, OpGetOrLoadPipeMetadata (VType 10)]
              newResolver = Some s0"
    and "case private_loadNgModuleMetadata (Suc 2) exampleEnv (VType 9) True True s0 of
               Throw e s1 \<Rightarrow>
                 e = InvalidDeclaration DValue (VType 11) (VType 9) \<and>
                 ngModuleCache s0 (VType 6) \<noteq> None \<and> directiveCache s0 (VType 20) \<noteq> None \<and>
                 directiveSummaryCache s0 (VType 20) \<noteq> None \<and> pipeCache s0 (VType 10) \<noteq> None \<and>
                 pipeSummaryCache s0 (VType 10) \<noteq> None \<and>
                 ngModuleOfTypes s0 (VType 20) = Some (VType 6) \<and>
                 ngModuleCache s0 (VType 3) = None \<and> ngModuleCache s0 (VType 2) = None \<and>
                 pipeCache s0 (VType 12) = None \<and> pipeSummaryCache s0 (VType 12) = None \<and>
                 ngModuleOfTypes s0 (VType 12) = None \<and>
                 (case importsLoop ?L exampleEnv (VType 9) True [VType 3] [] [] [] s0 of
                    Return (ps, es, ims) sA \<Rightarrow>
                      (case exportsLoop ?L (VType 9) True [VType 2] [] [] sA of
                         Return (exs, ids) sB \<Rightarrow>
                           (case declarationsLoop exampleEnv (VType 9) True [VType 12]
                                   (getTransitiveNgModuleMetadata ims exs) [] [] sB of
                              Return x sP \<Rightarrow> True
                            | _ \<Rightarrow> False)
                       | _ \<Rightarrow> False)
                  | _ \<Rightarrow> False)
             | _ \<Rightarrow> False"
    by (cases "performAll exampleEnv
               [OpLoadNgModuleMetadata 3 (VType 6) True True, OpGetOrLoadPipeMetadata (VType 10)]
               newResolver") simp_all
  then obtain s1 where
    run: "private_loadNgModuleMetadata (Suc 2) exampleEnv (VType 9) True True s0
            = Throw (InvalidDeclaration DValue (VType 11) (VType 9)) s1"
    and before: "ngModuleCache s0 (VType 6) \<noteq> None" "directiveCache s0 (VType 20) \<noteq> None"
      "directiveSummaryCache s0 (VType 20) \<noteq> None" "pipeCache s0 (VType 10) \<noteq> None"
      "pipeSummaryCache s0 (VType 10) \<noteq> None" "ngModuleOfTypes s0 (VType 20) = Some (VType 6)"
      "ngModuleCache s0 (VType 3) = None" "ngModuleCache s0 (VType 2) = None"
      "pipeCache s0 (VType 12) = None" "pipeSummaryCache s0 (VType 12) = None"
      "ngModuleOfTypes s0 (VType 12) = None"
    and "case importsLoop ?L exampleEnv (VType 9) True [VType 3] [] [] [] s0 of
                    Return (ps, es, ims) sA \<Rightarrow>
                      (case exportsLoop ?L (VType 9) True [VType 2] [] [] sA of
                         Return (exs, ids) sB \<Rightarrow>
                           (case declarationsLoop exampleEnv (VType 9) True [VType 12]
                                   (getTransitiveNgModuleMetadata ims exs) [] [] sB of
                              Return x sP \<Rightarrow> True
                            | _ \<Rightarrow> False)
                       | _ \<Rightarrow> False)
                  | _ \<Rightarrow> False"
    by (cases "private_loadNgModuleMetadata (Suc 2) exampleEnv (VType 9) True True s0") simp_all
  then obtain ps es ims sA where
    i: "importsLoop ?L exampleEnv (VType 9) True [VType 3] [] [] [] s0 = Return (ps, es, ims) sA"
    and "case exportsLoop ?L (VType 9) True [VType 2] [] [] sA of
                         Return (exs, ids) sB \<Rightarrow>
                           (case declarationsLoop exampleEnv (VType 9) True [VType 12]
                                   (getTransitiveNgModuleMetadata ims exs) [] [] sB of
                              Return x sP \<Rightarrow> True
                            | _ \<Rightarrow> False)
                       | _ \<Rightarrow> False"
    by (cases "importsLoop ?L exampleEnv (VType 9) True [VType 3] [] [] [] s0") auto
  then obtain exs ids sB where
    ex: "exportsLoop ?L (VType 9) True [VType 2] [] [] sA = Return (exs, ids) sB"
    and "case declarationsLoop exampleEnv (VType 9) True [VType 12]
                                   (getTransitiveNgModuleMetadata ims exs) [] [] sB of
                              Return x sP \<Rightarrow> True
                            | _ \<Rightarrow> False"
    by (cases "exportsLoop ?L (VType 9) True [VType 2] [] [] sA") auto
  then obtain x sP where
    d: "declarationsLoop exampleEnv (VType 9) True [VType 12]
          (getTransitiveNgModuleMetadata ims exs) [] [] sB = Return x sP"
    by (cases "declarationsLoop exampleEnv (VType 9) True [VType 12]
          (getTransitiveNgModuleMetadata ims exs) [] [] sB") auto
  have ann: "ngModuleResolver_resolve exampleEnv (VType 9) = Some meta9"
    by (simp add: exampleEnv_def exampleModules_def meta9_def)
  have it: "importedTypes meta9 = [VType 3] @ []"
    and et: "exportedTypes meta9 = [VType 2] @ []"
    and dt: "declaredTypes meta9 = [VType 12] @ [VType 11]"
    by (simp_all add: meta9_def emptyModule_def importedTypes_def exportedTypes_def declaredTypes_def
          flattenAndDedupeArray_def dedupeArray_def)
  from i it have ifull: "importsLoop ?L exampleEnv (VType 9) True (importedTypes meta9) [] [] [] s0
                           = Return (ps, es, ims) sA" by simp
  from ex et have efull: "exportsLoop ?L (VType 9) True (exportedTypes meta9) [] [] sA
                            = Return (exs, ids) sB" by simp
  note T = failed_resolution_keeps_writes[OF run, of exampleRank]
  note S = T[THEN conjunct2, THEN conjunct2, rule_format, OF ann]
  note A = S[THEN conjunct1, rule_format, OF it i]
  note B = S[THEN conjunct2, THEN conjunct1, rule_format, OF ifull et ex]
  note C = S[THEN conjunct2, THEN conjunct2, rule_format, OF ifull efull dt d]
  from T layered_example have own: "ngModuleCache s1 (VType 9) = None" by blast
  show ?thesis
    apply (rule exI[of _ s0], rule exI[of _ s1])
    using reach run layered_example before conjunct1[OF T] own A B C
    by (intro conjI) assumption+
qed

lemma consistent_private_load:
  assumes "layered env rank" and "consistent s"
      and "stateOf (private_loadNgModuleMetadata fuel env t b1 b2 s) = Some s1"
  shows "consistent s1"
  using steps_stateOf[OF writesBelow_private_load[OF assms(1)] assms(3)] assms(2)
  by (simp add: writesBelow_def)

lemma sameModules_consistent: "sameModules s s1 \<Longrightarrow> consistent s \<Longrightarrow> consistent s1"
  using consistent_cong[of s1 s] by (simp add: sameModules_def)

lemma sameModules_loadDirectiveMetadata:
  "steps sameModules s (loadDirectiveMetadata env directiveType isSync s)"
  unfolding loadDirectiveMetadata_def
  by (auto simp: sameModules_def createDirectiveMetadata_def Let_def
      split: sum.splits option.splits template_result.splits)

lemma sameModules_runLoaders:
  "steps sameModules s (runLoaders env loaders s)"
proof (induction loaders arbitrary: s)
  case Nil
  show ?case by (simp add: sameModules_def)
next
  case (Cons l loaders)
  obtain t b where l: "l = DirectiveLoader t b" by (cases l)
  have tr: "\<And>s1 s2 s3. sameModules s1 s2 \<Longrightarrow> sameModules s2 s3 \<Longrightarrow> sameModules s1 s3"
    by (simp add: sameModules_def)
  show ?case
    unfolding l runLoaders.simps
    apply (rule steps_bindR[OF sameModules_loadDirectiveMetadata _ tr])
      apply (rule steps_bindR[OF Cons.IH _ tr])
        apply (simp add: sameModules_def)
       apply assumption+
    done
qed

lemma consistent_loadNgModuleMetadata:
  assumes lay: "layered env rank" and c: "consistent s"
      and st: "stateOf (loadNgModuleMetadata fuel env t b1 b2 s) = Some s1"
  shows "consistent s1"
proof (cases "private_loadNgModuleMetadata fuel env t b1 b2 s")
  case OutOfFuel
  with st show ?thesis by (simp add: loadNgModuleMetadata_def)
next
  case (Throw e s2)
  with st have "s1 = s2" by (simp add: loadNgModuleMetadata_def)
  with consistent_private_load[OF lay c, of fuel t b1 b2 s2] Throw show ?thesis by simp
next
  case (Return r s2)
  with consistent_private_load[OF lay c, of fuel t b1 b2 s2] have c2: "consistent s2" by simp
  show ?thesis
  proof (cases r)
    case None
    with st Return c2 show ?thesis by (simp add: loadNgModuleMetadata_def)
  next
    case (Some m)
    let ?run = "runLoaders env (tr_directiveLoaders (nm_transitiveModule m)) s2"
    from st Return Some have "stateOf ?run = Some s1"
      by (cases ?run) (auto simp: loadNgModuleMetadata_def)
    from sameModules_consistent[OF steps_stateOf[OF sameModules_runLoaders this] c2] show ?thesis .
  qed
qed

lemma perform_consistent:
  assumes lay: "layered env rank" and p: "perform env op s = Some s1" and c: "consistent s"
  shows "consistent s1"
proof (cases op)
  case (OpLoadNgModuleMetadata f t b1 b2)
  with p consistent_loadNgModuleMetadata[OF lay c] show ?thesis by simp
next
  case (OpGetUnloadedNgModuleMetadata f t b1 b2)
  with p consistent_private_load[OF lay c] show ?thesis
    by (simp add: getUnloadedNgModuleMetadata_def)
next
  case (OpDirectiveLoader l)
  obtain t b where l: "l = DirectiveLoader t b" by (cases l)
  with p OpDirectiveLoader have "stateOf (loadDirectiveMetadata env t b s) = Some s1" by simp
  from sameModules_consistent[OF steps_stateOf[OF sameModules_loadDirectiveMetadata this] c]
  show ?thesis .
next
  case (OpCompleteLoading l tm)
  with p have "sameModules s s1"
    by (cases l) (auto simp: createDirectiveMetadata_def Let_def sameModules_def)
  from sameModules_consistent[OF this c] show ?thesis .
next
  case (OpGetOrLoadPipeMetadata t)
  have "steps sameModules s (getOrLoadPipeMetadata env t s)"
    by (auto simp: getOrLoadPipeMetadata_def loadPipeMetadata_def sameModules_def Let_def
        split: option.splits sum.splits)
  moreover from p OpGetOrLoadPipeMetadata have "stateOf (getOrLoadPipeMetadata env t s) = Some s1"
    by simp
  ultimately have "sameModules s s1" by (rule steps_stateOf)
  from sameModules_consistent[OF this c] show ?thesis .
next
  case (OpClearCacheFor t)
  with p show ?thesis by (auto simp: clearCacheFor_def consistent_def)
next
  case OpClearCache
  with p show ?thesis by (auto simp: clearCache_def consistent_def)
qed

lemma performAll_consistent:
  "layered env rank \<Longrightarrow> performAll env ops s = Some s1 \<Longrightarrow> consistent s \<Longrightarrow> consistent s1"
proof (induction ops arbitrary: s)
  case Nil
  then show ?case by simp
next
  case (Cons op ops)
  from Cons.prems(2) obtain s2 where p: "perform env op s = Some s2" and r: "performAll env ops s2 = Some s1"
    by (auto split: option.splits)
  from Cons.IH[OF Cons.prems(1) r perform_consistent[OF Cons.prems(1) p Cons.prems(3)]] show ?case .
qed

lemma consistent_newResolver: "consistent newResolver"
  by (simp add: consistent_def newResolver_def)

lemma consistent_oneSummaryPerModule:
  assumes c: "consistent s" and m: "ngModuleCache s t = Some m"
  shows "oneSummaryPerModule (nm_importedModules m @ nm_exportedModules m)"
proof -
  have "x = y" if "cachedSummary s x" "cachedSummary s y" "moduleReference x = moduleReference y" for x y
    using that by (auto simp: cachedSummary_def split: option.splits)
  with c m show ?thesis unfolding oneSummaryPerModule_def consistent_def by blast
qed

text \<open>
  C1: the module graph has no cycles, the resolver has gone through any sequence of
  operations since it was new, and it now returns the metadata of module A; B is among
  the modules A imports and C among those B imports. Then the transitive provider list
  of A holds the providers of C, later those of B, and at its very end the providers
  of A itself. So when A has a provider for a token, the last provider for that token
  in the transitive list, which a last-writer-wins resolution selects, is the last one
  of A.
\<close>

theorem own_providers_last:
  assumes lay: "layered env rank"
      and reach: "performAll env ops newResolver = Some s"
      and run: "getUnloadedNgModuleMetadata fuel env moduleA isSync throwIfNotFound s = Return (Some mA) s1"
      and ab: "sB \<in> set (nm_importedModules mA)"
      and bc: "sC \<in> set (ms_importedModules sB)"
  shows "(\<exists>pre mid post.
            tr_providers (nm_transitiveModule mA) =
              pre @ flattenProviders (ms_providers sC) @ mid @ flattenProviders (ms_providers sB) @ post
              @ nm_providers mA)
       \<and> ((\<exists>p\<in>set (flattenProviders (nm_providers mA)). providerToken p = Some tok) \<longrightarrow>
            effectiveProvider tok (tr_providers (nm_transitiveModule mA))
              = effectiveProvider tok (nm_providers mA))"
proof -
  let ?L = "fst (getTransitiveImportedModules (nm_importedModules mA @ nm_exportedModules mA) [] {})"
  from run have r: "private_loadNgModuleMetadata fuel env moduleA isSync throwIfNotFound s = Return (Some mA) s1"
    by (simp add: getUnloadedNgModuleMetadata_def)
  from performAll_consistent[OF lay reach consistent_newResolver] have c: "consistent s" .
  from r have "stateOf (private_loadNgModuleMetadata fuel env moduleA isSync throwIfNotFound s) = Some s1"
    by simp
  from consistent_private_load[OF lay c this] have c1: "consistent s1" .
  note m = private_load_Return_cached[OF r]
  from c1 m have shape: "tr_providers (nm_transitiveModule mA) =
                 flattenProviders (concat (map ms_providers ?L)) @ nm_providers mA"
    unfolding consistent_def transitiveShape_def by blast
  note one = consistent_oneSummaryPerModule[OF c1 m]
  from ab have b: "sB \<in> set (nm_importedModules mA @ nm_exportedModules mA)" by simp
  from bc have c: "sC \<in> set (nestedModules sB)" by (simp add: nestedModules_def)
  from transitive_child_before_parent[OF one b c] obtain l1 l2 l3 where
    l: "?L = l1 @ sC # l2 @ sB # l3" by blast
  have "flattenProviders (concat (map ms_providers ?L)) =
          flattenProviders (concat (map ms_providers l1)) @ flattenProviders (ms_providers sC) @
          flattenProviders (concat (map ms_providers l2)) @ flattenProviders (ms_providers sB) @
          flattenProviders (concat (map ms_providers l3))"
    unfolding l by (simp add: flattenProviders_append)
  with shape have first: "\<exists>pre mid post.
            tr_providers (nm_transitiveModule mA) =
              pre @ flattenProviders (ms_providers sC) @ mid @ flattenProviders (ms_providers sB) @ post
              @ nm_providers mA"
    by (metis append.assoc)
  have second: "effectiveProvider tok (tr_providers (nm_transitiveModule mA))
              = effectiveProvider tok (nm_providers mA)"
    if "\<exists>p\<in>set (flattenProviders (nm_providers mA)). providerToken p = Some tok"
    unfolding shape by (rule effectiveProvider_append[OF that])
  from first second show ?thesis by blast
qed

theorem own_providers_last_witness:
  "\<exists>s mA s1 sB sC.
     layered exampleEnv exampleRank \<and>
     performAll exampleEnv [OpGetUnloadedNgModuleMetadata 2 (VType 2) True True] newResolver = Some s \<and>
     getUnloadedNgModuleMetadata 3 exampleEnv (VType 1) True True s = Return (Some mA) s1 \<and>
     nm_importedModules mA = [sB] \<and> ms_importedModules sB = [sC] \<and>
     map providedValue (ms_providers sC) = [Some (COpaque (VStr ''c''))] \<and>
     map providedValue (ms_providers sB) = [Some (COpaque (VStr ''b''))] \<and>
     map providedValue (nm_providers mA) = [Some (COpaque (VStr ''a''))] \<and>
     map providedValue (tr_providers (nm_transitiveModule mA))
       = [Some (COpaque (VStr ''c'')), Some (COpaque (VStr ''b'')), Some (COpaque (VStr ''a''))] \<and>
     (\<exists>pre mid post.
        tr_providers (nm_transitiveModule mA) =
          pre @ flattenProviders (ms_providers sC) @ mid @ flattenProviders (ms_providers sB) @ post
          @ nm_providers mA) \<and>
     effectiveProvider (TokValue ''token'') (tr_providers (nm_transitiveModule mA))
       = effectiveProvider (TokValue ''token'') (nm_providers mA) \<and>
     map_option providedValue (effectiveProvider (TokValue ''token'') (tr_providers (nm_transitiveModule mA)))
       = Some (Some (COpaque (VStr ''a'')))"
proof -
  have "case performAll exampleEnv [OpGetUnloadedNgModuleMetadata 2 (VType 2) True True] newResolver of
          None \<Rightarrow> False
        | Some s \<Rightarrow>
       (case getUnloadedNgModuleMetadata 3 exampleEnv (VType 1) True True s of
          Return (Some mA) s1 \<Rightarrow>
            (case nm_importedModules mA of
               [sB] \<Rightarrow>
                 (case ms_importedModules sB of
                    [sC] \<Rightarrow>
                      map providedValue (ms_providers sC) = [Some (COpaque (VStr ''c''))] \<and>
                      map providedValue (ms_providers sB) = [Some (COpaque (VStr ''b''))] \<and>
                      map providedValue (nm_providers mA) = [Some (COpaque (VStr ''a''))] \<and>
                      map providedValue (tr_providers (nm_transitiveModule mA))
                        = [Some (COpaque (VStr ''c'')), Some (COpaque (VStr ''b'')),
                           Some (COpaque (VStr ''a''))] \<and>
                      (\<exists>p\<in>set (flattenProviders (nm_providers mA)).
                         providerToken p = Some (TokValue ''token'')) \<and>
                      map_option providedValue
                          (effectiveProvider (TokValue ''token'') (tr_providers (nm_transitiveModule mA)))
                        = Some (Some (COpaque (VStr ''a'')))
                  | _ \<Rightarrow> False)
             | _ \<Rightarrow> False)
        | _ \<Rightarrow> False)"
    by code_simp
  then obtain s where
    reach: "performAll exampleEnv [OpGetUnloadedNgModuleMetadata 2 (VType 2) True True] newResolver = Some s"
    and "case getUnloadedNgModuleMetadata 3 exampleEnv (VType 1) True True s of
          Return (Some mA) s1 \<Rightarrow>
            (case nm_importedModules mA of
               [sB] \<Rightarrow>
                 (case ms_importedModules sB of
                    [sC] \<Rightarrow>
                      map providedValue (ms_providers sC) = [Some (COpaque (VStr ''c''))] \<and>
                      map providedValue (ms_providers sB) = [Some (COpaque (VStr ''b''))] \<and>
                      map providedValue (nm_providers mA) = [Some (COpaque (VStr ''a''))] \<and>
                      map providedValue (tr_providers (nm_transitiveModule mA))
                        = [Some (COpaque (VStr ''c'')), Some (COpaque (VStr ''b'')),
                           Some (COpaque (VStr ''a''))] \<and>
                      (\<exists>p\<in>set (flattenProviders (nm_providers mA)).
                         providerToken p = Some (TokValue ''token'')) \<and>
                      map_option providedValue
                          (effectiveProvider (TokValue ''token'') (tr_providers (nm_transitiveModule mA)))
                        = Some (Some (COpaque (VStr ''a'')))
                  | _ \<Rightarrow> False)
             | _ \<Rightarrow> False)
        | _ \<Rightarrow> False"
    by (cases "performAll exampleEnv [OpGetUnloadedNgModuleMetadata 2 (VType 2) True True] newResolver")
       simp_all
  then obtain mA s1 sB sC where
    run: "getUnloadedNgModuleMetadata 3 exampleEnv (VType 1) True True s = Return (Some mA) s1"
    and ab: "nm_importedModules mA = [sB]" and bc: "ms_importedModules sB = [sC]"
    and v: "map providedValue (ms_providers sC) = [Some (COpaque (VStr ''c''))]"
           "map providedValue (ms_providers sB) = [Some (COpaque (VStr ''b''))]"
           "map providedValue (nm_providers mA) = [Some (COpaque (VStr ''a''))]"
           "map providedValue (tr_providers (nm_transitiveModule mA))
                        = [Some (COpaque (VStr ''c'')), Some (COpaque (VStr ''b'')),
                           Some (COpaque (VStr ''a''))]"
    and p: "\<exists>p\<in>set (flattenProviders (nm_providers mA)). providerToken p = Some (TokValue ''token'')"
    and w: "map_option providedValue
                          (effectiveProvider (TokValue ''token'') (tr_providers (nm_transitiveModule mA)))
                        = Some (Some (COpaque (VStr ''a'')))"
    by (auto split: result.splits option.splits list.splits)
  note lay = layered_example
  from own_providers_last[OF lay reach run, of sB sC "TokValue ''token''"] ab bc p
  have h: "(\<exists>pre mid post.
        tr_providers (nm_transitiveModule mA) =
          pre @ flattenProviders (ms_providers sC) @ mid @ flattenProviders (ms_providers sB) @ post
          @ nm_providers mA) \<and>
     effectiveProvider (TokValue ''token'') (tr_providers (nm_transitiveModule mA))
       = effectiveProvider (TokValue ''token'') (nm_providers mA)"
    by simp
  show ?thesis
    apply (rule exI[of _ s], rule exI[of _ mA], rule exI[of _ s1], rule exI[of _ sB], rule exI[of _ sC])
    using lay reach run ab bc v w conjunct1[OF h] conjunct2[OF h] by (intro conjI) assumption+
qed

end
